(* ===== verification/Bozo_Prelude.thy ===== *)
theory Bozo_Prelude
  imports Main "HOL-Library.Word"
begin

text \<open>
  Shared vocabulary of the development: the types every component talks about (bytes, the
  library's \<open>size_type\<close> and \<open>oid_t\<close>), the collections of rewrite rules the component proofs
  are driven by, and the generic facts about lists, words and results that more than one
  component needs.
\<close>

unbundle bit_operations_syntax

section \<open>Collections of facts\<close>

named_theorems io_simps \<open>unfolding rules of the stream and codec layer\<close>
named_theorems step_simps \<open>unfolding rules of the asynchronous operations\<close>

section \<open>Types shared by the components\<close>

text \<open>A \<open>char\<close> of a buffer, PostgreSQL's \<open>Oid\<close> (an unsigned 32-bit integer), and
  \<open>size_type = std::int32_t\<close> read as a mathematical integer.\<close>

type_synonym byte = "8 word"
type_synonym oid_t = "32 word"
type_synonym size_type = int

text \<open>Conversion of an integer to \<open>std::int32_t\<close>.\<close>

definition to_int32 :: "int \<Rightarrow> int" where
  "to_int32 x = sint (word_of_int x :: 32 word)"

lemma to_int32_id [simp]: "- (2 ^ 31) \<le> x \<Longrightarrow> x < 2 ^ 31 \<Longrightarrow> to_int32 x = x"
  by (simp add: to_int32_def sint_uint uint_word_of_int_eq signed_take_bit_take_bit signed_take_bit_int_eq_self)

lemma to_int32_bounds: "- (2 ^ 31) \<le> to_int32 x \<and> to_int32 x < 2 ^ 31"
  using sint_greater_eq [of "word_of_int x :: 32 word"] sint_less [of "word_of_int x :: 32 word"]
  by (simp add: to_int32_def)

section \<open>Results\<close>

text \<open>A throwing function returns \<open>'e + 'a\<close>: \<open>Inl\<close> is the thrown exception.\<close>

definition sbind :: "'e + 'a \<Rightarrow> ('a \<Rightarrow> 'e + 'b) \<Rightarrow> 'e + 'b" where
  "sbind m f = (case m of Inl e \<Rightarrow> Inl e | Inr x \<Rightarrow> f x)"

lemma sbind_simps [simp]: "sbind (Inl e) f = Inl e" "sbind (Inr x) f = f x"
  by (simp_all add: sbind_def)

lemma sbind_eq_Inr [simp]: "sbind m f = Inr y \<longleftrightarrow> (\<exists>x. m = Inr x \<and> f x = Inr y)"
  by (cases m) simp_all

lemma sbind_eq_Inl: "sbind m f = Inl e \<longleftrightarrow> m = Inl e \<or> (\<exists>x. m = Inr x \<and> f x = Inl e)"
  by (cases m) simp_all

lemma sbind_cong [fundef_cong]:
  "m = m' \<Longrightarrow> (\<And>x. m' = Inr x \<Longrightarrow> f x = f' x) \<Longrightarrow> sbind m f = sbind m' f'"
  by (cases m') simp_all

end
