(* ===== verification/Bozo_Base36.thy ===== *)
theory Bozo_Base36
  imports Bozo_Prelude
begin

text \<open>
  \<open>detail/base36.h\<close>: the base-36 text of SQL states. \<open>ltob36\<close> is the do-while loop of the
  source on the unsigned value; \<open>b36tol\<close> is the C library's \<open>strtol\<close> at base 36, written
  out with its white space, sign and saturation rules.
\<close>

section \<open>Definitions\<close>

definition b36_digit :: "nat \<Rightarrow> char" where
  "b36_digit d = (if d < 10 then char_of (48 + d) else char_of (65 + d - 10))"

function ltob36_loop :: "nat \<Rightarrow> string \<Rightarrow> string" where
  "ltob36_loop u out =
     (let out' = out @ [b36_digit (u mod 36)]; u' = u div 36
      in if 0 < u' then ltob36_loop u' out' else out')"
  by pat_completeness auto
termination
  by (relation "measure fst") auto

declare ltob36_loop.simps [simp del]

definition ltob36 :: "64 word \<Rightarrow> string" where
  "ltob36 i = rev (ltob36_loop (unat i) [])"

definition is_space :: "char \<Rightarrow> bool" where
  "is_space c \<longleftrightarrow> of_char c = (32 :: nat) \<or> (9 \<le> (of_char c :: nat) \<and> of_char c \<le> (13 :: nat))"

definition b36_value :: "char \<Rightarrow> nat option" where
  "b36_value c =
     (let n = (of_char c :: nat) in
      if 48 \<le> n \<and> n \<le> 57 then Some (n - 48)
      else if 65 \<le> n \<and> n \<le> 90 then Some (n - 65 + 10)
      else if 97 \<le> n \<and> n \<le> 122 then Some (n - 97 + 10)
      else None)"

fun strtol_digits :: "nat \<Rightarrow> string \<Rightarrow> nat" where
  "strtol_digits acc [] = acc"
| "strtol_digits acc (c # cs) =
     (case b36_value c of None \<Rightarrow> acc | Some d \<Rightarrow> strtol_digits (acc * 36 + d) cs)"

definition strtol36 :: "string \<Rightarrow> int" where
  "strtol36 s =
     (let s1 = dropWhile is_space s;
          neg = (s1 \<noteq> [] \<and> hd s1 = CHR ''-'');
          s2 = (if s1 \<noteq> [] \<and> (hd s1 = CHR ''-'' \<or> hd s1 = CHR ''+'') then tl s1 else s1);
          v = int (strtol_digits 0 s2)
      in max (- (2 ^ 63)) (min (2 ^ 63 - 1) (if neg then - v else v)))"

definition b36tol :: "string \<Rightarrow> int" where
  "b36tol s = strtol36 s"

section \<open>The printed digits\<close>

lemma of_char_b36_digit: "d < 36 \<Longrightarrow> of_char (b36_digit d) = (if d < 10 then 48 + d else 55 + d)"
  by (auto simp: b36_digit_def)

text \<open>The 36 digit characters.\<close>

lemma b36_digit_chars [simp]:
  "b36_digit 0 = CHR ''0''" "b36_digit (Suc 0) = CHR ''1''" "b36_digit 2 = CHR ''2''"
  "b36_digit 3 = CHR ''3''" "b36_digit 4 = CHR ''4''" "b36_digit 5 = CHR ''5''"
  "b36_digit 6 = CHR ''6''" "b36_digit 7 = CHR ''7''" "b36_digit 8 = CHR ''8''"
  "b36_digit 9 = CHR ''9''" "b36_digit 10 = CHR ''A''" "b36_digit 11 = CHR ''B''"
  "b36_digit 12 = CHR ''C''" "b36_digit 13 = CHR ''D''" "b36_digit 14 = CHR ''E''"
  "b36_digit 15 = CHR ''F''" "b36_digit 16 = CHR ''G''" "b36_digit 17 = CHR ''H''"
  "b36_digit 18 = CHR ''I''" "b36_digit 19 = CHR ''J''" "b36_digit 20 = CHR ''K''"
  "b36_digit 21 = CHR ''L''" "b36_digit 22 = CHR ''M''" "b36_digit 23 = CHR ''N''"
  "b36_digit 24 = CHR ''O''" "b36_digit 25 = CHR ''P''" "b36_digit 26 = CHR ''Q''"
  "b36_digit 27 = CHR ''R''" "b36_digit 28 = CHR ''S''" "b36_digit 29 = CHR ''T''"
  "b36_digit 30 = CHR ''U''" "b36_digit 31 = CHR ''V''" "b36_digit 32 = CHR ''W''"
  "b36_digit 33 = CHR ''X''" "b36_digit 34 = CHR ''Y''" "b36_digit 35 = CHR ''Z''"
  by code_simp+

lemma b36_value_digit [simp]: "d < 36 \<Longrightarrow> b36_value (b36_digit d) = Some d"
  by (auto simp: b36_value_def of_char_b36_digit Let_def)

lemma b36_digit_not_space [simp]: "d < 36 \<Longrightarrow> \<not> is_space (b36_digit d)"
  by (auto simp: is_space_def of_char_b36_digit)

lemma b36_digit_not_sign:
  assumes "d < 36"
  shows "b36_digit d \<noteq> CHR ''-''" "b36_digit d \<noteq> CHR ''+''"
proof -
  have "of_char (b36_digit d) \<noteq> (45 :: nat)" "of_char (b36_digit d) \<noteq> (43 :: nat)"
    using assms by (auto simp: of_char_b36_digit)
  then show "b36_digit d \<noteq> CHR ''-''" "b36_digit d \<noteq> CHR ''+''" by auto
qed

text \<open>The digits of \<open>u\<close>, most significant first, as the loop leaves them after the reversal.\<close>

fun b36_digits :: "nat \<Rightarrow> nat list" where
  "b36_digits u = (if u < 36 then [u] else b36_digits (u div 36) @ [u mod 36])"

declare b36_digits.simps [simp del]

lemma ltob36_loop_digits: "ltob36_loop u out = out @ rev (map b36_digit (b36_digits u))"
proof (induction u out rule: ltob36_loop.induct)
  case (1 u out)
  show ?case
  proof (cases "0 < u div 36")
    case True
    then have "\<not> u < 36" by simp
    with True "1.IH" show ?thesis
      by (simp add: ltob36_loop.simps [of u] b36_digits.simps [of u] Let_def)
  next
    case False
    then have "u < 36" by (simp add: div_greater_zero_iff)
    then show ?thesis
      by (simp add: ltob36_loop.simps [of u] b36_digits.simps [of u] Let_def)
  qed
qed

lemma ltob36_digits: "ltob36 i = map b36_digit (b36_digits (unat i))"
  by (simp add: ltob36_def ltob36_loop_digits)

lemma b36_digits_small: "d \<in> set (b36_digits u) \<Longrightarrow> d < 36"
proof (induction u rule: b36_digits.induct)
  case (1 u)
  then show ?case by (cases "u < 36") (auto simp: b36_digits.simps [of u])
qed

lemma b36_digits_nonempty [simp]: "b36_digits u \<noteq> []"
  by (subst b36_digits.simps) simp

definition b36_eval :: "nat \<Rightarrow> nat list \<Rightarrow> nat" where
  "b36_eval acc ds = foldl (\<lambda>a d. a * 36 + d) acc ds"

lemma b36_eval_digits: "b36_eval 0 (b36_digits u) = u"
proof (induction u rule: b36_digits.induct)
  case (1 u)
  show ?case
  proof (cases "u < 36")
    case True
    then show ?thesis by (simp add: b36_digits.simps [of u] b36_eval_def)
  next
    case False
    with "1.IH" show ?thesis
      by (simp add: b36_digits.simps [of u] b36_eval_def)
  qed
qed

lemma strtol_digits_map:
  "(\<And>d. d \<in> set ds \<Longrightarrow> d < 36) \<Longrightarrow> strtol_digits acc (map b36_digit ds) = b36_eval acc ds"
  by (induction ds arbitrary: acc) (simp_all add: b36_eval_def)

lemma strtol36_digits:
  assumes "ds \<noteq> []" and "list_all (\<lambda>d. d < 36) ds"
  shows "strtol36 (map b36_digit ds) = min (2 ^ 63 - 1) (int (b36_eval 0 ds))"
proof -
  obtain d ds' where ds: "ds = d # ds'" using assms(1) by (cases ds) auto
  with assms(2) have d: "d < 36" by simp
  have "strtol_digits 0 (map b36_digit ds) = b36_eval 0 ds"
    using assms(2) by (auto intro: strtol_digits_map simp: list_all_iff)
  with d show ?thesis
    by (simp add: strtol36_def ds Let_def b36_digit_not_sign)
qed

lemma b36tol_ltob36: "b36tol (ltob36 i) = min (2 ^ 63 - 1) (uint i)"
  using strtol36_digits [of "b36_digits (unat i)"] b36_digits_small
  by (simp add: b36tol_def ltob36_digits b36_eval_digits list_all_iff)

text \<open>A non-negative \<open>long\<close> written in base 36 by \<open>ltob36\<close> is read back by \<open>b36tol\<close>; a
  negative one is written as the unsigned number of the same bits and reads back as the largest
  \<open>long\<close>.\<close>

theorem b36_roundtrip:
  "b36tol (ltob36 i) = (if 0 \<le> sint i then sint i else 2 ^ 63 - 1)"
proof -
  have u: "uint i = sint i mod 2 ^ 64" by (simp add: uint_sint take_bit_eq_mod)
  have r: "- (2 ^ 63) \<le> sint i" "sint i < 2 ^ 63" using sint_greater_eq [of i] sint_less [of i] by simp_all
  show ?thesis
  proof (cases "0 \<le> sint i")
    case True
    then show ?thesis using u r by (simp add: b36tol_ltob36)
  next
    case False
    then have "sint i mod 2 ^ 64 = sint i + 2 ^ 64"
      using r mod_pos_pos_trivial [of "sint i + 2 ^ 64" "2 ^ 64"] by simp
    then show ?thesis using False u r by (simp add: b36tol_ltob36)
  qed
qed

end
