(* ===== verification/Bozo_Error.thy ===== *)
theory Bozo_Error
  imports Bozo_Base36
begin

text \<open>
  \<open>error.h\<close> (and \<open>impl::result_error\<close> of \<open>impl/io.h\<close>): the error codes of the library, the
  SQL state enumeration with its base-36 numbering, the error categories with their
  \<open>equivalent\<close> predicates, and the error conditions (\<open>errc\<close>) the failover strategies test.
  Boost.System and Boost.Asio are not part of the sources: the codes \<open>boost::asio::error\<close>
  names, and whether a code matches the condition \<open>boost::system::errc::io_error\<close>, are the
  record \<open>sys_errors\<close>, an argument of every definition that uses them.
\<close>

section \<open>Library error codes\<close>

datatype error_enum =
    err_ok
  | pq_connection_start_failed
  | pq_socket_failed
  | pq_connection_status_bad
  | pq_connect_poll_failed
  | oid_type_mismatch
  | unexpected_eof
  | pg_send_query_params_failed
  | pg_consume_input_failed
  | pg_set_nonblocking_failed
  | pg_flush_failed
  | bad_result_process
  | no_sql_state_found
  | result_status_unexpected
  | result_status_empty_query
  | result_status_bad_response
  | oid_request_failed
  | bad_object_size
  | bad_array_size
  | bad_array_dimension
  | bad_composite_size
  | pq_cancel_failed
  | pq_get_cancel_failed

primrec error_value :: "error_enum \<Rightarrow> int" where
  "error_value err_ok = 0"
| "error_value pq_connection_start_failed = 1"
| "error_value pq_socket_failed = 2"
| "error_value pq_connection_status_bad = 3"
| "error_value pq_connect_poll_failed = 4"
| "error_value oid_type_mismatch = 5"
| "error_value unexpected_eof = 6"
| "error_value pg_send_query_params_failed = 7"
| "error_value pg_consume_input_failed = 8"
| "error_value pg_set_nonblocking_failed = 9"
| "error_value pg_flush_failed = 10"
| "error_value bad_result_process = 11"
| "error_value no_sql_state_found = 12"
| "error_value result_status_unexpected = 13"
| "error_value result_status_empty_query = 14"
| "error_value result_status_bad_response = 15"
| "error_value oid_request_failed = 16"
| "error_value bad_object_size = 17"
| "error_value bad_array_size = 18"
| "error_value bad_array_dimension = 19"
| "error_value bad_composite_size = 20"
| "error_value pq_cancel_failed = 21"
| "error_value pq_get_cancel_failed = 22"

primrec error_text :: "error_enum \<Rightarrow> string" where
  "error_text err_ok =
     ''no error''"
| "error_text pq_connection_start_failed =
     ''pq_connection_start_failed - PQConnectionStart function failed''"
| "error_text pq_socket_failed =
     ''pq_socket_failed - PQSocket returned -1 as fd - it seems like there is no connection''"
| "error_text pq_connection_status_bad =
     ''pq_connection_status_bad - PQstatus returned CONNECTION_BAD''"
| "error_text pq_connect_poll_failed =
     ''pq_connect_poll_failed - PQconnectPoll function failed''"
| "error_text oid_type_mismatch =
     ''no conversion possible from oid to user-supplied type''"
| "error_text unexpected_eof =
     ''unexpected EOF while data read''"
| "error_text pg_send_query_params_failed =
     ''pg_send_query_params_failed - PQsendQueryParams function failed''"
| "error_text pg_consume_input_failed =
     ''pg_consume_input_failed - PQconsumeInput function failed''"
| "error_text pg_set_nonblocking_failed =
     ''pg_set_nonblocking_failed - PQsetnonblocking function failed''"
| "error_text pg_flush_failed =
     ''pg_flush_failed - PQflush function failed''"
| "error_text bad_result_process =
     ''bad_result_process - error while processing or converting result from the database''"
| "error_text no_sql_state_found =
     ''no_sql_state_found - no sql state has been found in database query execution error reply''"
| "error_text result_status_unexpected =
     ''result_status_unexpected - got unexpected status from query result''"
| "error_text result_status_empty_query =
     ''result_status_empty_query - the string sent to the server was empty''"
| "error_text result_status_bad_response =
     ''result_status_bad_response - the server'' @ [CHR 0x27] @ ''s response was not understood''"
| "error_text oid_request_failed =
     ''error during request oids from a database''"
| "error_text bad_object_size =
     ''an object size received does not equal to the expected''"
| "error_text bad_array_size =
     ''an array size received does not equal to the expected or not supported by the type''"
| "error_text bad_array_dimension =
     ''an array dimension count received does not equal to the expected or not supported by the type''"
| "error_text bad_composite_size =
     ''a composite'' @ [CHR 0x27] @ ''s fields number received does not equal to the expected or not supported by the type''"
| "error_text pq_cancel_failed =
     ''libpq PQcancel function call failed''"
| "error_text pq_get_cancel_failed =
     ''libpq PQgetCancel function call failed''"

section \<open>SQL state classes\<close>

text \<open>The conditions that stand for a whole class in \<open>sqlstate::impl::category::equivalent\<close>.\<close>

definition sqlstate_class_conditions :: "(string \<times> int) list" where
  "sqlstate_class_conditions =
    [(''warning'', 46656),
     (''no_data'', 93312),
     (''sql_statement_not_yet_complete'', 139968),
     (''connection_exception'', 373248),
     (''triggered_action_exception'', 419904),
     (''feature_not_supported'', 466560),
     (''invalid_transaction_initiation'', 513216),
     (''locator_exception'', 699840),
     (''invalid_grantor'', 979776),
     (''invalid_role_specification'', 1166400),
     (''diagnostics_exception'', 1632960),
     (''case_not_found'', 3359232),
     (''cardinality_violation'', 3405888),
     (''data_exception'', 3452544),
     (''integrity_constraint_violation'', 3499200),
     (''invalid_cursor_state'', 3545856),
     (''invalid_transaction_state'', 3592512),
     (''invalid_sql_statement_name'', 3639168),
     (''triggered_data_change_violation'', 3685824),
     (''invalid_authorization_specification'', 3732480),
     (''dependent_privilege_descriptors_still_exist'', 3872448),
     (''invalid_transaction_termination'', 3965760),
     (''sql_routine_exception'', 4059072),
     (''invalid_cursor_name'', 5225472),
     (''external_routine_exception'', 5412096),
     (''external_routine_invocation_exception'', 5458752),
     (''savepoint_exception'', 5552064),
     (''invalid_catalog_name'', 5645376),
     (''invalid_schema_name'', 5738688),
     (''transaction_rollback'', 6718464),
     (''syntax_error_or_access_rule_violation'', 6811776),
     (''with_check_option_violation'', 6905088),
     (''insufficient_resources'', 8538048),
     (''program_limit_exceeded'', 8584704),
     (''object_not_in_prerequisite_state'', 8631360),
     (''operator_intervention'', 8724672),
     (''system_error'', 8771328),
     (''snapshot_too_old'', 11850624),
     (''config_file_error'', 25194240),
     (''fdw_error'', 29999808),
     (''plpgsql_error'', 41990400),
     (''internal_error'', 56966976)]"

section \<open>Error codes, categories and conditions\<close>

text \<open>\<open>error_code\<close> and \<open>error_condition\<close> are a value and a category. The categories are the
  three of \<open>error.h\<close> and, for every other one, an opaque name.\<close>

datatype category = Error_category | Sqlstate_category | Errc_category | Foreign_category string

record error_code =
  ec_value :: int
  ec_category :: category

datatype errc_enum =
  errc_ok | connection_error | database_readonly | introspection_error | type_mismatch | protocol_error

primrec errc_value :: "errc_enum \<Rightarrow> int" where
  "errc_value errc_ok = 0"
| "errc_value connection_error = 1"
| "errc_value database_readonly = 2"
| "errc_value introspection_error = 3"
| "errc_value type_mismatch = 4"
| "errc_value protocol_error = 5"

primrec errc_message :: "errc_enum \<Rightarrow> string" where
  "errc_message errc_ok = ''no error''"
| "errc_message connection_error = ''communication error''"
| "errc_message database_readonly = ''database in read-only state''"
| "errc_message introspection_error = ''serialization/deserialization related error''"
| "errc_message type_mismatch = ''expected type mismatch received type''"
| "errc_message protocol_error = ''protocol-related error''"

definition make_error_code :: "error_enum \<Rightarrow> error_code" where
  "make_error_code e = \<lparr>ec_value = error_value e, ec_category = Error_category\<rparr>"

definition sqlstate_make_error_code :: "int \<Rightarrow> error_code" where
  "sqlstate_make_error_code e = \<lparr>ec_value = e, ec_category = Sqlstate_category\<rparr>"

definition no_error :: error_code where
  "no_error = \<lparr>ec_value = 0, ec_category = Foreign_category ''system''\<rparr>"

text \<open>\<open>explicit operator bool\<close> of an error code: its value is not zero.\<close>

definition is_error :: "error_code \<Rightarrow> bool" where
  "is_error ec \<longleftrightarrow> ec_value ec \<noteq> 0"

text \<open>\<open>impl::result_error\<close>: the SQL state text of a failed result, \<open>None\<close> when libpq has none;
  the \<open>long\<close> that \<open>strtol\<close> returns is converted to \<open>int\<close>.\<close>

definition result_error :: "string option \<Rightarrow> error_code" where
  "result_error s =
     (case s of Some t \<Rightarrow> sqlstate_make_error_code (to_int32 (strtol36 t))
      | None \<Rightarrow> make_error_code no_sql_state_found)"

definition class_width :: int where
  "class_width = 46656"

definition sqlstate_equivalent :: "error_code \<Rightarrow> int \<Rightarrow> bool" where
  "sqlstate_equivalent code condition =
     (if ec_category code = Sqlstate_category \<and> condition \<in> set (map snd sqlstate_class_conditions)
      then condition \<le> ec_value code \<and> ec_value code < condition + class_width
      else ec_category code = Sqlstate_category \<and> ec_value code = condition)"

text \<open>\<open>error_code == error_condition\<close> for a SQL state condition: either category decides.
  The category of the code compares its default condition with the condition.\<close>

definition eq_sqlstate_condition :: "error_code \<Rightarrow> int \<Rightarrow> bool" where
  "eq_sqlstate_condition ec condition \<longleftrightarrow>
     (ec_category ec = Sqlstate_category \<and> ec_value ec = condition) \<or> sqlstate_equivalent ec condition"

datatype asio_error =
  broken_pipe | connection_aborted | connection_refused | connection_reset | fault
| host_unreachable | interrupted | network_reset | not_connected | operation_aborted
| shut_down | timed_out | try_again | host_not_found | host_not_found_try_again
| asio_no_data | no_recovery | bad_descriptor

record sys_errors =
  asio_code :: "asio_error \<Rightarrow> error_code"
  matches_io_error :: "error_code \<Rightarrow> bool"

text \<open>The members of the \<open>codes_for_condition\<close> tuples.\<close>

datatype match_item =
    Match_sqlstate int
  | Match_asio asio_error
  | Match_io_error
  | Match_error error_enum

fun codes_for_condition :: "errc_enum \<Rightarrow> match_item list" where
  "codes_for_condition connection_error =
     Match_sqlstate 373248 #
     map Match_asio
       [broken_pipe, connection_aborted, connection_refused, connection_reset, fault,
        host_unreachable, interrupted, network_reset, not_connected, operation_aborted,
        shut_down, timed_out, try_again,
        host_not_found, host_not_found_try_again, asio_no_data, no_recovery] @
     Match_io_error #
     map Match_error
       [pq_connection_start_failed, pq_socket_failed, pq_connection_status_bad,
        pq_connect_poll_failed, pg_send_query_params_failed, pg_consume_input_failed,
        pg_set_nonblocking_failed, pg_flush_failed]"
| "codes_for_condition database_readonly = [Match_sqlstate 3592518]"
| "codes_for_condition introspection_error =
     map Match_error
       [bad_result_process, bad_object_size, bad_array_size, bad_array_dimension,
        bad_composite_size, unexpected_eof]"
| "codes_for_condition type_mismatch = [Match_error oid_type_mismatch]"
| "codes_for_condition protocol_error =
     map Match_error
       [no_sql_state_found, result_status_unexpected, result_status_empty_query,
        result_status_bad_response, oid_request_failed]"
| "codes_for_condition errc_ok = []"

primrec matches_item :: "sys_errors \<Rightarrow> error_code \<Rightarrow> match_item \<Rightarrow> bool" where
  "matches_item sys ec (Match_sqlstate c) = eq_sqlstate_condition ec c"
| "matches_item sys ec (Match_asio a) = (ec = asio_code sys a)"
| "matches_item sys ec Match_io_error = matches_io_error sys ec"
| "matches_item sys ec (Match_error e) = (ec = make_error_code e)"

definition match_code_items :: "sys_errors \<Rightarrow> match_item list \<Rightarrow> error_code \<Rightarrow> bool" where
  "match_code_items sys items ec = list_ex (matches_item sys ec) items"

fun errc_equivalent :: "sys_errors \<Rightarrow> error_code \<Rightarrow> errc_enum \<Rightarrow> bool" where
  "errc_equivalent sys code errc_ok = (code = no_error)"
| "errc_equivalent sys code c = match_code_items sys (codes_for_condition c) code"

definition eq_condition :: "sys_errors \<Rightarrow> error_code \<Rightarrow> errc_enum \<Rightarrow> bool" where
  "eq_condition sys ec c \<longleftrightarrow>
     (ec_category ec = Errc_category \<and> ec_value ec = errc_value c) \<or> errc_equivalent sys ec c"

definition match_code :: "sys_errors \<Rightarrow> errc_enum list \<Rightarrow> error_code \<Rightarrow> bool" where
  "match_code sys conditions ec = list_ex (eq_condition sys ec) conditions"

text \<open>What the code relies on of Boost: the codes it names, and the codes that match
  \<open>io_error\<close>, belong to categories of Boost, and none of them is the success code.\<close>

definition sys_errors_ok :: "sys_errors \<Rightarrow> bool" where
  "sys_errors_ok sys \<longleftrightarrow>
     (\<forall>a. (\<exists>n. ec_category (asio_code sys a) = Foreign_category n) \<and> is_error (asio_code sys a)) \<and>
     (\<forall>ec. matches_io_error sys ec \<longrightarrow> (\<exists>n. ec_category ec = Foreign_category n) \<and> is_error ec)"


section \<open>Base-36 texts\<close>

lemma b36_value_chars [simp]:
  "b36_value CHR ''0'' = Some 0" "b36_value CHR ''1'' = Some 1" "b36_value CHR ''2'' = Some 2"
  "b36_value CHR ''3'' = Some 3" "b36_value CHR ''4'' = Some 4" "b36_value CHR ''5'' = Some 5"
  "b36_value CHR ''6'' = Some 6" "b36_value CHR ''7'' = Some 7" "b36_value CHR ''8'' = Some 8"
  "b36_value CHR ''9'' = Some 9" "b36_value CHR ''A'' = Some 10" "b36_value CHR ''B'' = Some 11"
  "b36_value CHR ''C'' = Some 12" "b36_value CHR ''D'' = Some 13" "b36_value CHR ''E'' = Some 14"
  "b36_value CHR ''F'' = Some 15" "b36_value CHR ''G'' = Some 16" "b36_value CHR ''H'' = Some 17"
  "b36_value CHR ''J'' = Some 19" "b36_value CHR ''K'' = Some 20" "b36_value CHR ''L'' = Some 21"
  "b36_value CHR ''M'' = Some 22" "b36_value CHR ''N'' = Some 23" "b36_value CHR ''P'' = Some 25"
  "b36_value CHR ''Q'' = Some 26" "b36_value CHR ''R'' = Some 27" "b36_value CHR ''S'' = Some 28"
  "b36_value CHR ''T'' = Some 29" "b36_value CHR ''V'' = Some 31" "b36_value CHR ''W'' = Some 32"
  "b36_value CHR ''X'' = Some 33" "b36_value CHR ''Z'' = Some 35"
  by (simp_all add: b36_value_def)

text \<open>On a text that starts with a base-36 digit the sign and white space rules play no part.\<close>

lemma b36tol_digit_start:
  assumes "b36_value c = Some d"
  shows "b36tol (c # cs) = min (2 ^ 63 - 1) (int (strtol_digits d cs))"
proof -
  have "\<not> is_space c" "c \<noteq> CHR ''-''" "c \<noteq> CHR ''+''"
    using assms by (auto simp: b36_value_def is_space_def Let_def split: if_splits)
  then show ?thesis using assms by (simp add: b36tol_def strtol36_def Let_def)
qed

section \<open>SQL state classes and error conditions\<close>

lemma sqlstate_class_aligned:
  "c \<in> set (map snd sqlstate_class_conditions) \<Longrightarrow> 0 < c \<and> c mod 46656 = 0"
  by (auto simp: sqlstate_class_conditions_def)

lemma aligned_block:
  assumes "0 \<le> v" and "c mod w = 0" and "0 < w"
  shows "c \<le> v \<and> v < c + w \<longleftrightarrow> v div w = c div (w :: int)"
proof -
  obtain k where c: "c = w * k" using assms(2) by auto
  with assms(3) have "c div w = k" by simp
  moreover have "v div w = k \<longleftrightarrow> w * k \<le> v \<and> v < w * k + w"
  proof
    assume "v div w = k"
    then have "v = w * k + v mod w" by (metis mult_div_mod_eq)
    with assms(3) show "w * k \<le> v \<and> v < w * k + w"
      using pos_mod_sign [of w v] pos_mod_bound [of w v] by linarith
  next
    assume "w * k \<le> v \<and> v < w * k + w"
    then have "v = w * k + (v - w * k)" "0 \<le> v - w * k" "v - w * k < w" by linarith+
    then show "v div w = k" by (metis int_div_pos_eq)
  qed
  ultimately show ?thesis using c by simp
qed

lemma eq_sqlstate_class:
  assumes "c \<in> set (map snd sqlstate_class_conditions)" and "0 \<le> v"
  shows "eq_sqlstate_condition (sqlstate_make_error_code v) c \<longleftrightarrow> v div 46656 = c div 46656"
proof -
  have c: "c mod 46656 = 0" using sqlstate_class_aligned [OF assms(1)] by simp
  have "c \<le> v \<and> v < c + 46656 \<longleftrightarrow> v div 46656 = c div 46656"
    by (rule aligned_block [OF assms(2) c]) simp
  then show ?thesis
    using assms(1) by (auto simp: eq_sqlstate_condition_def sqlstate_equivalent_def
        sqlstate_make_error_code_def class_width_def)
qed

text \<open>The class of a SQL state text of five base-36 digits is read off its first two.\<close>

lemma b36tol_five:
  assumes "d1 < 36" "d2 < 36" "d3 < 36" "d4 < 36" "d5 < 36"
  shows "strtol36 (map b36_digit [d1, d2, d3, d4, d5]) =
           ((((int d1 * 36 + int d2) * 36 + int d3) * 36 + int d4) * 36 + int d5)"
    and "strtol36 (map b36_digit [d1, d2] @ ''000'') = (int d1 * 36 + int d2) * 46656"
proof -
  have z: "map b36_digit [d1, d2] @ ''000'' = map b36_digit [d1, d2, 0, 0, 0]"
    by simp
  have i: "int d1 \<le> 35" "int d2 \<le> 35" "int d3 \<le> 35" "int d4 \<le> 35" "int d5 \<le> 35"
    using assms by simp_all
  have b: "((((int d1 * 36 + int d2) * 36 + int d3) * 36 + int d4) * 36 + int d5) < 60466176"
    using i by (simp add: ring_distribs)
  have b': "(int d1 * 36 + int d2) * 46656 < 60466176" using i by (simp add: ring_distribs)
  show "strtol36 (map b36_digit [d1, d2, d3, d4, d5]) =
           ((((int d1 * 36 + int d2) * 36 + int d3) * 36 + int d4) * 36 + int d5)"
    using strtol36_digits [of "[d1, d2, d3, d4, d5]"] assms b by (simp add: b36_eval_def)
  show "strtol36 (map b36_digit [d1, d2] @ ''000'') = (int d1 * 36 + int d2) * 46656"
    unfolding z using strtol36_digits [of "[d1, d2, 0, 0, 0]"] assms b' by (simp add: b36_eval_def)
qed

text \<open>The error code made from the five-character SQL state of a failed result matches a
  class condition exactly when the first two characters of the state, completed by
  \<open>000\<close>, are the state of that class.\<close>

theorem result_error_class:
  assumes "t = map b36_digit ds" and "length ds = 5" and "\<forall>d \<in> set ds. d < 36"
    and "(n, c) \<in> set sqlstate_class_conditions"
  shows "eq_sqlstate_condition (result_error (Some t)) c \<longleftrightarrow> b36tol (take 2 t @ ''000'') = c"
proof -
  obtain d1 d2 d3 d4 d5 where ds: "ds = [d1, d2, d3, d4, d5]"
    using assms(2) by (auto simp: length_Suc_conv numeral_eq_Suc)
  with assms(3) have d: "d1 < 36" "d2 < 36" "d3 < 36" "d4 < 36" "d5 < 36" by auto
  let ?h = "int d1 * 36 + int d2" and ?r = "(int d3 * 36 + int d4) * 36 + int d5"
  let ?v = "(((?h * 36 + int d3) * 36 + int d4) * 36 + int d5)"
  have t: "strtol36 t = ?v" and p: "b36tol (take 2 t @ ''000'') = ?h * 46656"
    using b36tol_five [OF d] by (simp_all add: assms(1) ds b36tol_def)
  have v: "?v = ?h * 46656 + ?r" "0 \<le> ?r" "?r < 46656" "0 \<le> ?v" "?v < 2 ^ 31"
    using d by simp_all
  have mem: "c \<in> set (map snd sqlstate_class_conditions)" using assms(4) by force
  then have c: "c mod 46656 = 0" using sqlstate_class_aligned by blast
  have "?v div 46656 = ?h" using v(1-3) by simp
  moreover have "?h = c div 46656 \<longleftrightarrow> ?h * 46656 = c" using c by auto
  ultimately have "eq_sqlstate_condition (sqlstate_make_error_code ?v) c \<longleftrightarrow> ?h * 46656 = c"
    using eq_sqlstate_class [OF mem v(4)] by simp
  then show ?thesis using v(4,5) by (simp add: result_error_def t p)
qed

theorem result_error_class_witness:
  "eq_sqlstate_condition (result_error (Some ''08003'')) 373248"
proof -
  have t: "''08003'' = map b36_digit [0, 8, 0, 0, 3]"
    by simp
  have "(''connection_exception'', 373248) \<in> set sqlstate_class_conditions"
    by (simp add: sqlstate_class_conditions_def)
  from result_error_class [OF t _ _ this] show ?thesis
    by (simp add: b36tol_digit_start)
qed

lemma make_error_code_inj: "make_error_code a = make_error_code b \<longleftrightarrow> a = b"
  by (cases a; cases b) (simp_all add: make_error_code_def)

lemma eq_condition_library:
  assumes "sys_errors_ok sys" and "c \<noteq> errc_ok"
  shows "eq_condition sys (make_error_code e) c \<longleftrightarrow> Match_error e \<in> set (codes_for_condition c)"
proof -
  have asio: "make_error_code e \<noteq> asio_code sys a" for a
    using assms(1) by (auto simp: sys_errors_ok_def make_error_code_def) (metis category.distinct(5) error_code.select_convs(2))
  have io: "\<not> matches_io_error sys (make_error_code e)"
    using assms(1) by (auto simp: sys_errors_ok_def make_error_code_def)
  have sql: "\<not> eq_sqlstate_condition (make_error_code e) v" for v
    by (simp add: eq_sqlstate_condition_def sqlstate_equivalent_def make_error_code_def)
  have errc: "ec_category (make_error_code e) \<noteq> Errc_category" by (simp add: make_error_code_def)
  show ?thesis
    using assms(2) asio io sql errc
    by (cases c) (auto simp: eq_condition_def match_code_items_def make_error_code_inj)
qed

text \<open>Every error of the library falls under at most one error condition, so that a list of
  conditions given to a failover strategy selects disjoint sets of library errors.\<close>

theorem errc_partition:
  assumes "sys_errors_ok sys" and "c1 \<noteq> errc_ok" and "c2 \<noteq> errc_ok"
    and "eq_condition sys (make_error_code e) c1" and "eq_condition sys (make_error_code e) c2"
  shows "c1 = c2"
proof -
  from assms have "Match_error e \<in> set (codes_for_condition c1)" "Match_error e \<in> set (codes_for_condition c2)"
    using eq_condition_library by blast+
  then show ?thesis using assms(2,3) by (cases c1; cases c2) auto
qed

definition sample_sys :: sys_errors where
  "sample_sys = \<lparr>asio_code = (\<lambda>a. \<lparr>ec_value = 1, ec_category = Foreign_category ''system''\<rparr>),
     matches_io_error = (\<lambda>ec. ec = \<lparr>ec_value = 5, ec_category = Foreign_category ''system''\<rparr>)\<rparr>"

lemma sample_sys_ok: "sys_errors_ok sample_sys"
  by (simp add: sys_errors_ok_def sample_sys_def is_error_def)

theorem errc_partition_witness:
  "eq_condition sample_sys (make_error_code pq_socket_failed) connection_error \<and>
   \<not> eq_condition sample_sys (make_error_code pq_socket_failed) protocol_error"
proof
  show *: "eq_condition sample_sys (make_error_code pq_socket_failed) connection_error"
    using eq_condition_library [OF sample_sys_ok, of connection_error] by simp
  show "\<not> eq_condition sample_sys (make_error_code pq_socket_failed) protocol_error"
    using errc_partition [OF sample_sys_ok _ _ *, of protocol_error] by auto
qed

end
