(* ===== verification/Bozo_Sqlstate.thy ===== *)
theory Bozo_Sqlstate
  imports Bozo_Error
begin

text \<open>
  The enumeration \<open>sqlstate::code\<close> of \<open>error.h\<close> as a table, the texts of
  \<open>sqlstate::category().message\<close>, and the facts that tie the numbers of the table to the SQL
  states the comments of the source name.
\<close>

section \<open>SQL states\<close>

text \<open>The enumerators of \<open>sqlstate::code\<close> with their values, in the order of the source, in
  two halves; and the SQL state each enumerator's comment gives (a class comment
  \<open>Class XY\<close> stands for the state \<open>XY000\<close>).\<close>

definition sqlstate_code_a :: "(string \<times> int) list" where
  "sqlstate_code_a =
    [(''successful_completion'', 0),
     (''warning'', 46656),
     (''dynamic_result_sets_returned'', 46668),
     (''implicit_zero_bit_padding'', 46664),
     (''null_value_eliminated_in_set_function'', 46659),
     (''privilege_not_granted'', 46663),
     (''privilege_not_revoked'', 46662),
     (''string_data_right_truncation_warning'', 46660),
     (''deprecated_feature'', 79057),
     (''no_data'', 93312),
     (''no_additional_dynamic_result_sets_returned'', 93313),
     (''sql_statement_not_yet_complete'', 139968),
     (''connection_exception'', 373248),
     (''connection_does_not_exist'', 373251),
     (''connection_failure'', 373254),
     (''sqlclient_unable_to_establish_sqlconnection'', 373249),
     (''sqlserver_rejected_establishment_of_sqlconnection'', 373252),
     (''transaction_resolution_unknown'', 373255),
     (''protocol_violation'', 405649),
     (''triggered_action_exception'', 419904),
     (''feature_not_supported'', 466560),
     (''invalid_transaction_initiation'', 513216),
     (''locator_exception'', 699840),
     (''invalid_locator_specification'', 699841),
     (''invalid_grantor'', 979776),
     (''invalid_grant_operation'', 1012177),
     (''invalid_role_specification'', 1166400),
     (''diagnostics_exception'', 1632960),
     (''stacked_diagnostics_accessed_without_active_handler'', 1632962),
     (''case_not_found'', 3359232),
     (''cardinality_violation'', 3405888),
     (''data_exception'', 3452544),
     (''array_subscript_error'', 3452630),
     (''character_not_in_repertoire'', 3452617),
     (''datetime_field_overflow'', 3452552),
     (''division_by_zero'', 3452582),
     (''error_in_assignment'', 3452549),
     (''escape_character_conflict'', 3452555),
     (''indicator_overflow'', 3452618),
     (''interval_field_overflow'', 3452585),
     (''invalid_argument_for_logarithm'', 3452594),
     (''invalid_argument_for_ntile_function'', 3452584),
     (''invalid_argument_for_nth_value_function'', 3452586),
     (''invalid_argument_for_power_function'', 3452595),
     (''invalid_argument_for_width_bucket_function'', 3452596),
     (''invalid_character_value_for_cast'', 3452588),
     (''invalid_datetime_format'', 3452551),
     (''invalid_escape_character'', 3452589),
     (''invalid_escape_octet'', 3452557),
     (''invalid_escape_sequence'', 3452621),
     (''nonstandard_use_of_escape_character'', 3484950),
     (''invalid_indicator_parameter_value'', 3452580),
     (''invalid_parameter_value'', 3452619),
     (''invalid_regular_expression'', 3452591),
     (''invalid_row_count_in_limit_clause'', 3452612),
     (''invalid_row_count_in_result_offset_clause'', 3452613),
     (''invalid_time_zone_displacement_value'', 3452553),
     (''invalid_use_of_escape_character'', 3452556),
     (''most_specific_type_mismatch'', 3452560),
     (''null_value_not_allowed'', 3452548),
     (''null_value_no_indicator_parameter'', 3452546),
     (''numeric_value_out_of_range'', 3452547),
     (''string_data_length_mismatch'', 3452622),
     (''string_data_right_truncation'', 3452545),
     (''substring_error'', 3452581),
     (''trim_error'', 3452623),
     (''unterminated_c_string'', 3452620),
     (''zero_length_character_string'', 3452559),
     (''floating_point_exception'', 3484945),
     (''invalid_text_representation'', 3484946),
     (''invalid_binary_representation'', 3484947),
     (''bad_copy_file_format'', 3484948),
     (''untranslatable_character'', 3484949),
     (''not_an_xml_document'', 3452565),
     (''invalid_xml_document'', 3452566),
     (''invalid_xml_content'', 3452567),
     (''invalid_xml_comment'', 3452572),
     (''invalid_xml_processing_instruction'', 3452573),
     (''integrity_constraint_violation'', 3499200),
     (''restrict_violation'', 3499201),
     (''not_null_violation'', 3505682),
     (''foreign_key_violation'', 3505683),
     (''unique_violation'', 3505685),
     (''check_violation'', 3505720),
     (''exclusion_violation'', 3531601),
     (''invalid_cursor_state'', 3545856),
     (''invalid_transaction_state'', 3592512),
     (''active_sql_transaction'', 3592513),
     (''branch_transaction_already_active'', 3592514),
     (''held_cursor_requires_same_isolation_level'', 3592520),
     (''inappropriate_access_mode_for_branch_transaction'', 3592515),
     (''inappropriate_isolation_level_for_branch_transaction'', 3592516),
     (''no_active_sql_transaction_for_branch_transaction'', 3592517),
     (''read_only_sql_transaction'', 3592518),
     (''schema_and_data_statement_mixing_not_supported'', 3592519),
     (''no_active_sql_transaction'', 3624913),
     (''in_failed_sql_transaction'', 3624914),
     (''invalid_sql_statement_name'', 3639168),
     (''triggered_data_change_violation'', 3685824),
     (''invalid_authorization_specification'', 3732480),
     (''invalid_password'', 3764881),
     (''dependent_privilege_descriptors_still_exist'', 3872448),
     (''dependent_objects_still_exist'', 3904849),
     (''invalid_transaction_termination'', 3965760),
     (''sql_routine_exception'', 4059072),
     (''function_executed_no_return_statement'', 4059077),
     (''modifying_sql_data_not_permitted'', 4059074),
     (''prohibited_sql_statement_attempted'', 4059075),
     (''reading_sql_data_not_permitted'', 4059076),
     (''invalid_cursor_name'', 5225472),
     (''external_routine_exception'', 5412096),
     (''containing_sql_not_permitted'', 5412097),
     (''modifying_sql_data_not_permitted_external'', 5412098),
     (''prohibited_sql_statement_attempted_external'', 5412099),
     (''reading_sql_data_not_permitted_external'', 5412100),
     (''external_routine_invocation_exception'', 5458752)]"

definition sqlstate_code_b :: "(string \<times> int) list" where
  "sqlstate_code_b =
    [(''invalid_sqlstate_returned'', 5458753),
     (''null_value_not_allowed_external'', 5458756),
     (''trigger_protocol_violated'', 5491153),
     (''srf_protocol_violated'', 5491154),
     (''savepoint_exception'', 5552064),
     (''invalid_savepoint_specification'', 5552065),
     (''invalid_catalog_name'', 5645376),
     (''invalid_schema_name'', 5738688),
     (''transaction_rollback'', 6718464),
     (''transaction_integrity_constraint_violation'', 6718466),
     (''serialization_failure'', 6718465),
     (''statement_completion_unknown'', 6718467),
     (''deadlock_detected'', 6750865),
     (''syntax_error_or_access_rule_violation'', 6811776),
     (''syntax_error'', 6819553),
     (''insufficient_privilege'', 6818257),
     (''cannot_coerce'', 6822294),
     (''grouping_error'', 6822147),
     (''windowing_error'', 6844248),
     (''invalid_recursion'', 6844221),
     (''invalid_foreign_key'', 6822252),
     (''invalid_name'', 6819554),
     (''name_too_long'', 6819626),
     (''reserved_name'', 6823557),
     (''datatype_mismatch'', 6822148),
     (''indeterminate_datatype'', 6844220),
     (''collation_mismatch'', 6844249),
     (''indeterminate_collation'', 6844250),
     (''wrong_object_type'', 6822153),
     (''undefined_column'', 6820851),
     (''undefined_function'', 6822435),
     (''undefined_table'', 6844177),
     (''undefined_parameter'', 6844178),
     (''undefined_object'', 6820852),
     (''duplicate_column'', 6820849),
     (''duplicate_cursor'', 6844179),
     (''duplicate_database'', 6844180),
     (''duplicate_function'', 6820923),
     (''duplicate_prepared_statement'', 6844181),
     (''duplicate_schema'', 6844182),
     (''duplicate_table'', 6844183),
     (''duplicate_alias'', 6820886),
     (''duplicate_object'', 6820884),
     (''ambiguous_column'', 6820850),
     (''ambiguous_function'', 6820925),
     (''ambiguous_parameter'', 6844184),
     (''ambiguous_alias'', 6844185),
     (''invalid_column_reference'', 6844212),
     (''invalid_column_definition'', 6819589),
     (''invalid_cursor_definition'', 6844213),
     (''invalid_database_definition'', 6844214),
     (''invalid_function_definition'', 6844215),
     (''invalid_prepared_statement_definition'', 6844216),
     (''invalid_schema_definition'', 6844217),
     (''invalid_table_definition'', 6844218),
     (''invalid_object_definition'', 6844219),
     (''with_check_option_violation'', 6905088),
     (''insufficient_resources'', 8538048),
     (''disk_full'', 8539344),
     (''out_of_memory'', 8540640),
     (''too_many_connections'', 8541936),
     (''configuration_limit_exceeded'', 8543232),
     (''program_limit_exceeded'', 8584704),
     (''statement_too_complex'', 8584705),
     (''too_many_columns'', 8584741),
     (''too_many_arguments'', 8584779),
     (''object_not_in_prerequisite_state'', 8631360),
     (''object_in_use'', 8631366),
     (''cant_change_runtime_param'', 8663762),
     (''lock_not_available'', 8663763),
     (''operator_intervention'', 8724672),
     (''query_canceled'', 8724712),
     (''admin_shutdown'', 8757073),
     (''crash_shutdown'', 8757074),
     (''cannot_connect_now'', 8757075),
     (''database_dropped'', 8757076),
     (''system_error'', 8771328),
     (''io_error'', 8771436),
     (''undefined_file'', 8803729),
     (''duplicate_file'', 8803730),
     (''snapshot_too_old'', 11850624),
     (''config_file_error'', 25194240),
     (''lock_file_exists'', 25194241),
     (''fdw_error'', 29999808),
     (''fdw_column_name_not_found'', 29999813),
     (''fdw_dynamic_parameter_value_needed'', 29999810),
     (''fdw_function_sequence_error'', 29999844),
     (''fdw_inconsistent_descriptor_information'', 29999881),
     (''fdw_invalid_attribute_value'', 29999884),
     (''fdw_invalid_column_name'', 29999815),
     (''fdw_invalid_column_number'', 29999816),
     (''fdw_invalid_data_type'', 29999812),
     (''fdw_invalid_data_type_descriptors'', 29999814),
     (''fdw_invalid_descriptor_field_identifier'', 30000133),
     (''fdw_invalid_handle'', 29999819),
     (''fdw_invalid_option_index'', 29999820),
     (''fdw_invalid_option_name'', 29999821),
     (''fdw_invalid_string_length_or_buffer_length'', 30000132),
     (''fdw_invalid_string_format'', 29999818),
     (''fdw_invalid_use_of_null_pointer'', 29999817),
     (''fdw_too_many_handles'', 29999848),
     (''fdw_out_of_memory'', 29999809),
     (''fdw_no_schemas'', 29999833),
     (''fdw_option_name_not_found'', 29999827),
     (''fdw_reply_handle'', 29999828),
     (''fdw_schema_not_found'', 29999834),
     (''fdw_table_not_found'', 29999835),
     (''fdw_unable_to_create_execution'', 29999829),
     (''fdw_unable_to_create_reply'', 29999830),
     (''fdw_unable_to_establish_connection'', 29999831),
     (''plpgsql_error'', 41990400),
     (''raise_exception'', 41990401),
     (''no_data_found'', 41990402),
     (''too_many_rows'', 41990403),
     (''internal_error'', 56966976),
     (''data_corrupted'', 56966977),
     (''index_corrupted'', 56966978)]"

definition sqlstate_code :: "(string \<times> int) list" where
  "sqlstate_code = sqlstate_code_a @ sqlstate_code_b"

definition sqlstate_doc_a :: "string list" where
  "sqlstate_doc_a =
    [''00000'', ''01000'', ''0100C'', ''01008'', ''01003'', ''01007'', ''01006'', 
     ''01004'', ''01P01'', ''02000'', ''02001'', ''03000'', ''08000'', ''08003'', 
     ''08006'', ''08001'', ''08004'', ''08007'', ''08P01'', ''09000'', ''0A000'', 
     ''0B000'', ''0F000'', ''0F001'', ''0L000'', ''0LP01'', ''0P000'', ''0Z000'', 
     ''0Z002'', ''20000'', ''21000'', ''22000'', ''2202E'', ''22021'', ''22008'', 
     ''22012'', ''22005'', ''2200B'', ''22022'', ''22015'', ''2201E'', ''22014'', 
     ''22016'', ''2201F'', ''2201G'', ''22018'', ''22007'', ''22019'', ''2200D'', 
     ''22025'', ''22P06'', ''22010'', ''22023'', ''2201B'', ''2201W'', ''2201X'', 
     ''22009'', ''2200C'', ''2200G'', ''22004'', ''22002'', ''22003'', ''22026'', 
     ''22001'', ''22011'', ''22027'', ''22024'', ''2200F'', ''22P01'', ''22P02'', 
     ''22P03'', ''22P04'', ''22P05'', ''2200L'', ''2200M'', ''2200N'', ''2200S'', 
     ''2200T'', ''23000'', ''23001'', ''23502'', ''23503'', ''23505'', ''23514'', 
     ''23P01'', ''24000'', ''25000'', ''25001'', ''25002'', ''25008'', ''25003'', 
     ''25004'', ''25005'', ''25006'', ''25007'', ''25P01'', ''25P02'', ''26000'', 
     ''27000'', ''28000'', ''28P01'', ''2B000'', ''2BP01'', ''2D000'', ''2F000'', 
     ''2F005'', ''2F002'', ''2F003'', ''2F004'', ''34000'', ''38000'', ''38001'', 
     ''38002'', ''38003'', ''38004'', ''39000'']"

definition sqlstate_doc_b :: "string list" where
  "sqlstate_doc_b =
    [''39001'', ''39004'', ''39P01'', ''39P02'', ''3B000'', ''3B001'', ''3D000'', 
     ''3F000'', ''40000'', ''40002'', ''40001'', ''40003'', ''40P01'', ''42000'', 
     ''42601'', ''42501'', ''42846'', ''42803'', ''42P20'', ''42P19'', ''42830'', 
     ''42602'', ''42622'', ''42939'', ''42804'', ''42P18'', ''42P21'', ''42P22'', 
     ''42809'', ''42703'', ''42883'', ''42P01'', ''42P02'', ''42704'', ''42701'', 
     ''42P03'', ''42P04'', ''42723'', ''42P05'', ''42P06'', ''42P07'', ''42712'', 
     ''42710'', ''42702'', ''42725'', ''42P08'', ''42P09'', ''42P10'', ''42611'', 
     ''42P11'', ''42P12'', ''42P13'', ''42P14'', ''42P15'', ''42P16'', ''42P17'', 
     ''44000'', ''53000'', ''53100'', ''53200'', ''53300'', ''53400'', ''54000'', 
     ''54001'', ''54011'', ''54023'', ''55000'', ''55006'', ''55P02'', ''55P03'', 
     ''57000'', ''57014'', ''57P01'', ''57P02'', ''57P03'', ''57P04'', ''58000'', 
     ''58030'', ''58P01'', ''58P02'', ''72000'', ''F0000'', ''F0001'', ''HV000'', 
     ''HV005'', ''HV002'', ''HV010'', ''HV021'', ''HV024'', ''HV007'', ''HV008'', 
     ''HV004'', ''HV006'', ''HV091'', ''HV00B'', ''HV00C'', ''HV00D'', ''HV090'', 
     ''HV00A'', ''HV009'', ''HV014'', ''HV001'', ''HV00P'', ''HV00J'', ''HV00K'', 
     ''HV00Q'', ''HV00R'', ''HV00L'', ''HV00M'', ''HV00N'', ''P0000'', ''P0001'', 
     ''P0002'', ''P0003'', ''XX000'', ''XX001'', ''XX002'']"

text \<open>The cases of the switch of \<open>message\<close>: every enumerator but \<open>snapshot_too_old\<close>.\<close>

definition sqlstate_message_cases_a :: "(string \<times> int) list" where
  "sqlstate_message_cases_a = sqlstate_code_a"

definition sqlstate_message_cases_b :: "(string \<times> int) list" where
  "sqlstate_message_cases_b = filter (\<lambda>(n, v). n \<noteq> ''snapshot_too_old'') sqlstate_code_b"

definition sqlstate_message :: "int \<Rightarrow> string" where
  "sqlstate_message v =
     (case find (\<lambda>(n, c). c = v) (sqlstate_message_cases_a @ sqlstate_message_cases_b) of
        Some (n, c) \<Rightarrow> n @ ''('' @ ltob36 (word_of_int v) @ '')''
      | None \<Rightarrow> ''sql state '' @ ltob36 (word_of_int v))"

section \<open>The SQL state table\<close>

lemma sqlstate_doc_a_values: "map b36tol sqlstate_doc_a = map snd sqlstate_code_a"
  by (simp add: sqlstate_doc_a_def sqlstate_code_a_def b36tol_digit_start)

lemma sqlstate_doc_b_values: "map b36tol sqlstate_doc_b = map snd sqlstate_code_b"
  by (simp add: sqlstate_doc_b_def sqlstate_code_b_def b36tol_digit_start)

lemma distinct_by_sorting: "sorted_wrt (<) (sort xs) \<Longrightarrow> distinct xs"
  by (metis strict_sorted_iff distinct_sort)

lemma strictly_sorted_Cons2: "sorted_wrt (<) (x # y # zs) \<longleftrightarrow> (x :: int) < y \<and> sorted_wrt (<) (y # zs)"
  by (auto intro: less_trans)

lemma sqlstate_code_distinct: "distinct (map snd sqlstate_code)"
proof (rule distinct_by_sorting)
  show "sorted_wrt (<) (sort (map snd sqlstate_code))"
    unfolding sqlstate_code_def sqlstate_code_a_def sqlstate_code_b_def
    by (simp add: strictly_sorted_Cons2 sorted_wrt1 del: sorted_wrt.simps(2))
qed

lemma filter_map_snd_append:
  "filter P (map snd (xs @ ys)) = filter P (map snd xs) @ filter P (map snd ys)"
  by simp

lemma sqlstate_class_conditions_eq:
  "map snd sqlstate_class_conditions =
     filter (\<lambda>v. v mod 46656 = 0 \<and> v \<noteq> 0) (map snd sqlstate_code)"
  unfolding sqlstate_code_def filter_map_snd_append
  unfolding sqlstate_class_conditions_def sqlstate_code_a_def sqlstate_code_b_def list.map snd_conv
  by simp

text \<open>The number of every SQL state enumerator is the base-36 reading of the state its
  comment names, and no two enumerators share a number.\<close>

theorem sqlstate_table_correct:
  "map b36tol (sqlstate_doc_a @ sqlstate_doc_b) = map snd sqlstate_code \<and>
   distinct (map snd sqlstate_code)"
  by (simp add: sqlstate_doc_a_values sqlstate_doc_b_values sqlstate_code_distinct)
    (simp add: sqlstate_code_def)

lemma find_snd_distinct:
  "distinct (map snd xs) \<Longrightarrow> (n, v) \<in> set xs \<Longrightarrow> find (\<lambda>(n, c). c = v) xs = Some (n, v)"
  by (induction xs) (force split: prod.splits)+

lemma sqlstate_message_cases:
  "sqlstate_message_cases_a @ sqlstate_message_cases_b =
     filter (\<lambda>(n, v). n \<noteq> ''snapshot_too_old'') sqlstate_code"
proof -
  have "(n, v) \<in> set sqlstate_code_a \<Longrightarrow> n \<noteq> ''snapshot_too_old''" for n v
  proof
    assume a: "(n, v) \<in> set sqlstate_code_a" "n = ''snapshot_too_old''"
    then have "length n = 16 \<and> hd n = CHR ''s'' \<and> n ! 1 = CHR ''n''" by simp
    moreover have "list_all (\<lambda>(n, v). \<not> (hd n = CHR ''s'' \<and> n ! 1 = CHR ''n'')) sqlstate_code_a"
      by (simp add: sqlstate_code_a_def)
    ultimately show False using a(1) by (auto simp: list_all_iff)
  qed
  then have "filter (\<lambda>(n, v). n \<noteq> ''snapshot_too_old'') sqlstate_code_a = sqlstate_code_a"
    by (auto simp: filter_id_conv)
  then show ?thesis
    by (simp add: sqlstate_message_cases_a_def sqlstate_message_cases_b_def sqlstate_code_def)
qed

text \<open>The message of a known SQL state is its enumerator's name followed by the state in
  parentheses, for every enumerator but \<open>snapshot_too_old\<close>.\<close>

theorem sqlstate_message_named:
  assumes "(n, v) \<in> set sqlstate_code" and "n \<noteq> ''snapshot_too_old''"
  shows "sqlstate_message v = n @ ''('' @ ltob36 (word_of_int v) @ '')''"
proof -
  have "distinct (map snd (filter (\<lambda>(n, v). n \<noteq> ''snapshot_too_old'') sqlstate_code))"
    using sqlstate_code_distinct by (rule distinct_map_filter)
  from find_snd_distinct [OF this] assms show ?thesis
    by (simp add: sqlstate_message_def sqlstate_message_cases)
qed

theorem sqlstate_message_named_witness:
  "sqlstate_message 29999809 = ''fdw_out_of_memory(HV001)''"
proof -
  have m: "(''fdw_out_of_memory'', 29999809) \<in> set sqlstate_code"
    by (simp add: sqlstate_code_def sqlstate_code_b_def)
  have "ltob36 (word_of_int 29999809) = ''HV001''"
    by (simp add: ltob36_digits b36_digits.simps)
  then show ?thesis using sqlstate_message_named [OF m] by simp
qed

text \<open>\<open>snapshot_too_old\<close> has no case in the switch of \<open>message\<close>: its message is the one of
  an unknown state.\<close>

theorem sqlstate_message_snapshot_too_old:
  "(''snapshot_too_old'', 11850624) \<in> set sqlstate_code \<and>
   sqlstate_message 11850624 = ''sql state 72000''"
proof
  show m: "(''snapshot_too_old'', 11850624) \<in> set sqlstate_code"
    by (simp add: sqlstate_code_def sqlstate_code_b_def)
  have "n = ''snapshot_too_old''" if "(n, 11850624) \<in> set sqlstate_code" for n
    using sqlstate_code_distinct m that by (metis distinct_map inj_on_contraD prod.inject snd_conv)
  then have "find (\<lambda>(n, c). c = 11850624) (filter (\<lambda>(n, v). n \<noteq> ''snapshot_too_old'') sqlstate_code) = None"
    by (auto simp: find_None_iff)
  moreover have "ltob36 (word_of_int 11850624) = ''72000''"
    by (simp add: ltob36_digits b36_digits.simps)
  ultimately show "sqlstate_message 11850624 = ''sql state 72000''"
    by (simp add: sqlstate_message_def sqlstate_message_cases)
qed

end
