(* ===== verification/Bozo_Streams.thy ===== *)
theory Bozo_Streams
  imports Bozo_Error
begin

text \<open>
  \<open>io/istream.h\<close>, \<open>io/ostream.h\<close>, \<open>detail/endian.h\<close>, \<open>detail/float.h\<close> and
  \<open>detail/typed_buffer.h\<close>: byte streams and the conversion of fundamental values. A
  \<open>std::vector<char>\<close> written to is a byte list; an input stream is the bytes between
  \<open>i_\<close> and \<open>last_\<close> and the flag \<open>unexpected_eof_\<close>. The byte order of the host is an
  argument, and the theorems hold for both orders.
\<close>

section \<open>Exceptions of the library\<close>

datatype exn =
    System_error error_enum
  | Invalid_argument
  | Range_error
  | Length_error
  | Out_of_range
  | Undefined_behaviour

section \<open>Byte order\<close>

datatype endian = little | big

text \<open>\<open>sizeof\<close> of the unsigned type modelled by \<open>'a word\<close>.\<close>

definition sizeof :: "'a::len word \<Rightarrow> nat" where
  "sizeof v = LENGTH('a) div 8"

definition byte_order_swap :: "'a::len word \<Rightarrow> 'a word" where
  "byte_order_swap value =
     foldr (OR)
       (map (\<lambda>n. push_bit ((sizeof value - 1 - n) * 8) (drop_bit (n * 8) value AND 255))
         [0..<sizeof value]) 0"

definition convert_to_big_endian :: "endian \<Rightarrow> 'a::len word \<Rightarrow> 'a word" where
  "convert_to_big_endian native value = (if native = little then byte_order_swap value else value)"

definition convert_from_big_endian :: "endian \<Rightarrow> 'a::len word \<Rightarrow> 'a word" where
  "convert_from_big_endian native value = (if native = little then byte_order_swap value else value)"

text \<open>The two members of \<open>typed_buffer\<close>: the bytes of a value in memory, and the value of the
  bytes.\<close>

definition le_bytes :: "'a::len word \<Rightarrow> byte list" where
  "le_bytes v = map (\<lambda>k. ucast (drop_bit (8 * k) v)) [0..<sizeof v]"

definition of_le_bytes :: "byte list \<Rightarrow> 'a::len word" where
  "of_le_bytes bs = foldr (\<lambda>b acc. ucast b OR push_bit 8 acc) bs 0"

definition buffer_raw :: "endian \<Rightarrow> 'a::len word \<Rightarrow> byte list" where
  "buffer_raw native v = (if native = little then le_bytes v else rev (le_bytes v))"

definition buffer_typed :: "endian \<Rightarrow> byte list \<Rightarrow> 'a::len word" where
  "buffer_typed native bs = of_le_bytes (if native = little then bs else rev bs)"

section \<open>Output\<close>

definition ostream_write_raw :: "byte list \<Rightarrow> byte list \<Rightarrow> byte list" where
  "ostream_write_raw out s = out @ s"

definition ostream_put :: "byte list \<Rightarrow> byte \<Rightarrow> byte list" where
  "ostream_put out ch = out @ [ch]"

definition ostream_write_int :: "endian \<Rightarrow> byte list \<Rightarrow> 'a::len word \<Rightarrow> byte list" where
  "ostream_write_int native out v =
     ostream_write_raw out (buffer_raw native (convert_to_big_endian native v))"

definition ostream_write_bool :: "byte list \<Rightarrow> bool \<Rightarrow> byte list" where
  "ostream_write_bool out b = ostream_put out (if b then 1 else 0)"

section \<open>Input\<close>

record istream =
  is_buf :: "byte list"
  unexpected_eof_flag :: bool

definition make_istream :: "byte list \<Rightarrow> istream" where
  "make_istream data = \<lparr>is_buf = data, unexpected_eof_flag = False\<rparr>"

definition istreambuf_read :: "nat \<Rightarrow> istream \<Rightarrow> byte list \<times> istream" where
  "istreambuf_read n s = (take n (is_buf s), s\<lparr>is_buf := drop n (is_buf s)\<rparr>)"

text \<open>\<open>read(char*, streamsize)\<close> into a buffer that holds the bytes \<open>old\<close>: a short read leaves the
  tail of the buffer as it was and raises the flag.\<close>

definition istream_read :: "byte list \<Rightarrow> istream \<Rightarrow> byte list \<times> istream" where
  "istream_read old s =
     (let (bs, s') = istreambuf_read (length old) s
      in (bs @ drop (length bs) old,
          if length bs \<noteq> length old then s'\<lparr>unexpected_eof_flag := True\<rparr> else s'))"

definition istream_ok :: "istream \<Rightarrow> bool" where
  "istream_ok s \<longleftrightarrow> \<not> unexpected_eof_flag s"

definition istream_get :: "istream \<Rightarrow> byte option \<times> istream" where
  "istream_get s =
     (let (bs, s') = istream_read [0] s in if istream_ok s' then (Some (hd bs), s') else (None, s'))"

text \<open>\<open>to_char_type(eof())\<close> is \<open>char(-1)\<close>.\<close>

definition istream_read_byte :: "istream \<Rightarrow> byte \<times> istream" where
  "istream_read_byte s = (case istream_get s of (Some b, s') \<Rightarrow> (b, s') | (None, s') \<Rightarrow> (- 1, s'))"

definition istream_read_int :: "endian \<Rightarrow> istream \<Rightarrow> 'a::len word \<times> istream" where
  "istream_read_int native s =
     (let (raw, s') = istream_read (replicate (sizeof (0 :: 'a word)) 0) s
      in (convert_from_big_endian native (buffer_typed native raw), s'))"

definition istream_read_bool :: "istream \<Rightarrow> bool \<times> istream" where
  "istream_read_bool s = (let (tmp, s') = istream_read_byte s in (tmp \<noteq> 0, s'))"

text \<open>The free function \<open>read\<close>: a stream in the error state throws.\<close>

definition checked :: "'a \<times> istream \<Rightarrow> exn + ('a \<times> istream)" where
  "checked r = (if istream_ok (snd r) then Inr r else Inl (System_error unexpected_eof))"

section \<open>Bits of the byte-wise conversions\<close>

lemma bit_foldr_or: "bit (foldr (OR) xs (0 :: 'a::len word)) i \<longleftrightarrow> (\<exists>x \<in> set xs. bit x i)"
  by (induction xs) (auto simp: bit_or_iff)

lemma bit_and_255: "bit (x AND 255 :: 'a::len word) i \<longleftrightarrow> bit x i \<and> i < 8"
proof -
  have m: "(255 :: 'a word) = mask 8" by (simp add: mask_eq_exp_minus_1)
  show ?thesis
    unfolding m bit_and_iff bit_mask_iff by (auto dest: bit_imp_possible_bit)
qed

lemma bit_byte_at:
  "bit (push_bit m (drop_bit k v AND 255) :: 'a::len word) i \<longleftrightarrow>
     m \<le> i \<and> i < LENGTH('a) \<and> i - m < 8 \<and> bit v (k + (i - m))"
  unfolding bit_push_bit_iff bit_and_255 bit_drop_bit_eq
  by (auto simp: possible_bit_word dest: bit_imp_le_length)

lemma block_div_mod: "m * 8 \<le> i \<Longrightarrow> i - m * 8 < 8 \<Longrightarrow> i div 8 = m \<and> i mod 8 = i - m * (8 :: nat)"
  by (auto dest!: le_Suc_ex)

lemma bit_byte_order_swap:
  assumes "8 dvd LENGTH('a)"
  shows "bit (byte_order_swap (v :: 'a::len word)) i \<longleftrightarrow>
           i < LENGTH('a) \<and> bit v (8 * (sizeof v - 1 - i div 8) + i mod 8)"
    (is "?l \<longleftrightarrow> ?r")
proof -
  obtain z where z: "LENGTH('a) = 8 * z" using assms by auto
  then have sz: "sizeof v = z" by (simp add: sizeof_def)
  have "?l \<longleftrightarrow> (\<exists>n < z. (z - 1 - n) * 8 \<le> i \<and> i < 8 * z \<and>
      i - (z - 1 - n) * 8 < 8 \<and> bit v (n * 8 + (i - (z - 1 - n) * 8)))"
    unfolding byte_order_swap_def bit_foldr_or sz
    unfolding set_map image_iff bex_simps bit_byte_at z by auto
  also have "\<dots> \<longleftrightarrow> ?r"
  proof
    assume "\<exists>n < z. (z - 1 - n) * 8 \<le> i \<and> i < 8 * z \<and>
      i - (z - 1 - n) * 8 < 8 \<and> bit v (n * 8 + (i - (z - 1 - n) * 8))"
    then obtain n where n: "n < z" "(z - 1 - n) * 8 \<le> i" "i < 8 * z"
      "i - (z - 1 - n) * 8 < 8" "bit v (n * 8 + (i - (z - 1 - n) * 8))" by blast
    then have "i div 8 = z - 1 - n" "i mod 8 = i - (z - 1 - n) * 8"
      using block_div_mod [of "z - 1 - n" i] by simp_all
    with n(1) have "n = z - 1 - i div 8" by linarith
    with n \<open>i mod 8 = _\<close> show ?r by (simp add: sz z mult.commute)
  next
    assume r: ?r
    let ?n = "z - 1 - i div 8"
    from r z have "i div 8 < z" by (simp add: less_mult_imp_div_less mult.commute)
    then have "?n < z" "z - 1 - ?n = i div 8" by linarith+
    moreover have "i - i div 8 * 8 = i mod 8" "i div 8 * 8 \<le> i" "i mod 8 < 8"
      by (simp_all add: minus_div_mult_eq_mod)
    ultimately show "\<exists>n < z. (z - 1 - n) * 8 \<le> i \<and> i < 8 * z \<and>
      i - (z - 1 - n) * 8 < 8 \<and> bit v (n * 8 + (i - (z - 1 - n) * 8))"
      using r by (intro exI [of _ ?n]) (simp add: sz z mult.commute)
  qed
  finally show ?thesis .
qed

lemma length_le_bytes [simp]: "length (le_bytes v) = sizeof v"
  by (simp add: le_bytes_def)

lemma bit_le_bytes:
  "k < sizeof (v :: 'a::len word) \<Longrightarrow> bit (le_bytes v ! k) j \<longleftrightarrow> j < 8 \<and> bit v (8 * k + j)"
  by (simp add: le_bytes_def bit_ucast_iff bit_drop_bit_eq)

lemma byte_list_eqI:
  assumes "length xs = length ys"
    and "\<And>k j. k < length ys \<Longrightarrow> j < 8 \<Longrightarrow> bit (xs ! k) j = bit (ys ! k :: byte) j"
  shows "xs = ys"
proof (rule nth_equalityI [OF assms(1)])
  fix k assume "k < length xs"
  with assms show "xs ! k = ys ! k" by (intro bit_eqI) (auto dest: bit_imp_le_length)
qed

lemma le_bytes_swap:
  assumes "8 dvd LENGTH('a)"
  shows "le_bytes (byte_order_swap (v :: 'a::len word)) = rev (le_bytes v)"
proof (rule byte_list_eqI)
  fix k j assume kj: "k < length (rev (le_bytes v))" "j < (8 :: nat)"
  then have k: "k < sizeof v" by simp
  then have k': "8 * k + j < LENGTH('a)" using kj(2) assms by (auto simp: sizeof_def)
  have sz: "sizeof (byte_order_swap v) = sizeof v" by (simp add: sizeof_def)
  have "bit (le_bytes (byte_order_swap v) ! k) j = bit v (8 * (sizeof v - 1 - k) + j)"
    using k kj(2) k' by (simp add: bit_le_bytes sz bit_byte_order_swap [OF assms])
  also have "\<dots> = bit (le_bytes v ! (sizeof v - 1 - k)) j"
    using k kj(2) by (subst bit_le_bytes) auto
  also have "\<dots> = bit (rev (le_bytes v) ! k) j"
    using k by (simp add: rev_nth)
  finally show "bit (le_bytes (byte_order_swap v) ! k) j = bit (rev (le_bytes v) ! k) j" .
qed (simp add: sizeof_def)

lemma byte_order_swap_swap:
  assumes "8 dvd LENGTH('a)"
  shows "byte_order_swap (byte_order_swap (v :: 'a::len word)) = v"
proof (rule bit_word_eqI)
  fix i assume i: "i < LENGTH('a)"
  obtain z where z: "LENGTH('a) = 8 * z" using assms by auto
  have sz: "sizeof (byte_order_swap v) = z" "sizeof v = z" by (simp_all add: sizeof_def z)
  have q: "i div 8 < z" using i z by (simp add: less_mult_imp_div_less mult.commute)
  let ?i = "8 * (z - 1 - i div 8) + i mod 8"
  have d: "?i div 8 = z - 1 - i div 8" "?i mod 8 = i mod 8" by simp_all
  have "8 * (z - 1 - i div 8) + 8 \<le> 8 * z" using q by simp
  moreover have "i mod 8 < 8" by simp
  ultimately have "?i < LENGTH('a)" unfolding z by linarith
  moreover have "8 * (z - 1 - (z - 1 - i div 8)) + i mod 8 = i" using q by simp
  ultimately show "bit (byte_order_swap (byte_order_swap v)) i = bit v i"
    using i unfolding bit_byte_order_swap [OF assms] sz d by simp
qed

lemma bit_of_le_bytes:
  "bit (of_le_bytes bs :: 'a::len word) i \<longleftrightarrow>
     i < LENGTH('a) \<and> i div 8 < length bs \<and> bit (bs ! (i div 8)) (i mod 8)"
proof (induction bs arbitrary: i)
  case Nil
  then show ?case by (simp add: of_le_bytes_def)
next
  case (Cons b bs)
  have step: "bit (of_le_bytes (b # bs) :: 'a word) i \<longleftrightarrow>
      i < LENGTH('a) \<and> (bit b i \<or> 8 \<le> i \<and> bit (of_le_bytes bs :: 'a word) (i - 8))"
    by (auto simp: of_le_bytes_def bit_or_iff bit_ucast_iff bit_push_bit_iff)
  show ?case
  proof (cases "i < 8")
    case True
    then show ?thesis by (simp add: step)
  next
    case False
    then have "\<not> bit b i" by (auto dest: bit_imp_le_length)
    moreover have "i div 8 = Suc ((i - 8) div 8)" "i mod 8 = (i - 8) mod 8"
      using False by (simp_all add: le_div_geq le_mod_geq)
    ultimately show ?thesis using False by (auto simp: step Cons.IH)
  qed
qed

lemma le_bytes_of_le_bytes:
  assumes "length bs = sizeof (0 :: 'a::len word)"
  shows "le_bytes (of_le_bytes bs :: 'a word) = bs"
proof (rule byte_list_eqI)
  show "length (le_bytes (of_le_bytes bs :: 'a word)) = length bs"
    using assms by (simp add: sizeof_def)
  fix k j assume "k < length bs" "j < (8 :: nat)"
  moreover from this assms have "8 * k + j < LENGTH('a)" by (auto simp: sizeof_def)
  ultimately show "bit (le_bytes (of_le_bytes bs :: 'a word) ! k) j = bit (bs ! k) j"
    using assms by (simp add: bit_le_bytes sizeof_def bit_of_le_bytes)
qed

lemma of_le_bytes_le_bytes:
  assumes "8 dvd LENGTH('a)"
  shows "of_le_bytes (le_bytes (v :: 'a::len word)) = v"
proof (rule bit_word_eqI)
  fix i assume i: "i < LENGTH('a)"
  obtain z where z: "LENGTH('a) = 8 * z" using assms by auto
  have "i div 8 < sizeof v" using i z by (simp add: sizeof_def less_mult_imp_div_less mult.commute)
  with i show "bit (of_le_bytes (le_bytes v) :: 'a word) i = bit v i"
    by (simp add: bit_of_le_bytes bit_le_bytes)
qed

section \<open>Network byte order on both hosts\<close>

definition be_bytes :: "'a::len word \<Rightarrow> byte list" where
  "be_bytes v = rev (le_bytes v)"

lemma length_be_bytes [simp]: "length (be_bytes v) = sizeof v"
  by (simp add: be_bytes_def)

lemma ostream_write_int_be:
  assumes "8 dvd LENGTH('a)"
  shows "ostream_write_int native out (v :: 'a::len word) = out @ be_bytes v"
  using le_bytes_swap [OF assms, of v]
  by (cases native) (simp_all add: ostream_write_int_def ostream_write_raw_def buffer_raw_def
      convert_to_big_endian_def be_bytes_def)

lemma convert_from_big_endian_be_bytes:
  assumes "8 dvd LENGTH('a)"
  shows "convert_from_big_endian native (buffer_typed native (be_bytes v)) = (v :: 'a::len word)"
proof (cases native)
  case little
  have "of_le_bytes (rev (le_bytes v)) = byte_order_swap v"
    by (metis assms le_bytes_swap of_le_bytes_le_bytes)
  with little show ?thesis
    by (simp add: convert_from_big_endian_def buffer_typed_def be_bytes_def byte_order_swap_swap [OF assms])
next
  case big
  then show ?thesis
    by (simp add: convert_from_big_endian_def buffer_typed_def be_bytes_def of_le_bytes_le_bytes [OF assms])
qed

section \<open>The contract of a fixed-width value on a stream\<close>

text \<open>What the codecs of the library rely on of the stream operations of a fundamental type: a
  write appends a fixed number of bytes, a read gives back what was written and leaves the
  rest, and a read that lacks bytes raises the error flag, which stays raised.\<close>

locale fixed_codec =
  fixes put :: "byte list \<Rightarrow> 'a \<Rightarrow> byte list"
    and get :: "istream \<Rightarrow> 'a \<times> istream"
    and width :: nat
  assumes write_append: "put out v = out @ put [] v"
    and write_width: "length (put [] v) = width"
    and read_written: "is_buf s = put [] v @ rest \<Longrightarrow> istream_ok s \<Longrightarrow> get s = (v, s\<lparr>is_buf := rest\<rparr>)"
    and read_short: "length (is_buf s) < width \<Longrightarrow> \<not> istream_ok (snd (get s))"
    and read_eof: "\<not> istream_ok s \<Longrightarrow> \<not> istream_ok (snd (get s))"
begin

lemma checked_read_written:
  "is_buf s = put [] v @ rest \<Longrightarrow> istream_ok s \<Longrightarrow> checked (get s) = Inr (v, s\<lparr>is_buf := rest\<rparr>)"
  by (simp add: checked_def read_written) (simp add: istream_ok_def)

lemma checked_read_short:
  "length (is_buf s) < width \<Longrightarrow> checked (get s) = Inl (System_error unexpected_eof)"
  by (simp add: checked_def read_short)

lemma checked_read_make:
  "checked (get (make_istream (put [] v @ rest))) = Inr (v, make_istream rest)"
  using checked_read_written [of "make_istream (put [] v @ rest)" v rest]
  by (simp add: make_istream_def istream_ok_def)

lemma written_prefix_unique:
  assumes "put [] v @ r = put [] v' @ r'"
  shows "v = v' \<and> r = r'"
  using checked_read_make [of v r] checked_read_make [of v' r'] assms
  by (simp add: make_istream_def)

end

lemma istream_ok_buf [simp]: "istream_ok (s\<lparr>is_buf := b\<rparr>) = istream_ok s"
  by (simp add: istream_ok_def)

lemma istream_read_full:
  assumes "is_buf s = bs @ rest" and "length bs = length old"
  shows "istream_read old s = (bs, s\<lparr>is_buf := rest\<rparr>)"
  using assms by (simp add: istream_read_def istreambuf_read_def)

lemma istream_read_short:
  "length (is_buf s) < length old \<Longrightarrow> \<not> istream_ok (snd (istream_read old s))"
  by (simp add: istream_read_def istreambuf_read_def istream_ok_def)

lemma istream_read_eof: "\<not> istream_ok s \<Longrightarrow> \<not> istream_ok (snd (istream_read old s))"
  by (simp add: istream_read_def istreambuf_read_def istream_ok_def)

lemma sizeof_words [simp]:
  "sizeof (v16 :: 16 word) = 2" "sizeof (v32 :: 32 word) = 4" "sizeof (v64 :: 64 word) = 8"
  by (simp_all add: sizeof_def)

lemma fixed_codec_int:
  assumes "8 dvd LENGTH('a)" and "n = sizeof (0 :: 'a::len word)"
  shows "fixed_codec (ostream_write_int native :: byte list \<Rightarrow> 'a word \<Rightarrow> byte list)
           (istream_read_int native) n"
proof
  fix s :: istream
  show "length (is_buf s) < n \<Longrightarrow> \<not> istream_ok (snd (istream_read_int native s :: 'a word \<times> _))"
    using istream_read_short [of s "replicate (sizeof (0 :: 'a word)) 0"] assms(2)
    by (simp add: istream_read_int_def case_prod_beta)
  show "\<not> istream_ok s \<Longrightarrow> \<not> istream_ok (snd (istream_read_int native s :: 'a word \<times> _))"
    using istream_read_eof [of s "replicate (sizeof (0 :: 'a word)) 0"]
    by (simp add: istream_read_int_def case_prod_beta)
next
  fix s :: istream and v :: "'a word" and rest
  assume "is_buf s = ostream_write_int native [] v @ rest"
  then have "is_buf s = be_bytes v @ rest" by (simp add: ostream_write_int_be [OF assms(1)])
  then have "istream_read (replicate (sizeof (0 :: 'a word)) 0) s = (be_bytes v, s\<lparr>is_buf := rest\<rparr>)"
    by (rule istream_read_full) (simp add: sizeof_def)
  then show "istream_read_int native s = (v, s\<lparr>is_buf := rest\<rparr>)"
    by (simp add: istream_read_int_def convert_from_big_endian_be_bytes [OF assms(1)])
qed (simp_all add: ostream_write_int_be [OF assms(1)] assms(2) sizeof_def)

interpretation int16: fixed_codec "ostream_write_int native :: byte list \<Rightarrow> 16 word \<Rightarrow> byte list"
  "istream_read_int native" 2 for native
  by (rule fixed_codec_int) simp_all

interpretation int32: fixed_codec "ostream_write_int native :: byte list \<Rightarrow> 32 word \<Rightarrow> byte list"
  "istream_read_int native" 4 for native
  by (rule fixed_codec_int) simp_all

interpretation int64: fixed_codec "ostream_write_int native :: byte list \<Rightarrow> 64 word \<Rightarrow> byte list"
  "istream_read_int native" 8 for native
  by (rule fixed_codec_int) simp_all

lemma istream_read_byte_full:
  "is_buf s = b # rest \<Longrightarrow> istream_ok s \<Longrightarrow> istream_read_byte s = (b, s\<lparr>is_buf := rest\<rparr>)"
  using istream_read_full [of s "[b]" rest "[0]"]
  by (simp add: istream_read_byte_def istream_get_def)

lemma istream_read_byte_flag:
  "snd (istream_read_byte s) = snd (istream_read [0] s)"
  by (simp add: istream_read_byte_def istream_get_def case_prod_beta)

interpretation char: fixed_codec ostream_put istream_read_byte 1
proof
  fix s :: istream
  show "length (is_buf s) < 1 \<Longrightarrow> \<not> istream_ok (snd (istream_read_byte s))"
    using istream_read_short [of s "[0]"] by (simp add: istream_read_byte_flag)
  show "\<not> istream_ok s \<Longrightarrow> \<not> istream_ok (snd (istream_read_byte s))"
    using istream_read_eof [of s "[0]"] by (simp add: istream_read_byte_flag)
next
  fix s :: istream and v :: byte and rest
  assume "is_buf s = ostream_put [] v @ rest" "istream_ok s"
  then show "istream_read_byte s = (v, s\<lparr>is_buf := rest\<rparr>)"
    by (simp add: ostream_put_def istream_read_byte_full)
qed (simp_all add: ostream_put_def)

interpretation bool: fixed_codec ostream_write_bool istream_read_bool 1
proof
  fix s :: istream
  show "length (is_buf s) < 1 \<Longrightarrow> \<not> istream_ok (snd (istream_read_bool s))"
    using char.read_short [of s] by (simp add: istream_read_bool_def case_prod_beta)
  show "\<not> istream_ok s \<Longrightarrow> \<not> istream_ok (snd (istream_read_bool s))"
    using char.read_eof [of s] by (simp add: istream_read_bool_def case_prod_beta)
next
  fix s :: istream and v :: bool and rest
  assume "is_buf s = ostream_write_bool [] v @ rest" "istream_ok s"
  then show "istream_read_bool s = (v, s\<lparr>is_buf := rest\<rparr>)"
    by (simp add: ostream_write_bool_def istream_read_bool_def char.read_written)
qed (simp_all add: ostream_write_bool_def ostream_put_def)

text \<open>On a host of either byte order, an integer is written in network byte order (most
  significant byte first), and reading those bytes back on a host of any byte order gives
  the integer and leaves the rest of the stream.\<close>

theorem int64_network_byte_order:
  "ostream_write_int native out (v :: 64 word) =
     out @ map (\<lambda>k. ucast (drop_bit (8 * (7 - k)) v)) [0..<8] \<and>
   checked (istream_read_int native' (make_istream (ostream_write_int native [] v @ rest))) =
     Inr (v, make_istream rest)"
proof
  show "ostream_write_int native out v = out @ map (\<lambda>k. ucast (drop_bit (8 * (7 - k)) v)) [0..<8]"
    by (simp add: ostream_write_int_be be_bytes_def le_bytes_def rev_map upt_rec)
  have "ostream_write_int native [] v = ostream_write_int native' [] v"
    by (simp add: ostream_write_int_be)
  then show "checked (istream_read_int native' (make_istream (ostream_write_int native [] v @ rest))) =
     Inr (v, make_istream rest)"
    using int64.checked_read_make [of native' v rest] by simp
qed

text \<open>A value that runs past the end of the stream is never delivered: the read throws
  \<open>unexpected_eof\<close>.\<close>

theorem read_int32_past_end:
  "length (is_buf s) < 4 \<Longrightarrow>
     checked (istream_read_int native s :: 32 word \<times> istream) = Inl (System_error unexpected_eof)"
  by (rule int32.checked_read_short)

theorem read_int32_past_end_witness:
  "checked (istream_read_int little (make_istream [1, 2, 3]) :: 32 word \<times> istream) =
     Inl (System_error unexpected_eof)"
  by (rule read_int32_past_end) (simp add: make_istream_def)

end
