(* ===== verification/Bozo_Interval.thy ===== *)
theory Bozo_Interval
  imports Bozo_Prelude "HOL-Library.Signed_Division"
begin

text \<open>
  \<open>ext/std/duration.h\<close> and \<open>ext/std/time_point.h\<close>: the conversions between
  \<open>std::chrono::microseconds\<close> and PostgreSQL's \<open>interval\<close>, and between
  \<open>system_clock::time_point\<close> and \<open>timestamp\<close>. Ticks are the signed 64-bit integers of the source,
  read as mathematical integers; a signed overflow, which is undefined in C++, is the
  value \<open>None\<close>. \<open>sdiv\<close> and \<open>smod\<close> truncate towards zero as C++ does.
\<close>

record pg_interval =
  microseconds :: int
  days :: int
  months :: int

definition int64_min :: int where "int64_min = - (2 ^ 63)"
definition int64_max :: int where "int64_max = 2 ^ 63 - 1"

definition usecs_per_day :: int where
  "usecs_per_day = 86400000000"

definition checked64 :: "int \<Rightarrow> int option" where
  "checked64 x = (if int64_min \<le> x \<and> x \<le> int64_max then Some x else None)"

definition from_chrono_duration :: "int \<Rightarrow> pg_interval" where
  "from_chrono_duration us =
     \<lparr>microseconds = us smod usecs_per_day, days = to_int32 (us sdiv usecs_per_day), months = 0\<rparr>"

text \<open>\<open>d + usecs_surplus\<close> for \<open>d\<close> a number of days: both conversions to the common type
  \<open>microseconds\<close> and the sum are 64-bit.\<close>

definition add_days_usecs :: "int \<Rightarrow> int \<Rightarrow> int option" where
  "add_days_usecs d surplus =
     Option.bind (checked64 (d * usecs_per_day)) (\<lambda>x. checked64 (x + surplus))"

text \<open>The two range checks and the final sum of \<open>to_chrono_duration\<close>.\<close>

definition saturate_days :: "int \<Rightarrow> int \<Rightarrow> int option" where
  "saturate_days days_total surplus =
     (let upper = (if int64_max sdiv usecs_per_day + 1 < days_total then Some int64_max
                   else if 0 < days_total
                     then Option.bind (add_days_usecs (days_total - 1) surplus) (\<lambda>t.
                            if int64_max - usecs_per_day < t then Some int64_max
                            else add_days_usecs days_total surplus)
                     else add_days_usecs days_total surplus)
      in if days_total < int64_min sdiv usecs_per_day - 1 then Some int64_min
         else if days_total < 0
           then Option.bind (add_days_usecs (days_total + 1) surplus) (\<lambda>t.
                  if t < int64_min + usecs_per_day then Some int64_min else upper)
           else upper)"

definition to_chrono_duration :: "pg_interval \<Rightarrow> int option" where
  "to_chrono_duration iv =
     saturate_days (months iv * 30 + days iv + microseconds iv sdiv usecs_per_day)
       (microseconds iv smod usecs_per_day)"

section \<open>Time points\<close>

text \<open>\<open>detail::epoch\<close> in microseconds after the Unix epoch; a time point is its distance from
  the Unix epoch in ticks of \<open>system_clock\<close>, of which a microsecond has \<open>ticks\<close>.\<close>

definition epoch_us :: int where
  "epoch_us = 10957 * 24 * 3600 * 1000000"

definition time_point_to_pg :: "int \<Rightarrow> int \<Rightarrow> int option" where
  "time_point_to_pg ticks tp =
     Option.bind (checked64 (tp - epoch_us * ticks)) (\<lambda>d. Some (d sdiv ticks))"

definition time_point_of_pg :: "int \<Rightarrow> int \<Rightarrow> int option" where
  "time_point_of_pg ticks value =
     Option.bind (checked64 (value * ticks)) (\<lambda>d. checked64 (epoch_us * ticks + d))"

section \<open>Truncating division\<close>

text \<open>Truncation towards zero loses less than the divisor and never crosses zero.\<close>

lemma sdiv_mult_bounds:
  assumes "0 < (n :: int)"
  shows "\<bar>d - d sdiv n * n\<bar> < n" "0 \<le> d \<Longrightarrow> 0 \<le> d sdiv n * n \<and> d sdiv n * n \<le> d"
    "d \<le> 0 \<Longrightarrow> d \<le> d sdiv n * n \<and> d sdiv n * n \<le> 0"
proof -
  have pos: "0 \<le> e div n * n \<and> e div n * n \<le> e \<and> e - e div n * n < n" if "0 \<le> e" for e
  proof -
    have "0 \<le> e div n" using that assms by (simp add: pos_imp_zdiv_nonneg_iff)
    then show ?thesis
      using assms mult_nonneg_nonneg [of "e div n" n] div_mult_mod_eq [of e n] pos_mod_bound [OF assms, of e]
        pos_mod_sign [OF assms, of e] by linarith
  qed
  have eq: "d sdiv n = (if 0 \<le> d then d div n else - ((- d) div n))"
    using assms by (auto simp: signed_divide_int_def sgn_if abs_if)
  show "\<bar>d - d sdiv n * n\<bar> < n" "0 \<le> d \<Longrightarrow> 0 \<le> d sdiv n * n \<and> d sdiv n * n \<le> d"
    "d \<le> 0 \<Longrightarrow> d \<le> d sdiv n * n \<and> d sdiv n * n \<le> 0"
    using pos [of d] pos [of "- d"] by (auto simp: eq)
qed

lemma sdiv_mult_exact: "0 < (n :: int) \<Longrightarrow> n dvd d \<Longrightarrow> d sdiv n * n = d"
  using sdiv_mult_bounds(1) [of n d] dvd_imp_le_int [of "d - d sdiv n * n" n] by fastforce

lemma quotient_bounds:
  assumes "0 < (n :: int)"
  shows "q \<le> max 0 (q * n)" "min 0 (q * n) \<le> q"
proof -
  have "q \<le> q * n" if "0 \<le> q" using that assms mult_left_mono [of 1 n q] by simp
  then show "q \<le> max 0 (q * n)" by linarith
  have "q * n \<le> q" if "q \<le> 0" using that assms mult_left_mono_neg [of 1 n q] by simp
  then show "min 0 (q * n) \<le> q" by linarith
qed

section \<open>Truncating division by a day\<close>

lemma day_split:
  obtains q r where "us = usecs_per_day * q + r" "us sdiv usecs_per_day = q"
    "us smod usecs_per_day = r" "\<bar>r\<bar> < usecs_per_day" "0 \<le> us \<Longrightarrow> 0 \<le> r" "us \<le> 0 \<Longrightarrow> r \<le> 0"
proof -
  have d: "0 < usecs_per_day" by (simp add: usecs_per_day_def)
  have "us = usecs_per_day * (us sdiv usecs_per_day) + us smod usecs_per_day"
    by (simp add: mult_sdiv_smod_eq)
  moreover have "\<bar>us smod usecs_per_day\<bar> < usecs_per_day"
    using smod_int_compares(1-4) [OF _ d, of us] by (cases "0 \<le> us") auto
  ultimately show ?thesis using smod_int_compares(2,4) [OF _ d, of us] by (intro that) auto
qed

lemmas int64_defs = int64_min_def int64_max_def usecs_per_day_def

lemma int64_days [simp]:
  "int64_max sdiv usecs_per_day = 106751991" "int64_min sdiv usecs_per_day = - 106751991"
  by (simp_all add: int64_defs)

section \<open>Intervals\<close>

text \<open>The length of an interval in microseconds, a month being thirty days, and the intervals
  on which no intermediate of \<open>to_chrono_duration\<close> leaves the 64-bit range.\<close>

definition interval_usecs :: "pg_interval \<Rightarrow> int" where
  "interval_usecs iv = (months iv * 30 + days iv) * usecs_per_day + microseconds iv"

definition days_no_overflow :: "int \<Rightarrow> int \<Rightarrow> bool" where
  "days_no_overflow dt s \<longleftrightarrow>
     (dt = 106751992 \<longrightarrow> - 71945224193 < s \<and> s \<le> 14454775807) \<and>
     (dt = - 106751992 \<longrightarrow> - 14454775808 \<le> s \<and> s < 71945224192)"

definition interval_no_overflow :: "pg_interval \<Rightarrow> bool" where
  "interval_no_overflow iv \<longleftrightarrow>
     days_no_overflow (months iv * 30 + days iv + microseconds iv sdiv usecs_per_day)
       (microseconds iv smod usecs_per_day)"

lemma add_days_usecs_eq:
  "add_days_usecs d s =
     (if int64_min \<le> d * usecs_per_day \<and> d * usecs_per_day \<le> int64_max \<and>
         int64_min \<le> d * usecs_per_day + s \<and> d * usecs_per_day + s \<le> int64_max
      then Some (d * usecs_per_day + s) else None)"
  by (auto simp: add_days_usecs_def checked64_def)

lemma saturate_days_pos:
  assumes "0 < dt" "\<bar>s\<bar> < usecs_per_day"
  shows "saturate_days dt s = (if days_no_overflow dt s
    then Some (max int64_min (min int64_max (dt * usecs_per_day + s))) else None)"
proof -
  consider "dt \<le> 106751990" | "dt = 106751991" | "dt = 106751992" | "106751993 \<le> dt" by linarith
  then show ?thesis
    using assms
    by cases (auto simp: saturate_days_def add_days_usecs_eq days_no_overflow_def int64_defs
        max_def min_def)
qed

lemma saturate_days_neg:
  assumes "dt \<le> 0" "\<bar>s\<bar> < usecs_per_day"
  shows "saturate_days dt s = (if days_no_overflow dt s
    then Some (max int64_min (min int64_max (dt * usecs_per_day + s))) else None)"
proof -
  consider "dt = 0" | "dt < 0" "- 106751990 \<le> dt" | "dt = - 106751991" | "dt = - 106751992"
    | "dt \<le> - 106751993" using assms(1) by linarith
  then show ?thesis
    using assms
    by cases (auto simp: saturate_days_def add_days_usecs_eq days_no_overflow_def int64_defs
        max_def min_def)
qed

lemma to_chrono_duration_eq:
  "to_chrono_duration iv =
     (if interval_no_overflow iv then Some (max int64_min (min int64_max (interval_usecs iv)))
      else None)"
proof -
  obtain q r where qr: "microseconds iv = usecs_per_day * q + r" "microseconds iv sdiv usecs_per_day = q"
    "microseconds iv smod usecs_per_day = r" "\<bar>r\<bar> < usecs_per_day" by (rule day_split)
  let ?dt = "months iv * 30 + days iv + q"
  have "?dt * usecs_per_day + r = interval_usecs iv"
    using qr(1) by (simp add: interval_usecs_def algebra_simps)
  then show ?thesis
    using saturate_days_pos [of ?dt r] saturate_days_neg [of ?dt r] qr
    by (cases "0 < ?dt") (simp_all add: to_chrono_duration_def interval_no_overflow_def)
qed

lemma to_from_chrono_duration:
  assumes "int64_min \<le> us" and "us \<le> int64_max"
  shows "to_chrono_duration (from_chrono_duration us) = Some us"
proof -
  obtain q r where qr: "us = usecs_per_day * q + r" "us sdiv usecs_per_day = q"
    "us smod usecs_per_day = r" "\<bar>r\<bar> < usecs_per_day" "0 \<le> us \<Longrightarrow> 0 \<le> r" "us \<le> 0 \<Longrightarrow> r \<le> 0"
    by (rule day_split [of us]) blast
  have "q \<le> 106751991"
  proof (rule ccontr)
    assume "\<not> q \<le> 106751991"
    with qr(1,4) have "0 \<le> us" by (simp add: usecs_per_day_def)
    with qr(1,5) \<open>\<not> q \<le> 106751991\<close> assms(2) show False by (simp add: int64_defs)
  qed
  moreover have "- 106751991 \<le> q"
  proof (rule ccontr)
    assume "\<not> - 106751991 \<le> q"
    with qr(1,4) have "us \<le> 0" by (simp add: usecs_per_day_def)
    with qr(1,6) \<open>\<not> - 106751991 \<le> q\<close> assms(1) show False by (simp add: int64_defs)
  qed
  ultimately have q: "- 106751991 \<le> q \<and> q \<le> 106751991" by simp
  have r: "r sdiv usecs_per_day = 0" "r smod usecs_per_day = r"
    using qr(4) by (auto simp: signed_divide_int_def signed_modulo_int_def div_pos_pos_trivial usecs_per_day_def
        sgn_mult_abs)
  have "interval_no_overflow (from_chrono_duration us)"
    using q by (simp add: interval_no_overflow_def from_chrono_duration_def days_no_overflow_def qr(2,3) r)
  moreover have "interval_usecs (from_chrono_duration us) = us"
    using q by (simp add: interval_usecs_def from_chrono_duration_def qr(2,3)) (simp add: qr(1))
  ultimately show ?thesis
    using assms by (simp add: to_chrono_duration_eq)
qed

lemma from_chrono_duration_range:
  "\<bar>microseconds (from_chrono_duration us)\<bar> < usecs_per_day"
  "- (2 ^ 31) \<le> days (from_chrono_duration us)" "days (from_chrono_duration us) < 2 ^ 31"
  "months (from_chrono_duration us) = 0"
proof -
  show "\<bar>microseconds (from_chrono_duration us)\<bar> < usecs_per_day"
    by (rule day_split [of us]) (simp add: from_chrono_duration_def)
qed (use to_int32_bounds [of "us sdiv usecs_per_day"] in \<open>simp_all add: from_chrono_duration_def\<close>)

text \<open>\<open>to_chrono_duration\<close> returns the length of the interval saturated to the range of
  \<open>microseconds\<close>, except on the intervals of one day past that range whose remainder makes a
  64-bit intermediate overflow.\<close>

theorem to_chrono_duration_saturates:
  "to_chrono_duration iv =
     (if interval_no_overflow iv then Some (max int64_min (min int64_max (interval_usecs iv)))
      else None)"
  by (rule to_chrono_duration_eq)

text \<open>A duration survives the conversion to an interval and back, over the whole range of
  \<open>microseconds\<close>.\<close>

theorem chrono_duration_roundtrip:
  assumes "int64_min \<le> us" and "us \<le> int64_max"
  shows "to_chrono_duration (from_chrono_duration us) = Some us"
  using assms by (rule to_from_chrono_duration)

theorem chrono_duration_roundtrip_witness:
  "to_chrono_duration (from_chrono_duration (- 9223372036854775808)) = Some (- 9223372036854775808)"
  using chrono_duration_roundtrip [of "- 9223372036854775808"] by (simp add: int64_defs)

text \<open>The saturation of \<open>to_chrono_duration\<close> is incomplete: an interval of 106751992 days and
  20000 seconds, which is past the range of \<open>microseconds\<close>, overflows instead of saturating.\<close>

theorem to_chrono_duration_overflows:
  "to_chrono_duration \<lparr>microseconds = 20000000000, days = 106751992, months = 0\<rparr> = None"
  by (simp add: to_chrono_duration_eq interval_no_overflow_def days_no_overflow_def usecs_per_day_def)

section \<open>Timestamps\<close>

text \<open>The timestamp \<open>infinity\<close>, which PostgreSQL writes as the largest 64-bit number, overflows when it is received.\<close>

theorem time_point_infinity_overflows: "0 < ticks \<Longrightarrow> time_point_of_pg ticks int64_max = None"
  by (auto simp: time_point_of_pg_def checked64_def int64_defs epoch_us_def bind_eq_None_conv)

text \<open>A time point on a whole microsecond is sent and received unchanged while its distances
  from both epochs are 64-bit values.\<close>

theorem time_point_roundtrip:
  assumes "0 < ticks" and "tp = us * ticks" and "checked64 tp = Some tp"
    and "checked64 (tp - epoch_us * ticks) = Some (tp - epoch_us * ticks)"
  shows "Option.bind (time_point_to_pg ticks tp) (time_point_of_pg ticks) = Some tp"
proof -
  have "(us - epoch_us) * ticks sdiv ticks = us - epoch_us"
    using assms(1) by (simp add: signed_divide_int_def abs_mult sgn_mult)
      (simp add: sgn_if abs_if)
  moreover have "tp - epoch_us * ticks = (us - epoch_us) * ticks"
    by (simp add: assms(2) algebra_simps)
  ultimately show ?thesis
    using assms(3,4) by (simp add: time_point_to_pg_def time_point_of_pg_def)
      (simp add: assms(2) algebra_simps)
qed

theorem time_point_roundtrip_witness:
  "Option.bind (time_point_to_pg 1000 1577836800000000000) (time_point_of_pg 1000) =
     Some 1577836800000000000"
  using time_point_roundtrip [of 1000 1577836800000000000 1577836800000000]
  by (simp add: checked64_def int64_defs epoch_us_def)

end
