(* ===== verification/Bozo_Types.thy ===== *)
theory Bozo_Types
  imports Bozo_Streams Bozo_Interval
begin

text \<open>
  \<open>type_traits.h\<close>, the bindings under \<open>pg/types\<close> and \<open>ext\<close>, and the entries of
  \<open>pg/definitions.h\<close> those bindings use: the C++ types the library can send and receive as a
  \<open>datatype\<close>, their values, and the traits (\<open>size\<close>, \<open>oid\<close>, \<open>name\<close>) the templates select on.
  What a \<open>static_assert\<close> of the sources rejects is the negation of \<open>wf_type\<close>.
\<close>

section \<open>Types and values\<close>

datatype string_kind = text_kind | bytea_kind | json_kind | name_kind

datatype cpp_type =
    T_char | T_int2 | T_int4 | T_int8 | T_oid | T_bool | T_float4 | T_float8
  | T_string string_kind
  | T_uuid
  | T_jsonb
  | T_ltree
  | T_interval
  | T_time_point int
  | T_nullable cpp_type
  | T_vector cpp_type
  | T_std_array cpp_type nat
  | T_record "cpp_type list"
  | T_composite string "cpp_type list"

text \<open>A floating point value is its bit pattern: \<open>to_integral\<close> and \<open>to_floating_point\<close> of
  \<open>detail/float.h\<close> read one member of a union after writing the other.\<close>

datatype pg_value =
    V_char byte
  | V_int2 "16 word"
  | V_int4 "32 word"
  | V_int8 "64 word"
  | V_oid "32 word"
  | V_bool bool
  | V_float4 "32 word"
  | V_float8 "64 word"
  | V_string "byte list"
  | V_uuid "byte list"
  | V_jsonb "byte list"
  | V_ltree "byte list"
  | V_interval int
  | V_time_point int int
  | V_null
  | V_some pg_value
  | V_seq "pg_value list"
  | V_fields "pg_value list"

fun is_nullable :: "cpp_type \<Rightarrow> bool" where
  "is_nullable (T_nullable t) = True"
| "is_nullable _ = False"

fun is_array :: "cpp_type \<Rightarrow> bool" where
  "is_array (T_vector t) = True"
| "is_array (T_std_array t n) = True"
| "is_array _ = False"

fun unwrap_type :: "cpp_type \<Rightarrow> cpp_type" where
  "unwrap_type (T_nullable t) = t"
| "unwrap_type t = t"

lemma size_unwrap_type [termination_simp]: "size (unwrap_type t) < Suc (size t)"
  by (cases t) auto

definition is_null :: "cpp_type \<Rightarrow> pg_value \<Rightarrow> bool" where
  "is_null t v \<longleftrightarrow> is_nullable t \<and> v = V_null"

text \<open>A clock of \<open>ticks\<close> ticks in a microsecond whose 64-bit time points reach the epoch of PostgreSQL, and the time points that are
  64-bit numbers from both epochs.\<close>

definition clock_ok :: "int \<Rightarrow> bool" where
  "clock_ok ticks \<longleftrightarrow> 0 < ticks \<and> epoch_us * ticks \<le> int64_max"

definition time_point_ok :: "int \<Rightarrow> int \<Rightarrow> bool" where
  "time_point_ok ticks tp \<longleftrightarrow> int64_min \<le> tp \<and> tp \<le> int64_max \<and> int64_min \<le> tp - epoch_us * ticks"

lemma time_point_ok_zero: "clock_ok ticks \<Longrightarrow> time_point_ok ticks 0"
  by (simp add: clock_ok_def time_point_ok_def int64_defs)

text \<open>The types with a definition: an array has elements that are not arrays themselves, and
  of a type with an array definition; a nullable wraps a type that is not nullable.\<close>

fun wf_type :: "cpp_type \<Rightarrow> bool" where
  "wf_type (T_nullable t) = (wf_type t \<and> \<not> is_nullable t)"
| "wf_type (T_vector t) = (wf_type t \<and> \<not> is_array (unwrap_type t) \<and> unwrap_type t \<noteq> T_interval)"
| "wf_type (T_std_array t n) = (wf_type t \<and> \<not> is_array (unwrap_type t) \<and> unwrap_type t \<noteq> T_interval \<and> n < 2 ^ 31)"
| "wf_type (T_time_point ticks) = clock_ok ticks"
| "wf_type (T_record ts) = (list_all wf_type ts \<and> length ts < 2 ^ 31)"
| "wf_type (T_composite n ts) = (list_all wf_type ts \<and> length ts < 2 ^ 31)"
| "wf_type _ = True"

text \<open>The values of a type. Lengths that do not fit \<open>size_type\<close> are excluded: the wire format
  has no way to write them.\<close>

fun has_type :: "cpp_type \<Rightarrow> pg_value \<Rightarrow> bool" where
  "has_type T_char v = (\<exists>w. v = V_char w)"
| "has_type T_int2 v = (\<exists>w. v = V_int2 w)"
| "has_type T_int4 v = (\<exists>w. v = V_int4 w)"
| "has_type T_int8 v = (\<exists>w. v = V_int8 w)"
| "has_type T_oid v = (\<exists>w. v = V_oid w)"
| "has_type T_bool v = (\<exists>b. v = V_bool b)"
| "has_type T_float4 v = (\<exists>w. v = V_float4 w)"
| "has_type T_float8 v = (\<exists>w. v = V_float8 w)"
| "has_type (T_string k) v = (\<exists>bs. v = V_string bs \<and> length bs < 2 ^ 31)"
| "has_type T_uuid v = (\<exists>bs. v = V_uuid bs \<and> length bs = 16)"
| "has_type T_jsonb v = (\<exists>bs. v = V_jsonb bs \<and> length bs + 1 < 2 ^ 31)"
| "has_type T_ltree v = (\<exists>bs. v = V_ltree bs \<and> length bs + 1 < 2 ^ 31)"
| "has_type T_interval v = (\<exists>us. v = V_interval us \<and> int64_min \<le> us \<and> us \<le> int64_max)"
| "has_type (T_time_point ticks) v = (clock_ok ticks \<and> (\<exists>tp. v = V_time_point ticks tp \<and> time_point_ok ticks tp))"
| "has_type (T_nullable t) v = (v = V_null \<or> (\<exists>x. v = V_some x \<and> has_type t x))"
| "has_type (T_vector t) v = (\<exists>vs. v = V_seq vs \<and> length vs < 2 ^ 31 \<and> list_all (has_type t) vs)"
| "has_type (T_std_array t n) v = (\<exists>vs. v = V_seq vs \<and> length vs = n \<and> list_all (has_type t) vs)"
| "has_type (T_record ts) v = (\<exists>vs. v = V_fields vs \<and> list_all2 has_type ts vs)"
| "has_type (T_composite n ts) v = (\<exists>vs. v = V_fields vs \<and> list_all2 has_type ts vs)"

text \<open>Value initialisation, \<open>T{}\<close>.\<close>

fun default_value :: "cpp_type \<Rightarrow> pg_value" where
  "default_value T_char = V_char 0"
| "default_value T_int2 = V_int2 0"
| "default_value T_int4 = V_int4 0"
| "default_value T_int8 = V_int8 0"
| "default_value T_oid = V_oid 0"
| "default_value T_bool = V_bool False"
| "default_value T_float4 = V_float4 0"
| "default_value T_float8 = V_float8 0"
| "default_value (T_string k) = V_string []"
| "default_value T_uuid = V_uuid (replicate 16 0)"
| "default_value T_jsonb = V_jsonb []"
| "default_value T_ltree = V_ltree []"
| "default_value T_interval = V_interval 0"
| "default_value (T_time_point ticks) = V_time_point ticks 0"
| "default_value (T_nullable t) = V_null"
| "default_value (T_vector t) = V_seq []"
| "default_value (T_std_array t n) = V_seq (replicate n (default_value t))"
| "default_value (T_record ts) = V_fields (map default_value ts)"
| "default_value (T_composite n ts) = V_fields (map default_value ts)"

section \<open>Traits\<close>

text \<open>\<open>type_traits<T>::size\<close>, \<open>None\<close> for \<open>dynamic_size\<close>.\<close>

fun type_size :: "cpp_type \<Rightarrow> int option" where
  "type_size T_char = Some 1"
| "type_size T_int2 = Some 2"
| "type_size T_int4 = Some 4"
| "type_size T_int8 = Some 8"
| "type_size T_oid = Some 4"
| "type_size T_bool = Some 1"
| "type_size T_float4 = Some 4"
| "type_size T_float8 = Some 8"
| "type_size T_uuid = Some 16"
| "type_size T_interval = Some 16"
| "type_size (T_time_point ticks) = Some 8"
| "type_size (T_nullable t) = type_size t"
| "type_size _ = None"

definition static_size :: "cpp_type \<Rightarrow> bool" where
  "static_size t \<longleftrightarrow> type_size t \<noteq> None"

text \<open>\<open>oid\<close> and \<open>array_oid\<close> of the built-in types, \<open>None\<close> for the custom ones, whose
  oid the \<open>OidMap\<close> of the connection holds.\<close>

fun builtin_oid :: "cpp_type \<Rightarrow> oid_t option" where
  "builtin_oid T_char = Some 18"
| "builtin_oid T_int2 = Some 21"
| "builtin_oid T_int4 = Some 23"
| "builtin_oid T_int8 = Some 20"
| "builtin_oid T_oid = Some 26"
| "builtin_oid T_bool = Some 16"
| "builtin_oid T_float4 = Some 700"
| "builtin_oid T_float8 = Some 701"
| "builtin_oid (T_string k) = Some (case k of text_kind \<Rightarrow> 25 | bytea_kind \<Rightarrow> 17 | json_kind \<Rightarrow> 114 | name_kind \<Rightarrow> 19)"
| "builtin_oid T_uuid = Some 2950"
| "builtin_oid T_jsonb = Some 3802"
| "builtin_oid T_interval = Some 1186"
| "builtin_oid (T_time_point ticks) = Some 1114"
| "builtin_oid (T_record ts) = Some 2249"
| "builtin_oid _ = None"

fun builtin_array_oid :: "cpp_type \<Rightarrow> oid_t option" where
  "builtin_array_oid T_char = Some 1002"
| "builtin_array_oid T_int2 = Some 1005"
| "builtin_array_oid T_int4 = Some 1007"
| "builtin_array_oid T_int8 = Some 1016"
| "builtin_array_oid T_oid = Some 1028"
| "builtin_array_oid T_bool = Some 1000"
| "builtin_array_oid T_float4 = Some 1021"
| "builtin_array_oid T_float8 = Some 1022"
| "builtin_array_oid (T_string k) = Some (case k of text_kind \<Rightarrow> 1009 | bytea_kind \<Rightarrow> 1001 | json_kind \<Rightarrow> 199 | name_kind \<Rightarrow> 1003)"
| "builtin_array_oid T_uuid = Some 2951"
| "builtin_array_oid T_jsonb = Some 3807"
| "builtin_array_oid (T_time_point ticks) = Some 1115"
| "builtin_array_oid (T_record ts) = Some 2287"
| "builtin_array_oid _ = None"

text \<open>\<open>type_name\<close> of the custom types.\<close>

fun custom_name :: "cpp_type \<Rightarrow> string" where
  "custom_name (T_composite n ts) = n"
| "custom_name T_ltree = ''ltree''"
| "custom_name (T_vector t) = custom_name (unwrap_type t) @ ''[]''"
| "custom_name (T_std_array t n) = custom_name (unwrap_type t) @ ''[]''"
| "custom_name t = []"

section \<open>Oid maps\<close>

text \<open>\<open>oid_map_t\<close>: the registered types, by name and in order, with their oids.\<close>

type_synonym oid_map = "(string \<times> oid_t) list"

definition null_oid :: oid_t where
  "null_oid = 0"

definition register_types :: "string list \<Rightarrow> oid_map" where
  "register_types ns = map (\<lambda>n. (n, null_oid)) ns"

definition set_type_oid :: "oid_map \<Rightarrow> string \<Rightarrow> oid_t \<Rightarrow> oid_map" where
  "set_type_oid m n oid = map (\<lambda>(k, v). (k, if k = n then oid else v)) m"

text \<open>A custom type that is not registered does not compile; the model gives it the null oid.\<close>

definition lookup_oid :: "oid_map \<Rightarrow> string \<Rightarrow> oid_t" where
  "lookup_oid m n = (case map_of m n of Some oid \<Rightarrow> oid | None \<Rightarrow> null_oid)"

definition definition_oid :: "cpp_type \<Rightarrow> oid_t option" where
  "definition_oid t =
     (case t of T_vector e \<Rightarrow> builtin_array_oid (unwrap_type e)
      | T_std_array e n \<Rightarrow> builtin_array_oid (unwrap_type e)
      | _ \<Rightarrow> builtin_oid t)"

definition type_oid :: "oid_map \<Rightarrow> cpp_type \<Rightarrow> oid_t" where
  "type_oid m t =
     (case definition_oid (unwrap_type t) of Some oid \<Rightarrow> oid
      | None \<Rightarrow> lookup_oid m (custom_name (unwrap_type t)))"

definition accepts_oid :: "oid_map \<Rightarrow> cpp_type \<Rightarrow> oid_t \<Rightarrow> bool" where
  "accepts_oid m t oid \<longleftrightarrow> type_oid m t = oid"

definition oid_map_empty :: "oid_map \<Rightarrow> bool" where
  "oid_map_empty m \<longleftrightarrow> length m = 0"

lemma accepts_type_oid [simp]: "accepts_oid m t (type_oid m t)"
  by (simp add: accepts_oid_def)

lemma unwrap_type_idem: "wf_type t \<Longrightarrow> unwrap_type (unwrap_type t) = unwrap_type t"
  by (cases t rule: unwrap_type.cases) (auto elim: is_nullable.elims)

lemma type_oid_unwrap [simp]: "wf_type t \<Longrightarrow> type_oid m (unwrap_type t) = type_oid m t"
  by (simp add: type_oid_def unwrap_type_idem cong: option.case_cong)

lemma default_has_type: "wf_type t \<Longrightarrow> has_type t (default_value t)"
proof (induction t rule: default_value.induct)
qed (auto simp: int64_min_def int64_max_def list_all_iff list_all2_conv_all_nth time_point_ok_zero)

end
