(* ===== verification/Bozo_Definitions.thy ===== *)
theory Bozo_Definitions
  imports Bozo_Types
begin

text \<open>
  \<open>pg/definitions.h\<close>: the table of PostgreSQL's built-in types, generated from the catalog, with name, oid, oid of the
  array type and size, and the binding of C++ types to its entries by \<open>BOZO_PG_BIND_TYPE\<close>. The traits of
  \<open>Bozo_Types\<close> are those of the table, and an oid identifies a type.
\<close>

text \<open>An entry: name, oid, array oid and size in bytes, where \<open>None\<close> is no array and \<open>dynamic_size\<close>.\<close>

type_synonym type_definition = "string \<times> int \<times> int option \<times> int option"

definition type_definitions_a :: "type_definition list" where
  "type_definitions_a =
     [(''aclitem'', 1033, Some 1034, Some 12), (''any'', 2276, None, Some 4),
      (''anyarray'', 2277, None, None), (''anyelement'', 2283, None, Some 4),
      (''anyenum'', 3500, None, Some 4), (''anynonarray'', 2776, None, Some 4),
      (''anyrange'', 3831, None, None), (''bit'', 1560, Some 1561, None),
      (''bool'', 16, Some 1000, Some 1), (''box'', 603, Some 1020, Some 32),
      (''bpchar'', 1042, Some 1014, None), (''bytea'', 17, Some 1001, None),
      (''char'', 18, Some 1002, Some 1), (''cid'', 29, Some 1012, Some 4),
      (''cidr'', 650, Some 651, None), (''circle'', 718, Some 719, Some 24),
      (''cstring'', 2275, Some 1263, None), (''date'', 1082, Some 1182, Some 4),
      (''daterange'', 3912, Some 3913, None)]"

definition type_definitions_b :: "type_definition list" where
  "type_definitions_b =
     [(''event_trigger'', 3838, None, Some 4), (''fdw_handler'', 3115, None, Some 4),
      (''float4'', 700, Some 1021, Some 4), (''float8'', 701, Some 1022, Some 8),
      (''gtsvector'', 3642, Some 3644, None), (''index_am_handler'', 325, None, Some 4),
      (''inet'', 869, Some 1041, None), (''int2'', 21, Some 1005, Some 2),
      (''int2vector'', 22, Some 1006, None), (''int4'', 23, Some 1007, Some 4),
      (''int4range'', 3904, Some 3905, None), (''int8'', 20, Some 1016, Some 8),
      (''int8range'', 3926, Some 3927, None), (''interval'', 1186, Some 1187, Some 16),
      (''json'', 114, Some 199, None), (''jsonb'', 3802, Some 3807, None),
      (''jsonpath'', 4072, Some 4073, None), (''language_handler'', 2280, None, Some 4),
      (''line'', 628, Some 629, Some 24)]"

definition type_definitions_c :: "type_definition list" where
  "type_definitions_c =
     [(''lseg'', 601, Some 1018, Some 32), (''macaddr'', 829, Some 1040, Some 6),
      (''macaddr8'', 774, Some 775, Some 8), (''money'', 790, Some 791, Some 8),
      (''name'', 19, Some 1003, None), (''numeric'', 1700, Some 1231, None),
      (''numrange'', 3906, Some 3907, None), (''oid'', 26, Some 1028, Some 4),
      (''oidvector'', 30, Some 1013, None), (''opaque'', 2282, None, Some 4),
      (''path'', 602, Some 1019, None), (''pg_attribute'', 75, None, None),
      (''pg_class'', 83, None, None), (''pg_dependencies'', 3402, None, None),
      (''pg_lsn'', 3220, Some 3221, Some 8), (''pg_mcv_list'', 5017, None, None),
      (''pg_ndistinct'', 3361, None, None), (''pg_node_tree'', 194, None, None),
      (''pg_proc'', 81, None, None)]"

definition type_definitions_d :: "type_definition list" where
  "type_definitions_d =
     [(''pg_type'', 71, None, None), (''point'', 600, Some 1017, Some 16),
      (''polygon'', 604, Some 1027, None), (''record'', 2249, None, None),
      (''refcursor'', 1790, Some 2201, None), (''regclass'', 2205, Some 2210, Some 4),
      (''regconfig'', 3734, Some 3735, Some 4), (''regdictionary'', 3769, Some 3770, Some 4),
      (''regnamespace'', 4089, Some 4090, Some 4), (''regoper'', 2203, Some 2208, Some 4),
      (''regoperator'', 2204, Some 2209, Some 4), (''regproc'', 24, Some 1008, Some 4),
      (''regprocedure'', 2202, Some 2207, Some 4), (''regrole'', 4096, Some 4097, Some 4),
      (''regtype'', 2206, Some 2211, Some 4), (''table_am_handler'', 269, None, Some 4),
      (''text'', 25, Some 1009, None), (''tid'', 27, Some 1010, Some 6),
      (''time'', 1083, Some 1183, Some 8)]"

definition type_definitions_e :: "type_definition list" where
  "type_definitions_e =
     [(''timestamp'', 1114, Some 1115, Some 8), (''timestamptz'', 1184, Some 1185, Some 8),
      (''timetz'', 1266, Some 1270, Some 12), (''trigger'', 2279, None, Some 4),
      (''tsm_handler'', 3310, None, Some 4), (''tsquery'', 3615, Some 3645, None),
      (''tsrange'', 3908, Some 3909, None), (''tstzrange'', 3910, Some 3911, None),
      (''tsvector'', 3614, Some 3643, None), (''txid_snapshot'', 2970, Some 2949, None),
      (''unknown'', 705, None, None), (''uuid'', 2950, Some 2951, Some 16),
      (''varbit'', 1562, Some 1563, None), (''varchar'', 1043, Some 1015, None),
      (''void'', 2278, None, Some 4), (''xid'', 28, Some 1011, Some 4),
      (''xml'', 142, Some 143, None)]"

definition built_in_definitions :: "type_definition list" where
  "built_in_definitions =
     type_definitions_a @ type_definitions_b @ type_definitions_c @ type_definitions_d @ type_definitions_e"

text \<open>The library's own entry, for \<open>nullptr_t\<close> and \<open>nullopt_t\<close>: the null oid, the size of a null and no array.\<close>

definition null_definition :: type_definition where
  "null_definition = (''null'', 0, None, Some (- 1))"

definition type_definitions :: "type_definition list" where
  "type_definitions = null_definition # built_in_definitions"

text \<open>\<open>array_definition\<close>, with its specialisation for \<open>record\<close>.\<close>

definition array_definition :: "string \<Rightarrow> (string \<times> int) option" where
  "array_definition n =
     (if n = ''record'' then Some (''_record'', 2287)
      else case map_of type_definitions n of Some (_, Some array_oid, _) \<Rightarrow> Some (n @ ''[]'', array_oid) | _ \<Rightarrow> None)"

text \<open>The name a C++ type is bound to by the uses of \<open>BOZO_PG_BIND_TYPE\<close> in \<open>pg/types/*.h\<close> (char.h:9, integer.h:16-18,
  oid.h:9, bool.h:10, float.h:14-15, bytea.h:12, json.h:12, jsonb.h:71, name.h:12), \<open>ext/std/string.h\<close> (18, 33),
  \<open>ext/std/time_point.h\<close> (49) and \<open>ext/boost/uuid.h\<close> (41), and by the hand-written definitions of
  \<open>ext/std/tuple.h\<close> (record) and \<open>ext/std/duration.h\<close> (interval). Custom types are not in the table.\<close>

fun bound_type_name :: "cpp_type \<Rightarrow> string option" where
  "bound_type_name T_char = Some ''char''"
| "bound_type_name T_int2 = Some ''int2''"
| "bound_type_name T_int4 = Some ''int4''"
| "bound_type_name T_int8 = Some ''int8''"
| "bound_type_name T_oid = Some ''oid''"
| "bound_type_name T_bool = Some ''bool''"
| "bound_type_name T_float4 = Some ''float4''"
| "bound_type_name T_float8 = Some ''float8''"
| "bound_type_name (T_string text_kind) = Some ''text''"
| "bound_type_name (T_string bytea_kind) = Some ''bytea''"
| "bound_type_name (T_string json_kind) = Some ''json''"
| "bound_type_name (T_string name_kind) = Some ''name''"
| "bound_type_name T_uuid = Some ''uuid''"
| "bound_type_name T_jsonb = Some ''jsonb''"
| "bound_type_name T_interval = Some ''interval''"
| "bound_type_name (T_time_point ticks) = Some ''timestamp''"
| "bound_type_name (T_record ts) = Some ''record''"
| "bound_type_name _ = None"

fun bound_name :: "cpp_type \<Rightarrow> string option" where
  "bound_name (T_vector e) = Option.bind (bound_type_name (unwrap_type e)) (\<lambda>n. map_option fst (array_definition n))"
| "bound_name (T_std_array e k) = Option.bind (bound_type_name (unwrap_type e)) (\<lambda>n. map_option fst (array_definition n))"
| "bound_name t = bound_type_name t"

section \<open>The traits are those of the table\<close>

text \<open>The entries the bindings use.\<close>

lemma bound_entries:
  "list_all (\<lambda>(n, d). map_of type_definitions n = Some d)
     [(''char'', 18, Some 1002, Some 1), (''int2'', 21, Some 1005, Some 2),
      (''int4'', 23, Some 1007, Some 4), (''int8'', 20, Some 1016, Some 8),
      (''oid'', 26, Some 1028, Some 4), (''bool'', 16, Some 1000, Some 1),
      (''float4'', 700, Some 1021, Some 4), (''float8'', 701, Some 1022, Some 8),
      (''text'', 25, Some 1009, None), (''bytea'', 17, Some 1001, None),
      (''json'', 114, Some 199, None), (''name'', 19, Some 1003, None),
      (''uuid'', 2950, Some 2951, Some 16), (''jsonb'', 3802, Some 3807, None),
      (''interval'', 1186, Some 1187, Some 16), (''timestamp'', 1114, Some 1115, Some 8), (''record'', 2249, None, None)]"
  by code_simp

lemmas bound_entries_simps = bound_entries [simplified]

lemma bound_lookup:
  assumes "bound_type_name t = Some n"
  shows "\<exists>oid arr size. map_of type_definitions n = Some (oid, arr, size) \<and> builtin_oid t = Some (of_int oid) \<and> type_size t = size"
  using assms by (cases t rule: bound_type_name.cases) (auto simp: bound_entries_simps)

lemma bound_array:
  assumes "bound_type_name t = Some n" "t \<noteq> T_interval"
  shows "builtin_array_oid t = map_option (\<lambda>(_, oid). of_int oid) (array_definition n)"
  using assms by (cases t rule: bound_type_name.cases) (auto simp: bound_entries_simps array_definition_def)

text \<open>Every oid of PostgreSQL's own entries, with the name of its type.\<close>

definition entry_oids :: "type_definition \<Rightarrow> (int \<times> string) list" where
  "entry_oids d =
     (case d of (n, oid, array_oid, _) \<Rightarrow>
        (oid, n) # (if n = ''record'' then [(2287, ''_record'')]
                    else case array_oid of None \<Rightarrow> [] | Some x \<Rightarrow> [(x, n @ ''[]'')]))"

definition oid_names :: "(int \<times> string) list" where
  "oid_names = concat (map entry_oids built_in_definitions)"

lemmas table_defs = built_in_definitions_def type_definitions_a_def type_definitions_b_def type_definitions_c_def
  type_definitions_d_def type_definitions_e_def

lemma oid_names_distinct: "distinct (map fst oid_names)"
  by (simp add: oid_names_def entry_oids_def table_defs)

lemma oid_names_inj: "distinct (map snd oid_names)"
  by (simp add: oid_names_def entry_oids_def table_defs)

lemma oid_names_range: "list_all (\<lambda>oid. 0 < oid \<and> oid < 2 ^ 32) (map fst oid_names)"
  by (simp add: oid_names_def entry_oids_def table_defs)

lemma built_in_entry:
  "map_of type_definitions n = Some d \<Longrightarrow> n \<noteq> ''null'' \<Longrightarrow> (n, d) \<in> set built_in_definitions"
  unfolding type_definitions_def null_definition_def by (auto dest: map_of_SomeD)

lemma bound_not_null: "bound_type_name t = Some n \<Longrightarrow> n \<noteq> ''null''"
  by (cases t rule: bound_type_name.cases) auto

lemma entry_oids_subset: "d \<in> set built_in_definitions \<Longrightarrow> x \<in> set (entry_oids d) \<Longrightarrow> x \<in> set oid_names"
  unfolding oid_names_def set_concat set_map by blast

lemma entry_in_oid_names:
  "map_of type_definitions n = Some (oid, arr, sz) \<Longrightarrow> n \<noteq> ''null'' \<Longrightarrow> (oid, n) \<in> set oid_names"
  by (drule (1) built_in_entry, erule entry_oids_subset) (simp add: entry_oids_def)

lemma array_in_oid_names:
  assumes "array_definition n = Some (a, oid)"
  shows "(oid, a) \<in> set oid_names"
proof (cases "n = ''record''")
  case True
  have "(''record'', the (map_of type_definitions ''record'')) \<in> set built_in_definitions"
    by (rule built_in_entry) (simp_all add: bound_entries_simps)
  then show ?thesis
    by (rule entry_oids_subset) (use assms True in \<open>simp add: entry_oids_def array_definition_def bound_entries_simps\<close>)
next
  case False
  then obtain o' sz where d: "map_of type_definitions n = Some (o', Some oid, sz)" "a = n @ ''[]''"
    using assms unfolding array_definition_def by (auto split: option.splits if_splits)
  have "n \<noteq> ''null''" using d(1) by (auto simp: type_definitions_def null_definition_def)
  from built_in_entry [OF d(1) this] show ?thesis
    by (rule entry_oids_subset) (use d(2) False in \<open>simp add: entry_oids_def\<close>)
qed

lemma bound_oid:
  assumes "wf_type t" "bound_name t = Some n"
  shows "\<exists>oid. (oid, n) \<in> set oid_names \<and> definition_oid t = Some (of_int oid)"
proof (cases "is_array t")
  case True
  then obtain e where e: "wf_type t \<Longrightarrow> unwrap_type e \<noteq> T_interval" "definition_oid t = builtin_array_oid (unwrap_type e)"
      "bound_name t = Option.bind (bound_type_name (unwrap_type e)) (\<lambda>n. map_option fst (array_definition n))"
    by (cases t) (auto simp: definition_oid_def)
  then obtain m oid where m: "bound_type_name (unwrap_type e) = Some m" "array_definition m = Some (n, oid)"
    using assms(2) unfolding e(3) by (auto simp: bind_eq_Some_conv)
  then show ?thesis using bound_array [OF m(1)] e assms(1) array_in_oid_names [OF m(2)] by auto
next
  case False
  then have "definition_oid t = builtin_oid t" "bound_name t = bound_type_name t"
    by (cases t; simp add: definition_oid_def)+
  then show ?thesis using bound_lookup [of t n] assms(2) bound_not_null [of t n] entry_in_oid_names by fastforce
qed

lemma of_int_oid_inject:
  "0 < x \<Longrightarrow> x < 2 ^ 32 \<Longrightarrow> 0 < y \<Longrightarrow> y < 2 ^ 32 \<Longrightarrow> (of_int x :: oid_t) = of_int y \<longleftrightarrow> x = y"
  by (simp add: word_of_int_eq_iff take_bit_int_eq_self)

text \<open>C33: the oid of a C++ type bound to a built-in type of PostgreSQL identifies that type: two types, scalars or
  arrays, have the same oid if and only if they are bound to the same PostgreSQL type. In particular no array is
  taken for an element, and no oid is null.\<close>

theorem oid_identifies_type:
  assumes "wf_type t" "bound_name t = Some n" "wf_type t'" "bound_name t' = Some n'"
  shows "(definition_oid t = definition_oid t' \<longleftrightarrow> n = n') \<and> definition_oid t \<noteq> Some null_oid"
proof -
  obtain x y where x: "(x, n) \<in> set oid_names" "definition_oid t = Some (of_int x)"
      and y: "(y, n') \<in> set oid_names" "definition_oid t' = Some (of_int y)"
    using bound_oid [OF assms(1,2)] bound_oid [OF assms(3,4)] by blast
  have r: "0 < z \<and> z < 2 ^ 32" if "(z, k) \<in> set oid_names" for z k
    using oid_names_range that by (force simp: list_all_iff)
  have "x = y \<longleftrightarrow> n = n'"
  proof
    assume "x = y"
    then show "n = n'" using x(1) y(1) oid_names_distinct by (metis map_of_is_SomeI option.inject)
  next
    assume "n = n'"
    then show "x = y" using x(1) y(1) oid_names_inj unfolding distinct_map inj_on_def by (metis Pair_inject snd_conv)
  qed
  moreover have "(of_int x :: oid_t) \<noteq> 0"
    using r [OF x(1)] by (auto simp: word_of_int_eq_0_iff dest: zdvd_imp_le)
  ultimately show ?thesis using x y r [OF x(1)] r [OF y(1)] of_int_oid_inject by (simp add: null_oid_def)
qed

theorem oid_identifies_type_witness:
  "definition_oid (T_vector (T_nullable T_int4)) \<noteq> definition_oid T_int4 \<and>
   definition_oid (T_vector T_int4) = definition_oid (T_std_array T_int4 3)"
proof -
  have a: "array_definition ''int4'' = Some (''int4[]'', 1007)" by (simp add: array_definition_def bound_entries_simps)
  have n: "bound_name (T_vector (T_nullable T_int4)) = Some ''int4[]''" "bound_name (T_vector T_int4) = Some ''int4[]''"
      "bound_name (T_std_array T_int4 3) = Some ''int4[]''" "bound_name T_int4 = Some ''int4''"
    by (simp_all add: a)
  show ?thesis
    using oid_identifies_type [OF _ n(1) _ n(4)] oid_identifies_type [OF _ n(2) _ n(3)] by simp
qed

end
