(* ===== verification/Bozo_Binary_IO.thy ===== *)
theory Bozo_Binary_IO
  imports Bozo_Types
begin

text \<open>
  \<open>io/size_of.h\<close>, \<open>io/send.h\<close>, \<open>io/recv.h\<close>, \<open>io/array.h\<close>, \<open>io/composite.h\<close> and the
  specialisations for \<open>jsonb\<close>, \<open>ltree\<close>, \<open>uuid\<close>, \<open>std::array\<close> and durations: the binary
  representation of a value, its announced size, and how it is read back. The templates the
  source selects by type are one equation per type; sizes are \<open>std::int32_t\<close> and wrap where the
  source converts. Receiving returns the exception thrown or the new value with the rest of the
  stream.
\<close>

section \<open>Sizes\<close>

definition null_state_size :: size_type where
  "null_state_size = - 1"

text \<open>\<open>data_frame_size\<close> and \<open>frame_size\<close> as functions of \<open>size_of(v)\<close>.\<close>

definition data_frame_of :: "size_type \<Rightarrow> size_type" where
  "data_frame_of sz = to_int32 (4 + max sz 0)"

definition frame_of :: "size_type \<Rightarrow> size_type" where
  "frame_of sz = to_int32 (4 + data_frame_of sz)"

text \<open>\<open>size_of_array_impl::data_size\<close>, given the data frame sizes of the elements: elements of static
  size are all taken to be as large as the first.\<close>

definition array_data_size :: "bool \<Rightarrow> size_type list \<Rightarrow> size_type" where
  "array_data_size static fs =
     (if static then (if fs = [] then 0 else to_int32 (hd fs * int (length fs)))
      else foldl (\<lambda>r f. to_int32 (r + f)) 0 fs)"

fun size_of :: "cpp_type \<Rightarrow> pg_value \<Rightarrow> size_type"
  and fields_data_size :: "size_type \<Rightarrow> cpp_type list \<Rightarrow> pg_value list \<Rightarrow> size_type" where
  "size_of T_char v = 1"
| "size_of T_int2 v = 2"
| "size_of T_int4 v = 4"
| "size_of T_int8 v = 8"
| "size_of T_oid v = 4"
| "size_of T_bool v = 1"
| "size_of T_float4 v = 4"
| "size_of T_float8 v = 8"
| "size_of (T_string k) v = (case v of V_string bs \<Rightarrow> to_int32 (int (length bs)) | _ \<Rightarrow> 0)"
| "size_of T_uuid v = 16"
| "size_of T_jsonb v = (case v of V_jsonb bs \<Rightarrow> to_int32 (int (length bs) + 1) | _ \<Rightarrow> 0)"
| "size_of T_ltree v = (case v of V_ltree bs \<Rightarrow> to_int32 (int (length bs) + 1) | _ \<Rightarrow> 0)"
| "size_of T_interval v = 16"
| "size_of (T_time_point ticks) v = 8"
| "size_of (T_nullable t) v = (case v of V_some x \<Rightarrow> size_of t x | _ \<Rightarrow> null_state_size)"
| "size_of (T_vector t) v =
     (case v of V_seq vs \<Rightarrow>
        to_int32 (12 + 8 + array_data_size (static_size t) (map (\<lambda>x. data_frame_of (size_of t x)) vs))
      | _ \<Rightarrow> 0)"
| "size_of (T_std_array t n) v =
     (case v of V_seq vs \<Rightarrow>
        to_int32 (12 + 8 + array_data_size (static_size t) (map (\<lambda>x. data_frame_of (size_of t x)) vs))
      | _ \<Rightarrow> 0)"
| "size_of (T_record ts) v =
     (case v of V_fields vs \<Rightarrow> to_int32 (4 + fields_data_size 0 ts vs) | _ \<Rightarrow> 0)"
| "size_of (T_composite n ts) v =
     (case v of V_fields vs \<Rightarrow> to_int32 (4 + fields_data_size 0 ts vs) | _ \<Rightarrow> 0)"
| "fields_data_size r (t # ts) (v # vs) = fields_data_size (to_int32 (r + frame_of (size_of t v))) ts vs"
| "fields_data_size r _ _ = r"

definition data_frame_size :: "cpp_type \<Rightarrow> pg_value \<Rightarrow> size_type" where
  "data_frame_size t v = data_frame_of (size_of t v)"

definition frame_size :: "cpp_type \<Rightarrow> pg_value \<Rightarrow> size_type" where
  "frame_size t v = frame_of (size_of t v)"

section \<open>Sending\<close>

text \<open>\<open>write(ostream&, std::int32_t)\<close> of a \<open>size_type\<close>.\<close>

definition write_int32 :: "endian \<Rightarrow> byte list \<Rightarrow> int \<Rightarrow> byte list" where
  "write_int32 native out n = ostream_write_int native out (word_of_int n :: 32 word)"

text \<open>\<open>write\<close> of the Hana structures \<open>pg_array\<close>, \<open>pg_array_dimension\<close> and \<open>pg_interval\<close>: the members in
  order.\<close>

definition write_pg_array :: "endian \<Rightarrow> byte list \<Rightarrow> int \<Rightarrow> int \<Rightarrow> oid_t \<Rightarrow> byte list" where
  "write_pg_array native out dimensions_count dataoffset elemtype =
     ostream_write_int native (write_int32 native (write_int32 native out dimensions_count) dataoffset) elemtype"

definition write_pg_array_dimension :: "endian \<Rightarrow> byte list \<Rightarrow> int \<Rightarrow> int \<Rightarrow> byte list" where
  "write_pg_array_dimension native out sz index = write_int32 native (write_int32 native out sz) index"

definition write_pg_interval :: "endian \<Rightarrow> byte list \<Rightarrow> pg_interval \<Rightarrow> byte list" where
  "write_pg_interval native out iv =
     write_int32 native
       (write_int32 native (ostream_write_int native out (word_of_int (microseconds iv) :: 64 word)) (days iv))
       (months iv)"

definition send_versioned :: "byte list \<Rightarrow> byte list \<Rightarrow> byte list" where
  "send_versioned out bs = ostream_write_raw (ostream_put out 1) bs"

text \<open>\<open>send_impl\<close> of \<open>std::chrono::system_clock::time_point\<close>; \<open>None\<close> is a signed overflow.\<close>

definition send_time_point :: "int \<Rightarrow> endian \<Rightarrow> byte list \<Rightarrow> int \<Rightarrow> byte list option" where
  "send_time_point ticks native out tp =
     map_option (\<lambda>v. ostream_write_int native out (word_of_int v :: 64 word)) (time_point_to_pg ticks tp)"

text \<open>\<open>send_impl\<close> of the types that are not containers.\<close>

definition send_scalar :: "endian \<Rightarrow> byte list \<Rightarrow> pg_value \<Rightarrow> byte list" where
  "send_scalar native out v =
     (case v of
        V_char b \<Rightarrow> ostream_put out b
      | V_int2 w \<Rightarrow> ostream_write_int native out w
      | V_int4 w \<Rightarrow> ostream_write_int native out w
      | V_int8 w \<Rightarrow> ostream_write_int native out w
      | V_oid w \<Rightarrow> ostream_write_int native out w
      | V_bool b \<Rightarrow> ostream_write_bool out b
      | V_float4 w \<Rightarrow> ostream_write_int native out w
      | V_float8 w \<Rightarrow> ostream_write_int native out w
      | V_string bs \<Rightarrow> ostream_write_raw out bs
      | V_uuid bs \<Rightarrow> ostream_write_raw out bs
      | V_jsonb bs \<Rightarrow> send_versioned out bs
      | V_ltree bs \<Rightarrow> send_versioned out bs
      | V_interval us \<Rightarrow> write_pg_interval native out (from_chrono_duration us)
      | V_time_point ticks tp \<Rightarrow> (case send_time_point ticks native out tp of Some out' \<Rightarrow> out' | None \<Rightarrow> out)
      | _ \<Rightarrow> out)"

function (sequential)
      send :: "endian \<Rightarrow> oid_map \<Rightarrow> cpp_type \<Rightarrow> byte list \<Rightarrow> pg_value \<Rightarrow> byte list"
  and send_data_frame :: "endian \<Rightarrow> oid_map \<Rightarrow> cpp_type \<Rightarrow> byte list \<Rightarrow> pg_value \<Rightarrow> byte list"
  and send_frame :: "endian \<Rightarrow> oid_map \<Rightarrow> cpp_type \<Rightarrow> byte list \<Rightarrow> pg_value \<Rightarrow> byte list"
  and send_items :: "endian \<Rightarrow> oid_map \<Rightarrow> cpp_type \<Rightarrow> byte list \<Rightarrow> pg_value list \<Rightarrow> byte list"
  and send_fields :: "endian \<Rightarrow> oid_map \<Rightarrow> cpp_type list \<Rightarrow> byte list \<Rightarrow> pg_value list \<Rightarrow> byte list" where
  "send native m t out v =
     (case t of
        T_nullable u \<Rightarrow> (case v of V_some x \<Rightarrow> send native m u out x | _ \<Rightarrow> out)
      | T_vector u \<Rightarrow>
          (case v of V_seq vs \<Rightarrow>
             send_items native m u
               (write_pg_array_dimension native (write_pg_array native out 1 0 (type_oid m u)) (int (length vs)) 0) vs
           | _ \<Rightarrow> out)
      | T_std_array u n \<Rightarrow>
          (case v of V_seq vs \<Rightarrow>
             send_items native m u
               (write_pg_array_dimension native (write_pg_array native out 1 0 (type_oid m u)) (int (length vs)) 0) vs
           | _ \<Rightarrow> out)
      | T_record ts \<Rightarrow>
          (case v of V_fields vs \<Rightarrow> send_fields native m ts (write_int32 native out (int (length ts))) vs | _ \<Rightarrow> out)
      | T_composite nm ts \<Rightarrow>
          (case v of V_fields vs \<Rightarrow> send_fields native m ts (write_int32 native out (int (length ts))) vs | _ \<Rightarrow> out)
      | _ \<Rightarrow> send_scalar native out v)"
| "send_data_frame native m t out v = send native m t (write_int32 native out (size_of t v)) v"
| "send_frame native m t out v = send_data_frame native m t (ostream_write_int native out (type_oid m t)) v"
| "send_items native m t out [] = out"
| "send_items native m t out (v # vs) = send_items native m t (send_data_frame native m t out v) vs"
| "send_fields native m (t # ts) out (v # vs) = send_fields native m ts (send_frame native m t out v) vs"
| "send_fields native m _ out _ = out"
  by pat_completeness auto
termination
  by (relation "inv_image (less_than <*lex*> less_than) (\<lambda>a. case a of
        Inl (Inl (_, _, t, _, _)) \<Rightarrow> (4 * size t, 0)
      | Inl (Inr (_, _, t, _, _)) \<Rightarrow> (4 * size t + 1, 0)
      | Inr (Inl (_, _, t, _, _)) \<Rightarrow> (4 * size t + 2, 0)
      | Inr (Inr (Inl (_, _, t, _, vs))) \<Rightarrow> (4 * size t + 3, length vs)
      | Inr (Inr (Inr (_, _, ts, _, _))) \<Rightarrow> (4 * size_list size ts + 3, 0))") auto

section \<open>Receiving\<close>

type_synonym 'a recv_result = "exn + ('a \<times> istream)"

text \<open>\<open>read(istream&, std::int32_t&)\<close> and the Hana structures.\<close>

definition read_int32 :: "endian \<Rightarrow> istream \<Rightarrow> int recv_result" where
  "read_int32 native s =
     sbind (checked (istream_read_int native s)) (\<lambda>(w :: 32 word, s). Inr (sint w, s))"

definition read_oid :: "endian \<Rightarrow> istream \<Rightarrow> oid_t recv_result" where
  "read_oid native s = checked (istream_read_int native s)"

definition read_pg_array :: "endian \<Rightarrow> istream \<Rightarrow> (int \<times> int \<times> oid_t) recv_result" where
  "read_pg_array native s =
     sbind (read_int32 native s) (\<lambda>(dimensions_count, s).
     sbind (read_int32 native s) (\<lambda>(dataoffset, s).
     sbind (read_oid native s) (\<lambda>(elemtype, s). Inr ((dimensions_count, dataoffset, elemtype), s))))"

definition read_pg_array_dimension :: "endian \<Rightarrow> istream \<Rightarrow> (int \<times> int) recv_result" where
  "read_pg_array_dimension native s =
     sbind (read_int32 native s) (\<lambda>(sz, s).
     sbind (read_int32 native s) (\<lambda>(index, s). Inr ((sz, index), s)))"

definition read_pg_interval :: "endian \<Rightarrow> istream \<Rightarrow> pg_interval recv_result" where
  "read_pg_interval native s =
     sbind (checked (istream_read_int native s)) (\<lambda>(us :: 64 word, s).
     sbind (read_int32 native s) (\<lambda>(d, s).
     sbind (read_int32 native s) (\<lambda>(mo, s).
       Inr (\<lparr>microseconds = sint us, days = d, months = mo\<rparr>, s))))"

text \<open>\<open>std::string::resize\<close>, whose argument is converted to \<open>std::size_t\<close>: a negative size is over
  \<open>max_size()\<close>.\<close>

definition resize_string :: "int \<Rightarrow> byte list \<Rightarrow> exn + byte list" where
  "resize_string n bs =
     (if n < 0 then Inl Length_error else Inr (take (nat n) bs @ replicate (nat n - length bs) 0))"

definition recv_string :: "size_type \<Rightarrow> byte list \<Rightarrow> istream \<Rightarrow> byte list recv_result" where
  "recv_string sz old s = sbind (resize_string sz old) (\<lambda>buf. checked (istream_read buf s))"

text \<open>\<open>recv_impl\<close> of \<open>jsonb\<close> and of \<open>ltree\<close>: the version is read and not looked at.\<close>

definition recv_versioned :: "size_type \<Rightarrow> byte list \<Rightarrow> istream \<Rightarrow> byte list recv_result" where
  "recv_versioned sz old s =
     (if sz < 1 then Inl Range_error
      else sbind (checked (istream_read_byte s)) (\<lambda>(version, s). recv_string (sz - 1) old s))"

definition recv_interval :: "endian \<Rightarrow> istream \<Rightarrow> int recv_result" where
  "recv_interval native s =
     sbind (read_pg_interval native s) (\<lambda>(iv, s).
       case to_chrono_duration iv of None \<Rightarrow> Inl Undefined_behaviour | Some us \<Rightarrow> Inr (us, s))"

text \<open>\<open>recv_impl\<close> of \<open>std::chrono::system_clock::time_point\<close>.\<close>

definition recv_time_point :: "int \<Rightarrow> endian \<Rightarrow> istream \<Rightarrow> int recv_result" where
  "recv_time_point ticks native s =
     sbind (checked (istream_read_int native s)) (\<lambda>(w :: 64 word, s).
       case time_point_of_pg ticks (sint w) of None \<Rightarrow> Inl Undefined_behaviour | Some tp \<Rightarrow> Inr (tp, s))"

definition mapv :: "('a \<Rightarrow> pg_value) \<Rightarrow> 'a recv_result \<Rightarrow> pg_value recv_result" where
  "mapv f r = sbind r (\<lambda>(x, s). Inr (f x, s))"

text \<open>The generic \<open>recv_impl\<close> checks the size of a type of static size before the value is read.\<close>

definition check_size :: "size_type \<Rightarrow> size_type \<Rightarrow> 'a recv_result \<Rightarrow> 'a recv_result" where
  "check_size sz expected r = (if sz \<noteq> expected then Inl (System_error bad_object_size) else r)"

definition recv_scalar :: "endian \<Rightarrow> size_type \<Rightarrow> cpp_type \<Rightarrow> pg_value \<Rightarrow> istream \<Rightarrow> pg_value recv_result" where
  "recv_scalar native sz t out s =
     (case t of
        T_char \<Rightarrow> check_size sz 1 (mapv V_char (checked (istream_read_byte s)))
      | T_int2 \<Rightarrow> check_size sz 2 (mapv V_int2 (checked (istream_read_int native s)))
      | T_int4 \<Rightarrow> check_size sz 4 (mapv V_int4 (checked (istream_read_int native s)))
      | T_int8 \<Rightarrow> check_size sz 8 (mapv V_int8 (checked (istream_read_int native s)))
      | T_oid \<Rightarrow> check_size sz 4 (mapv V_oid (checked (istream_read_int native s)))
      | T_bool \<Rightarrow> check_size sz 1 (mapv V_bool (checked (istream_read_bool s)))
      | T_float4 \<Rightarrow> check_size sz 4 (mapv V_float4 (checked (istream_read_int native s)))
      | T_float8 \<Rightarrow> check_size sz 8 (mapv V_float8 (checked (istream_read_int native s)))
      | T_string k \<Rightarrow> mapv V_string (recv_string sz (case out of V_string bs \<Rightarrow> bs | _ \<Rightarrow> []) s)
      | T_uuid \<Rightarrow> mapv V_uuid (checked (istream_read (case out of V_uuid bs \<Rightarrow> bs | _ \<Rightarrow> replicate 16 0) s))
      | T_jsonb \<Rightarrow> mapv V_jsonb (recv_versioned sz (case out of V_jsonb bs \<Rightarrow> bs | _ \<Rightarrow> []) s)
      | T_ltree \<Rightarrow> mapv V_ltree (recv_versioned sz (case out of V_ltree bs \<Rightarrow> bs | _ \<Rightarrow> []) s)
      | T_interval \<Rightarrow> mapv V_interval (recv_interval native s)
      | T_time_point ticks \<Rightarrow> mapv (V_time_point ticks) (recv_time_point ticks native s)
      | _ \<Rightarrow> Inl Undefined_behaviour)"

text \<open>\<open>fit_array_size\<close>: a vector is resized, a \<open>std::array\<close> must have the size already.\<close>

definition fit_array_size :: "cpp_type \<Rightarrow> pg_value list \<Rightarrow> size_type \<Rightarrow> exn + pg_value list" where
  "fit_array_size t vs count =
     (case t of
        T_vector u \<Rightarrow>
          (if count < 0 then Inl Length_error
           else Inr (take (nat count) vs @ replicate (nat count - length vs) (default_value u)))
      | _ \<Rightarrow> (if count \<noteq> int (length vs) then Inl (System_error bad_array_size) else Inr vs))"

definition init_nullable :: "cpp_type \<Rightarrow> pg_value \<Rightarrow> pg_value" where
  "init_nullable t out = (case out of V_some x \<Rightarrow> x | _ \<Rightarrow> default_value t)"

definition read_and_verify_header :: "endian \<Rightarrow> istream \<Rightarrow> cpp_type list \<Rightarrow> exn + istream" where
  "read_and_verify_header native s ts =
     sbind (read_int32 native s) (\<lambda>(count, s).
       if count \<noteq> int (length ts) then Inl (System_error bad_composite_size) else Inr s)"

text \<open>The headers \<open>recv_array_impl\<close> reads: \<open>None\<close> for an array without elements.\<close>

definition recv_array_header :: "endian \<Rightarrow> oid_map \<Rightarrow> cpp_type \<Rightarrow> istream \<Rightarrow> int option recv_result" where
  "recv_array_header native m u s =
     sbind (read_pg_array native s) (\<lambda>((dimensions_count, dataoffset, elemtype), s).
       if 1 < dimensions_count then Inl (System_error bad_array_dimension)
       else if \<not> accepts_oid m (unwrap_type u) elemtype then Inl (System_error oid_type_mismatch)
       else if dimensions_count < 1 then Inr (None, s)
       else sbind (read_pg_array_dimension native s) (\<lambda>((sz, index), s).
         Inr (if sz = 0 then None else Some sz, s)))"

text \<open>\<open>oid\<close> is \<open>None\<close> where the source passes \<open>null_oid\<close>, which is not checked.\<close>

function (sequential)
      recv :: "endian \<Rightarrow> oid_map \<Rightarrow> oid_t option \<Rightarrow> size_type \<Rightarrow> cpp_type \<Rightarrow> pg_value \<Rightarrow> istream \<Rightarrow> pg_value recv_result"
  and recv_impl :: "endian \<Rightarrow> oid_map \<Rightarrow> size_type \<Rightarrow> cpp_type \<Rightarrow> pg_value \<Rightarrow> istream \<Rightarrow> pg_value recv_result"
  and recv_data_frame :: "endian \<Rightarrow> oid_map \<Rightarrow> oid_t option \<Rightarrow> cpp_type \<Rightarrow> pg_value \<Rightarrow> istream \<Rightarrow> pg_value recv_result"
  and recv_frame :: "endian \<Rightarrow> oid_map \<Rightarrow> cpp_type \<Rightarrow> pg_value \<Rightarrow> istream \<Rightarrow> pg_value recv_result"
  and recv_items :: "endian \<Rightarrow> oid_map \<Rightarrow> cpp_type \<Rightarrow> pg_value list \<Rightarrow> istream \<Rightarrow> pg_value list recv_result"
  and recv_fields :: "endian \<Rightarrow> oid_map \<Rightarrow> cpp_type list \<Rightarrow> pg_value list \<Rightarrow> istream \<Rightarrow> pg_value list recv_result" where
  "recv native m oid sz t out s =
     (if is_nullable t \<and> sz = null_state_size then Inr (V_null, s)
      else if (case oid of Some i \<Rightarrow> \<not> accepts_oid m t i | None \<Rightarrow> False)
        then Inl (System_error oid_type_mismatch)
      else case t of
             T_nullable u \<Rightarrow> mapv V_some (recv_impl native m sz u (init_nullable u out) s)
           | _ \<Rightarrow> if sz = null_state_size then Inl Invalid_argument else recv_impl native m sz t out s)"
| "recv_impl native m sz t out s =
     (case t of
        T_vector u \<Rightarrow>
          sbind (recv_array_header native m u s) (\<lambda>(count, s).
            case (count, out) of
              (Some n, V_seq vs) \<Rightarrow>
                sbind (fit_array_size t vs n) (\<lambda>vs. mapv V_seq (recv_items native m u vs s))
            | _ \<Rightarrow> Inr (out, s))
      | T_std_array u k \<Rightarrow>
          sbind (recv_array_header native m u s) (\<lambda>(count, s).
            case (count, out) of
              (Some n, V_seq vs) \<Rightarrow>
                sbind (fit_array_size t vs n) (\<lambda>vs. mapv V_seq (recv_items native m u vs s))
            | _ \<Rightarrow> Inr (out, s))
      | T_record ts \<Rightarrow>
          sbind (read_and_verify_header native s ts) (\<lambda>s.
            case out of V_fields vs \<Rightarrow> mapv V_fields (recv_fields native m ts vs s) | _ \<Rightarrow> Inr (out, s))
      | T_composite nm ts \<Rightarrow>
          sbind (read_and_verify_header native s ts) (\<lambda>s.
            case out of V_fields vs \<Rightarrow> mapv V_fields (recv_fields native m ts vs s) | _ \<Rightarrow> Inr (out, s))
      | _ \<Rightarrow> recv_scalar native sz t out s)"
| "recv_data_frame native m oid t out s =
     sbind (read_int32 native s) (\<lambda>(sz, s). recv native m oid sz t out s)"
| "recv_frame native m t out s =
     sbind (read_oid native s) (\<lambda>(oid, s). recv_data_frame native m (Some oid) t out s)"
| "recv_items native m t [] s = Inr ([], s)"
| "recv_items native m t (v # vs) s =
     sbind (recv_data_frame native m None t v s) (\<lambda>(x, s).
     sbind (recv_items native m t vs s) (\<lambda>(xs, s). Inr (x # xs, s)))"
| "recv_fields native m (t # ts) (v # vs) s =
     sbind (recv_frame native m t v s) (\<lambda>(x, s).
     sbind (recv_fields native m ts vs s) (\<lambda>(xs, s). Inr (x # xs, s)))"
| "recv_fields native m _ vs s = Inr (vs, s)"
  by pat_completeness auto
termination
  by (relation "inv_image (less_than <*lex*> less_than) (\<lambda>a. case a of
        Inl (Inl (_, _, _, _, t, _)) \<Rightarrow> (8 * size t + 1, 0)
      | Inl (Inr (Inl (_, _, _, t, _))) \<Rightarrow> (8 * size t, 0)
      | Inl (Inr (Inr (_, _, _, t, _, _))) \<Rightarrow> (8 * size t + 2, 0)
      | Inr (Inl (_, _, t, _, _)) \<Rightarrow> (8 * size t + 3, 0)
      | Inr (Inr (Inl (_, _, t, vs, _))) \<Rightarrow> (8 * size t + 4, length vs)
      | Inr (Inr (Inr (_, _, ts, _, _))) \<Rightarrow> (8 * size_list size ts + 4, 0))") auto

section \<open>Bytes on the wire\<close>

declare send.simps [simp del] recv.simps [simp del] recv_impl.simps [simp del]

lemma write_int32_append: "write_int32 native out n = out @ be_bytes (word_of_int n :: 32 word)"
  by (simp add: write_int32_def ostream_write_int_be)

lemmas write_appends [io_simps] =
  write_int32_append ostream_write_raw_def ostream_put_def ostream_write_bool_def
  write_pg_array_def write_pg_array_dimension_def write_pg_interval_def send_versioned_def

lemma send_time_point_append:
  "(case send_time_point ticks native out tp of Some out' \<Rightarrow> out' | None \<Rightarrow> out) =
     out @ (case send_time_point ticks native [] tp of Some out' \<Rightarrow> out' | None \<Rightarrow> [])"
  by (cases "time_point_to_pg ticks tp") (simp_all add: send_time_point_def ostream_write_int_be)

lemma send_scalar_append: "send_scalar native out v = out @ send_scalar native [] v"
  by (cases v) (simp_all add: send_scalar_def io_simps ostream_write_int_be send_time_point_append [where out = out])

definition wire :: "endian \<Rightarrow> oid_map \<Rightarrow> cpp_type \<Rightarrow> pg_value \<Rightarrow> byte list" where
  "wire native m t v = send native m t [] v"

definition data_frame_wire :: "endian \<Rightarrow> oid_map \<Rightarrow> cpp_type \<Rightarrow> pg_value \<Rightarrow> byte list" where
  "data_frame_wire native m t v = be_bytes (word_of_int (size_of t v) :: 32 word) @ wire native m t v"

definition frame_wire :: "endian \<Rightarrow> oid_map \<Rightarrow> cpp_type \<Rightarrow> pg_value \<Rightarrow> byte list" where
  "frame_wire native m t v = be_bytes (type_oid m t) @ data_frame_wire native m t v"

lemma send_data_frame_append:
  assumes "\<And>out x. send native m t out x = out @ send native m t [] x"
  shows "send_data_frame native m t out v = out @ data_frame_wire native m t v"
  using assms [of "write_int32 native out (size_of t v)" v]
  by (simp add: data_frame_wire_def wire_def write_int32_append)

lemma send_frame_append:
  assumes "\<And>out x. send native m t out x = out @ send native m t [] x"
  shows "send_frame native m t out v = out @ frame_wire native m t v"
  by (simp add: send_data_frame_append [OF assms] frame_wire_def ostream_write_int_be
      del: send_data_frame.simps)

lemma send_items_append:
  assumes "\<And>out x. send native m t out x = out @ send native m t [] x"
  shows "send_items native m t out vs = out @ concat (map (data_frame_wire native m t) vs)"
  by (induction vs arbitrary: out) (simp_all add: send_data_frame_append [OF assms] del: send_data_frame.simps)

lemma send_fields_append:
  assumes "\<And>t out x. t \<in> set ts \<Longrightarrow> send native m t out x = out @ send native m t [] x"
  shows "send_fields native m ts out vs = out @ concat (map2 (frame_wire native m) ts vs)"
  using assms
proof (induction ts arbitrary: out vs)
  case (Cons t ts)
  have "send_frame native m t out v = out @ frame_wire native m t v" for v
    by (rule send_frame_append) (rule Cons.prems, simp)
  moreover have "send_fields native m ts out' vs' = out' @ concat (map2 (frame_wire native m) ts vs')" for out' vs'
    by (rule Cons.IH) (rule Cons.prems, simp)
  ultimately show ?case by (cases vs) (simp_all del: send_frame.simps)
qed simp

lemma send_append: "send native m t out v = out @ send native m t [] v"
proof (induction t arbitrary: out v)
  case (T_nullable t)
  show ?case by (subst (1 2) send.simps) (simp add: T_nullable [of out] split: pg_value.split)
next
  case (T_vector t)
  show ?case
    by (subst (1 2) send.simps)
      (simp split: pg_value.split add: send_items_append [OF T_vector] io_simps ostream_write_int_be)
next
  case (T_std_array t n)
  show ?case
    by (subst (1 2) send.simps)
      (simp split: pg_value.split add: send_items_append [OF T_std_array] io_simps ostream_write_int_be)
next
  case (T_record ts)
  show ?case
    by (subst (1 2) send.simps)
      (simp split: pg_value.split add: send_fields_append [OF T_record] io_simps)
next
  case (T_composite nm ts)
  show ?case
    by (subst (1 2) send.simps)
      (simp split: pg_value.split add: send_fields_append [OF T_composite] io_simps)
qed (subst (1 2) send.simps, simp, rule send_scalar_append)+

lemma wire_simps:
  "wire native m (T_nullable t) V_null = []"
  "wire native m (T_nullable t) (V_some x) = wire native m t x"
  "wire native m (T_vector t) (V_seq vs) =
     be_bytes (1 :: 32 word) @ be_bytes (0 :: 32 word) @ be_bytes (type_oid m t) @
     be_bytes (word_of_nat (length vs) :: 32 word) @ be_bytes (0 :: 32 word) @
     concat (map (data_frame_wire native m t) vs)"
  "wire native m (T_std_array t n) (V_seq vs) =
     be_bytes (1 :: 32 word) @ be_bytes (0 :: 32 word) @ be_bytes (type_oid m t) @
     be_bytes (word_of_nat (length vs) :: 32 word) @ be_bytes (0 :: 32 word) @
     concat (map (data_frame_wire native m t) vs)"
  "wire native m (T_record ts) (V_fields vs) =
     be_bytes (word_of_nat (length ts) :: 32 word) @ concat (map2 (frame_wire native m) ts vs)"
  "wire native m (T_composite nm ts) (V_fields vs) =
     be_bytes (word_of_nat (length ts) :: 32 word) @ concat (map2 (frame_wire native m) ts vs)"
  by (simp_all add: wire_def, (subst send.simps,
      simp add: send_items_append [OF send_append] send_fields_append [OF send_append] io_simps
        ostream_write_int_be)+)

fun is_scalar :: "cpp_type \<Rightarrow> bool" where
  "is_scalar (T_nullable t) = False"
| "is_scalar (T_vector t) = False"
| "is_scalar (T_std_array t n) = False"
| "is_scalar (T_record ts) = False"
| "is_scalar (T_composite nm ts) = False"
| "is_scalar _ = True"

lemma wire_scalar: "is_scalar t \<Longrightarrow> wire native m t v = send_scalar native [] v"
  by (cases t rule: is_scalar.cases) (simp_all add: wire_def send.simps)

end
