(* ===== verification/Bozo_Wire.thy ===== *)
theory Bozo_Wire
  imports Bozo_Binary_IO
begin

text \<open>
  What the binary representation of \<open>Bozo_Binary_IO\<close> guarantees: the announced size is the number
  of bytes sent, a value that was sent is received unchanged, and what cannot be received is
  reported by the documented error.
\<close>

section \<open>How large a value is\<close>

text \<open>An upper bound of the size of a value in which a null of a static-size type counts as much as
  a value: the bound no intermediate of \<open>size_of\<close> exceeds.\<close>

fun payload_bound :: "cpp_type \<Rightarrow> pg_value \<Rightarrow> int" where
  "payload_bound (T_string k) v = (case v of V_string bs \<Rightarrow> int (length bs) | _ \<Rightarrow> 0)"
| "payload_bound T_jsonb v = (case v of V_jsonb bs \<Rightarrow> int (length bs) + 1 | _ \<Rightarrow> 0)"
| "payload_bound T_ltree v = (case v of V_ltree bs \<Rightarrow> int (length bs) + 1 | _ \<Rightarrow> 0)"
| "payload_bound (T_nullable t) v =
     (case v of V_some x \<Rightarrow> payload_bound t x
      | _ \<Rightarrow> (case type_size t of Some k \<Rightarrow> k | None \<Rightarrow> 0))"
| "payload_bound (T_vector t) v =
     (case v of V_seq vs \<Rightarrow> 20 + sum_list (map (\<lambda>x. 4 + payload_bound t x) vs) | _ \<Rightarrow> 0)"
| "payload_bound (T_std_array t n) v =
     (case v of V_seq vs \<Rightarrow> 20 + sum_list (map (\<lambda>x. 4 + payload_bound t x) vs) | _ \<Rightarrow> 0)"
| "payload_bound (T_record ts) v =
     (case v of V_fields vs \<Rightarrow> 4 + sum_list (map2 (\<lambda>f x. 8 + f x) (map payload_bound ts) vs) | _ \<Rightarrow> 0)"
| "payload_bound (T_composite nm ts) v =
     (case v of V_fields vs \<Rightarrow> 4 + sum_list (map2 (\<lambda>f x. 8 + f x) (map payload_bound ts) vs) | _ \<Rightarrow> 0)"
| "payload_bound t v = (case type_size t of Some k \<Rightarrow> k | None \<Rightarrow> 0)"

definition fits :: "cpp_type \<Rightarrow> pg_value \<Rightarrow> bool" where
  "fits t v \<longleftrightarrow> payload_bound t v < 2 ^ 31"

lemma type_size_pos: "type_size t = Some k \<Longrightarrow> 0 < k"
  by (induction t) auto

lemma sum_map2_nonneg:
  "(\<And>f x. f \<in> set fs \<Longrightarrow> 0 \<le> f x) \<Longrightarrow> 0 \<le> sum_list (map2 (\<lambda>f x. 8 + f x :: int) fs vs)"
  by (intro sum_list_nonneg) (auto dest!: set_zip_leftD simp: add_nonneg_nonneg)

lemma payload_bound_nonneg: "0 \<le> payload_bound t v"
proof (induction t arbitrary: v)
  case (T_nullable t)
  then show ?case by (auto split: pg_value.split option.split dest: type_size_pos)
next
  case (T_record ts)
  then show ?case by (auto split: pg_value.split intro!: add_nonneg_nonneg sum_map2_nonneg)
next
  case (T_composite nm ts)
  then show ?case by (auto split: pg_value.split intro!: add_nonneg_nonneg sum_map2_nonneg)
qed (auto split: pg_value.split intro!: add_nonneg_nonneg sum_list_nonneg)

lemma payload_bound_static:
  "static_size t \<Longrightarrow> has_type t v \<Longrightarrow> payload_bound t v = the (type_size t)"
  by (induction t arbitrary: v) (auto simp: static_size_def split: option.split)

lemma sum_list_ge_member: "x \<in> set xs \<Longrightarrow> (\<And>y. y \<in> set xs \<Longrightarrow> 0 \<le> y) \<Longrightarrow> x \<le> sum_list (xs :: int list)"
  by (induction xs) (auto intro: add_increasing add_increasing2 sum_list_nonneg)

lemma fits_item:
  assumes "20 + sum_list (map (\<lambda>x. 4 + payload_bound t x) vs) < 2 ^ 31" and "x \<in> set vs"
  shows "fits t x"
proof -
  have "4 + payload_bound t x \<le> sum_list (map (\<lambda>x. 4 + payload_bound t x) vs)"
    using assms(2) payload_bound_nonneg by (intro sum_list_ge_member) (auto simp: add_nonneg_nonneg)
  with assms(1) show ?thesis by (simp add: fits_def)
qed

lemma fits_field:
  assumes "4 + sum_list (map2 (\<lambda>f x. 8 + f x) (map payload_bound ts) vs) < 2 ^ 31"
    and "(t, x) \<in> set (zip ts vs)"
  shows "fits t x"
proof -
  have "8 + payload_bound t x \<le> sum_list (map2 (\<lambda>f x. 8 + f x) (map payload_bound ts) vs)"
    using assms(2) payload_bound_nonneg
    by (intro sum_list_ge_member) (auto simp: add_nonneg_nonneg zip_map1 image_iff Bex_def)
  with assms(1) show ?thesis by (simp add: fits_def)
qed

section \<open>\<open>size_of\<close> without wrap-around\<close>

text \<open>The size a value takes: nothing for a null.\<close>

definition pos_size :: "cpp_type \<Rightarrow> pg_value \<Rightarrow> int" where
  "pos_size t v = max (size_of t v) 0"

definition size_bounded :: "cpp_type \<Rightarrow> pg_value \<Rightarrow> bool" where
  "size_bounded t v \<longleftrightarrow> (if is_null t v then size_of t v = null_state_size
     else 0 \<le> size_of t v \<and> size_of t v \<le> payload_bound t v)"

lemma pos_size_bounds: "size_bounded t v \<Longrightarrow> 0 \<le> pos_size t v \<and> pos_size t v \<le> payload_bound t v"
  using payload_bound_nonneg [of t v]
  by (auto simp: size_bounded_def pos_size_def null_state_size_def split: if_splits)

lemma data_frame_of_eq:
  "size_bounded t x \<Longrightarrow> 4 + payload_bound t x < 2 ^ 31 \<Longrightarrow> data_frame_of (size_of t x) = 4 + pos_size t x"
  using pos_size_bounds [of t x] by (simp add: data_frame_of_def pos_size_def)

lemma frame_of_eq:
  "size_bounded t x \<Longrightarrow> 8 + payload_bound t x < 2 ^ 31 \<Longrightarrow> frame_of (size_of t x) = 8 + pos_size t x"
  using pos_size_bounds [of t x] by (simp add: frame_of_def data_frame_of_eq)

lemma foldl_to_int32:
  "(\<And>f. f \<in> set fs \<Longrightarrow> 0 \<le> f) \<Longrightarrow> 0 \<le> r \<Longrightarrow> r + sum_list fs < 2 ^ 31 \<Longrightarrow>
     foldl (\<lambda>r f. to_int32 (r + f)) r fs = r + sum_list fs"
proof (induction fs arbitrary: r)
  case (Cons f fs)
  have "0 \<le> sum_list fs" "0 \<le> f" using Cons.prems(1) by (auto intro: sum_list_nonneg)
  moreover from this Cons.prems(2,3) have "to_int32 (r + f) = r + f" by simp
  ultimately show ?case using Cons by (simp add: add.assoc)
qed simp

lemma array_data_size_dynamic:
  assumes "\<And>x. x \<in> set vs \<Longrightarrow> size_bounded t x"
    and "20 + sum_list (map (\<lambda>x. 4 + payload_bound t x) vs) < 2 ^ 31"
  shows "array_data_size False (map (\<lambda>x. data_frame_of (size_of t x)) vs) =
           sum_list (map (\<lambda>x. 4 + pos_size t x) vs)"
proof -
  have frames: "data_frame_of (size_of t x) = 4 + pos_size t x" if "x \<in> set vs" for x
  proof -
    have "4 + payload_bound t x \<le> sum_list (map (\<lambda>x. 4 + payload_bound t x) vs)"
      using that payload_bound_nonneg by (intro sum_list_ge_member) (auto simp: add_nonneg_nonneg)
    with assms that show ?thesis by (intro data_frame_of_eq) auto
  qed
  have eq: "map (\<lambda>x. data_frame_of (size_of t x)) vs = map (\<lambda>x. 4 + pos_size t x) vs"
    using frames by simp
  have "sum_list (map (\<lambda>x. 4 + pos_size t x) vs) \<le> sum_list (map (\<lambda>x. 4 + payload_bound t x) vs)"
    using assms(1) pos_size_bounds by (intro sum_list_mono) auto
  then have "foldl (\<lambda>r f. to_int32 (r + f)) 0 (map (\<lambda>x. 4 + pos_size t x) vs) =
      0 + sum_list (map (\<lambda>x. 4 + pos_size t x) vs)"
    using assms pos_size_bounds by (intro foldl_to_int32) (auto simp: pos_size_def)
  then show ?thesis unfolding array_data_size_def eq by simp
qed

text \<open>Elements of static size: the product counts every element like the first.\<close>

lemma array_data_size_static:
  assumes "\<And>x. x \<in> set vs \<Longrightarrow> size_bounded t x" "\<And>x. x \<in> set vs \<Longrightarrow> has_type t x" "static_size t"
    and "20 + sum_list (map (\<lambda>x. 4 + payload_bound t x) vs) < 2 ^ 31"
  shows "array_data_size True (map (\<lambda>x. data_frame_of (size_of t x)) vs) =
           (if vs = [] then 0 else (4 + pos_size t (hd vs)) * int (length vs))"
    and "vs \<noteq> [] \<Longrightarrow> (4 + pos_size t (hd vs)) * int (length vs) \<le> sum_list (map (\<lambda>x. 4 + payload_bound t x) vs)"
proof -
  let ?k = "the (type_size t)"
  have "map (\<lambda>x. 4 + payload_bound t x) vs = map (\<lambda>x. 4 + ?k) vs"
    using assms(2,3) by (auto simp: payload_bound_static)
  then have "sum_list (map (\<lambda>x. 4 + payload_bound t x) vs) = sum_list (map (\<lambda>x. 4 + ?k) vs)"
    by (rule arg_cong)
  then have sum: "sum_list (map (\<lambda>x. 4 + payload_bound t x) vs) = (4 + ?k) * int (length vs)"
    by (simp add: sum_list_triv)
  have le: "0 \<le> pos_size t (hd vs) \<and> pos_size t (hd vs) \<le> ?k" if "vs \<noteq> []"
    using that assms(1-3) pos_size_bounds [of t "hd vs"] by (simp add: payload_bound_static)
  show prod: "(4 + pos_size t (hd vs)) * int (length vs) \<le> sum_list (map (\<lambda>x. 4 + payload_bound t x) vs)"
    if "vs \<noteq> []" unfolding sum using le [OF that] by (intro mult_right_mono) auto
  show "array_data_size True (map (\<lambda>x. data_frame_of (size_of t x)) vs) =
           (if vs = [] then 0 else (4 + pos_size t (hd vs)) * int (length vs))"
  proof (cases vs)
    case (Cons x xs)
    have "4 + payload_bound t x \<le> sum_list (map (\<lambda>x. 4 + payload_bound t x) vs)"
      using Cons payload_bound_nonneg by (intro sum_list_ge_member) (auto simp: add_nonneg_nonneg)
    then have f: "data_frame_of (size_of t x) = 4 + pos_size t x"
      using assms(1,4) Cons by (intro data_frame_of_eq) auto
    have "0 \<le> (4 + pos_size t x) * int (length vs)" using le Cons by simp
    moreover have "(4 + pos_size t x) * int (length vs) < 2 ^ 31" using prod assms(4) Cons by simp
    ultimately have "to_int32 ((4 + pos_size t x) * int (length vs)) = (4 + pos_size t x) * int (length vs)"
      by (intro to_int32_id) auto
    then show ?thesis using Cons f by (simp add: array_data_size_def)
  qed (simp add: array_data_size_def)
qed

lemma fields_data_size_eq:
  assumes "\<And>t x. (t, x) \<in> set (zip ts vs) \<Longrightarrow> size_bounded t x" and "0 \<le> r"
    and "r + sum_list (map2 (\<lambda>f x. 8 + f x) (map payload_bound ts) vs) < 2 ^ 31"
  shows "fields_data_size r ts vs = r + sum_list (map2 (\<lambda>t x. 8 + pos_size t x) ts vs) \<and>
         sum_list (map2 (\<lambda>t x. 8 + pos_size t x) ts vs) \<le> sum_list (map2 (\<lambda>f x. 8 + f x) (map payload_bound ts) vs)"
  using assms
proof (induction ts arbitrary: vs r)
  case (Cons t ts)
  show ?case
  proof (cases vs)
    case vs: (Cons v vs')
    have n: "0 \<le> sum_list (map2 (\<lambda>f x. 8 + f x) (map payload_bound ts) vs')"
      using payload_bound_nonneg by (intro sum_map2_nonneg) auto
    have b: "size_bounded t v" using Cons.prems(1) vs by simp
    have f: "frame_of (size_of t v) = 8 + pos_size t v"
      using Cons.prems(2,3) vs n by (intro frame_of_eq b) auto
    have "to_int32 (r + (8 + pos_size t v)) = r + (8 + pos_size t v)"
      using Cons.prems(2,3) vs n pos_size_bounds [OF b] by (intro to_int32_id) auto
    then show ?thesis
      using Cons.IH [of vs' "r + (8 + pos_size t v)"] Cons.prems vs n f pos_size_bounds [OF b] by auto
  qed simp
qed simp

lemma array_size_bounds:
  assumes "\<And>x. x \<in> set vs \<Longrightarrow> size_bounded t x" "\<And>x. x \<in> set vs \<Longrightarrow> has_type t x"
    and "20 + sum_list (map (\<lambda>x. 4 + payload_bound t x) vs) < 2 ^ 31"
  defines "d \<equiv> array_data_size (static_size t) (map (\<lambda>x. data_frame_of (size_of t x)) vs)"
  shows "0 \<le> d" "d \<le> sum_list (map (\<lambda>x. 4 + payload_bound t x) vs)"
proof -
  have pos: "0 \<le> pos_size t x" for x by (simp add: pos_size_def)
  have "sum_list (map (\<lambda>x. 4 + pos_size t x) vs) \<le> sum_list (map (\<lambda>x. 4 + payload_bound t x) vs)"
    using assms(1) pos_size_bounds by (intro sum_list_mono) auto
  moreover have "0 \<le> sum_list (map (\<lambda>x. 4 + pos_size t x) vs)"
    using pos by (intro sum_list_nonneg) (auto simp: add_nonneg_nonneg)
  ultimately have "0 \<le> d \<and> d \<le> sum_list (map (\<lambda>x. 4 + payload_bound t x) vs)"
    using array_data_size_static [of vs t, OF assms(1,2) _ assms(3)] pos
      array_data_size_dynamic [of vs t, OF assms(1,3)]
    by (cases "static_size t") (auto simp: d_def add_nonneg_nonneg)
  then show "0 \<le> d" "d \<le> sum_list (map (\<lambda>x. 4 + payload_bound t x) vs)" by auto
qed

lemma has_type_seq_items: "list_all (has_type t) vs \<Longrightarrow> x \<in> set vs \<Longrightarrow> has_type t x"
  by (simp add: list_all_iff)

lemma has_type_fields: "list_all2 has_type ts vs \<Longrightarrow> (t, x) \<in> set (zip ts vs) \<Longrightarrow> has_type t x \<and> t \<in> set ts"
  by (auto simp: list_all2_iff dest: set_zip_leftD)

lemma size_bounded_array:
  assumes "\<And>x. has_type t x \<Longrightarrow> fits t x \<Longrightarrow> size_bounded t x" "list_all (has_type t) vs"
    and "20 + sum_list (map (\<lambda>x. 4 + payload_bound t x) vs) < 2 ^ 31"
  shows "0 \<le> to_int32 (12 + 8 + array_data_size (static_size t) (map (\<lambda>x. data_frame_of (size_of t x)) vs)) \<and>
     to_int32 (12 + 8 + array_data_size (static_size t) (map (\<lambda>x. data_frame_of (size_of t x)) vs))
       \<le> 20 + sum_list (map (\<lambda>x. 4 + payload_bound t x) vs)"
  using array_size_bounds [of vs t] assms fits_item [OF assms(3)] has_type_seq_items by simp

lemma size_bounded_fields:
  assumes "\<And>t x. t \<in> set ts \<Longrightarrow> has_type t x \<Longrightarrow> fits t x \<Longrightarrow> size_bounded t x" "list_all2 has_type ts vs"
    and "4 + sum_list (map2 (\<lambda>f x. 8 + f x) (map payload_bound ts) vs) < 2 ^ 31"
  shows "to_int32 (4 + fields_data_size 0 ts vs) = 4 + sum_list (map2 (\<lambda>t x. 8 + pos_size t x) ts vs) \<and>
     0 \<le> sum_list (map2 (\<lambda>t x. 8 + pos_size t x) ts vs) \<and>
     4 + sum_list (map2 (\<lambda>t x. 8 + pos_size t x) ts vs)
       \<le> 4 + sum_list (map2 (\<lambda>f x. 8 + f x) (map payload_bound ts) vs)"
proof -
  have "size_bounded t x" if "(t, x) \<in> set (zip ts vs)" for t x
    using assms(1) has_type_fields [OF assms(2) that] fits_field [OF assms(3) that] by auto
  then have eq: "fields_data_size 0 ts vs = 0 + sum_list (map2 (\<lambda>t x. 8 + pos_size t x) ts vs) \<and>
      sum_list (map2 (\<lambda>t x. 8 + pos_size t x) ts vs) \<le> sum_list (map2 (\<lambda>f x. 8 + f x) (map payload_bound ts) vs)"
    using assms(3) by (intro fields_data_size_eq) auto
  have pos: "0 \<le> sum_list (map2 (\<lambda>t x. 8 + pos_size t x) ts vs)"
    by (intro sum_list_nonneg) (auto simp: pos_size_def add_nonneg_nonneg)
  show ?thesis using eq pos assms(3) by simp
qed

lemma size_bounded: "wf_type t \<Longrightarrow> has_type t v \<Longrightarrow> fits t v \<Longrightarrow> size_bounded t v"
proof (induction t arbitrary: v)
  case (T_nullable t)
  then consider "v = V_null" | x where "v = V_some x" "has_type t x" "fits t x" by (auto simp: fits_def)
  then show ?case
    using T_nullable.IH T_nullable.prems(1) by cases (auto simp: size_bounded_def is_null_def)
next
  case (T_vector t)
  then obtain vs where vs: "v = V_seq vs" "list_all (has_type t) vs" by auto
  show ?case
    using size_bounded_array [OF T_vector.IH vs(2)] T_vector.prems(1,3) vs(1)
    by (simp add: size_bounded_def is_null_def fits_def)
next
  case (T_std_array t n)
  then obtain vs where vs: "v = V_seq vs" "list_all (has_type t) vs" by auto
  show ?case
    using size_bounded_array [OF T_std_array.IH vs(2)] T_std_array.prems(1,3) vs(1)
    by (simp add: size_bounded_def is_null_def fits_def)
next
  case (T_record ts)
  then obtain vs where vs: "v = V_fields vs" "list_all2 has_type ts vs" by auto
  show ?case
    using size_bounded_fields [OF T_record.IH vs(2)] T_record.prems(1,3) vs(1)
    by (simp add: size_bounded_def is_null_def fits_def list_all_iff)
next
  case (T_composite nm ts)
  then obtain vs where vs: "v = V_fields vs" "list_all2 has_type ts vs" by auto
  show ?case
    using size_bounded_fields [OF T_composite.IH vs(2)] T_composite.prems(1,3) vs(1)
    by (simp add: size_bounded_def is_null_def fits_def list_all_iff)
qed (auto simp: size_bounded_def is_null_def fits_def)

section \<open>The announced size is the number of bytes sent\<close>

text \<open>No array of static-size elements mixes nulls and values.\<close>

fun uniform_nulls :: "cpp_type \<Rightarrow> pg_value \<Rightarrow> bool" where
  "uniform_nulls (T_nullable t) v = (case v of V_some x \<Rightarrow> uniform_nulls t x | _ \<Rightarrow> True)"
| "uniform_nulls (T_vector t) v =
     (case v of V_seq vs \<Rightarrow> list_all (uniform_nulls t) vs \<and>
        (static_size t \<longrightarrow> list_all (\<lambda>x. x = V_null) vs \<or> list_all (\<lambda>x. x \<noteq> V_null) vs) | _ \<Rightarrow> True)"
| "uniform_nulls (T_std_array t n) v =
     (case v of V_seq vs \<Rightarrow> list_all (uniform_nulls t) vs \<and>
        (static_size t \<longrightarrow> list_all (\<lambda>x. x = V_null) vs \<or> list_all (\<lambda>x. x \<noteq> V_null) vs) | _ \<Rightarrow> True)"
| "uniform_nulls (T_record ts) v =
     (case v of V_fields vs \<Rightarrow> list_all (\<lambda>(f, x). f x) (zip (map uniform_nulls ts) vs) | _ \<Rightarrow> True)"
| "uniform_nulls (T_composite nm ts) v =
     (case v of V_fields vs \<Rightarrow> list_all (\<lambda>(f, x). f x) (zip (map uniform_nulls ts) vs) | _ \<Rightarrow> True)"
| "uniform_nulls t v = True"

lemma size_of_static:
  "static_size t \<Longrightarrow> has_type t x \<Longrightarrow> wf_type t \<Longrightarrow> size_of t x = (if x = V_null then null_state_size else the (type_size t))"
proof (induction t arbitrary: x)
  case (T_nullable t)
  then show ?case by (cases t rule: is_nullable.cases) (auto simp: static_size_def)
qed (auto simp: static_size_def)

lemma pos_size_uniform:
  assumes "static_size t" "wf_type t" "list_all (has_type t) vs" "vs \<noteq> []"
    and "list_all (\<lambda>x. x = V_null) vs \<or> list_all (\<lambda>x. x \<noteq> V_null) vs"
  shows "(4 + pos_size t (hd vs)) * int (length vs) = sum_list (map (\<lambda>x. 4 + pos_size t x) vs)"
proof -
  have "pos_size t x = pos_size t (hd vs)" if "x \<in> set vs" for x
    using that assms size_of_static [OF assms(1) _ assms(2), of x] size_of_static [OF assms(1) _ assms(2), of "hd vs"]
    by (auto simp: pos_size_def list_all_iff)
  then have "map (\<lambda>x. 4 + pos_size t x) vs = map (\<lambda>x. 4 + pos_size t (hd vs)) vs" by simp
  then have "sum_list (map (\<lambda>x. 4 + pos_size t x) vs) = sum_list (map (\<lambda>x. 4 + pos_size t (hd vs)) vs)"
    by (rule arg_cong)
  then show ?thesis by (simp add: sum_list_triv)
qed

lemma length_data_frame_wire: "length (data_frame_wire native m t v) = 4 + length (wire native m t v)"
  by (simp add: data_frame_wire_def)

lemma length_frame_wire: "length (frame_wire native m t v) = 8 + length (wire native m t v)"
  by (simp add: frame_wire_def length_data_frame_wire)

lemma length_items_wire:
  assumes "\<And>x. x \<in> set vs \<Longrightarrow> int (length (wire native m t x)) = pos_size t x"
  shows "int (length (concat (map (data_frame_wire native m t) vs))) = sum_list (map (\<lambda>x. 4 + pos_size t x) vs)"
  using assms by (induction vs) (simp_all add: length_data_frame_wire)

lemma length_fields_wire:
  assumes "\<And>t x. (t, x) \<in> set (zip ts vs) \<Longrightarrow> int (length (wire native m t x)) = pos_size t x"
  shows "int (length (concat (map2 (frame_wire native m) ts vs))) = sum_list (map2 (\<lambda>t x. 8 + pos_size t x) ts vs)"
  using assms
proof (induction ts arbitrary: vs)
  case (Cons t ts)
  then show ?case by (cases vs) (simp_all add: length_frame_wire)
qed simp

lemma array_size_of:
  assumes "wf_type t" "list_all (has_type t) vs"
    and "20 + sum_list (map (\<lambda>x. 4 + payload_bound t x) vs) < 2 ^ 31"
    and "static_size t \<longrightarrow> list_all (\<lambda>x. x = V_null) vs \<or> list_all (\<lambda>x. x \<noteq> V_null) vs"
  shows "to_int32 (12 + 8 + array_data_size (static_size t) (map (\<lambda>x. data_frame_of (size_of t x)) vs)) =
           20 + sum_list (map (\<lambda>x. 4 + pos_size t x) vs)"
proof -
  have b: "size_bounded t x" "has_type t x" if "x \<in> set vs" for x
    using size_bounded assms(1,2) fits_item [OF assms(3) that] that by (auto simp: list_all_iff)
  have "array_data_size (static_size t) (map (\<lambda>x. data_frame_of (size_of t x)) vs) =
      sum_list (map (\<lambda>x. 4 + pos_size t x) vs)"
    using array_data_size_static [OF b _ assms(3)] array_data_size_dynamic [OF b(1) assms(3)]
      pos_size_uniform [OF _ assms(1,2)] assms(4)
    by (cases "static_size t") auto
  then show ?thesis
    using array_size_bounds [OF b assms(3)] assms(3) by simp
qed

lemma uniform_field:
  "list_all (\<lambda>(f, x). f x) (zip (map uniform_nulls ts) vs) \<Longrightarrow> (t, x) \<in> set (zip ts vs) \<Longrightarrow> uniform_nulls t x"
  by (auto simp: list_all_iff zip_map1)

lemma pos_size_eqI: "0 \<le> n \<Longrightarrow> size_of t v = n \<Longrightarrow> pos_size t v = n"
  by (simp add: pos_size_def)

lemma length_wire_array:
  assumes "\<And>x. has_type t x \<Longrightarrow> fits t x \<Longrightarrow> uniform_nulls t x \<Longrightarrow> int (length (wire native m t x)) = pos_size t x"
    and "wf_type t" "list_all (has_type t) vs" "list_all (uniform_nulls t) vs"
    and "20 + sum_list (map (\<lambda>x. 4 + payload_bound t x) vs) < 2 ^ 31"
    and "static_size t \<longrightarrow> list_all (\<lambda>x. x = V_null) vs \<or> list_all (\<lambda>x. x \<noteq> V_null) vs"
  shows "20 + int (length (concat (map (data_frame_wire native m t) vs))) =
     to_int32 (12 + 8 + array_data_size (static_size t) (map (\<lambda>x. data_frame_of (size_of t x)) vs))"
proof -
  have "int (length (concat (map (data_frame_wire native m t) vs))) = sum_list (map (\<lambda>x. 4 + pos_size t x) vs)"
    using assms(1,3,4) fits_item [OF assms(5)] by (intro length_items_wire) (auto simp: list_all_iff)
  then show ?thesis using array_size_of [OF assms(2,3,5,6)] by simp
qed

lemma length_wire_fields:
  assumes "\<And>t x. t \<in> set ts \<Longrightarrow> has_type t x \<Longrightarrow> fits t x \<Longrightarrow> uniform_nulls t x \<Longrightarrow>
      int (length (wire native m t x)) = pos_size t x"
    and "\<And>t. t \<in> set ts \<Longrightarrow> wf_type t" "list_all2 has_type ts vs"
    and "list_all (\<lambda>(f, x). f x) (zip (map uniform_nulls ts) vs)"
    and "4 + sum_list (map2 (\<lambda>f x. 8 + f x) (map payload_bound ts) vs) < 2 ^ 31"
  shows "4 + int (length (concat (map2 (frame_wire native m) ts vs))) = to_int32 (4 + fields_data_size 0 ts vs)"
proof -
  have "int (length (concat (map2 (frame_wire native m) ts vs))) = sum_list (map2 (\<lambda>t x. 8 + pos_size t x) ts vs)"
    using assms(1) has_type_fields [OF assms(3)] uniform_field [OF assms(4)] fits_field [OF assms(5)]
    by (intro length_fields_wire) blast
  moreover have "to_int32 (4 + fields_data_size 0 ts vs) = 4 + sum_list (map2 (\<lambda>t x. 8 + pos_size t x) ts vs)"
    using size_bounded_fields [OF size_bounded assms(3,5)] assms(2) by simp
  ultimately show ?thesis by simp
qed

lemma int_length_append [simp]: "int (length (xs @ ys)) = int (length xs) + int (length ys)"
  by simp

lemma send_time_point_defined:
  assumes "clock_ok ticks" "time_point_ok ticks tp"
  shows "send_time_point ticks native out tp =
     Some (ostream_write_int native out (word_of_int ((tp - epoch_us * ticks) sdiv ticks) :: 64 word))"
proof -
  have "0 \<le> epoch_us * ticks" using assms(1) by (simp add: clock_ok_def epoch_us_def)
  then have "checked64 (tp - epoch_us * ticks) = Some (tp - epoch_us * ticks)"
    using assms(2) by (simp add: time_point_ok_def checked64_def)
  then show ?thesis by (simp add: send_time_point_def time_point_to_pg_def)
qed

lemma length_send_time_point:
  "clock_ok ticks \<Longrightarrow> time_point_ok ticks tp \<Longrightarrow>
     length (case send_time_point ticks native [] tp of None \<Rightarrow> [] | Some out \<Rightarrow> out) = 8"
  by (simp add: send_time_point_defined ostream_write_int_be)

lemma length_wire:
  "wf_type t \<Longrightarrow> has_type t v \<Longrightarrow> fits t v \<Longrightarrow> uniform_nulls t v \<Longrightarrow>
     int (length (wire native m t v)) = pos_size t v"
proof (induction t arbitrary: v)
  case (T_nullable t)
  then consider "v = V_null" | x where "v = V_some x" "has_type t x" "fits t x" "uniform_nulls t x"
    by (auto simp: fits_def)
  then show ?case
    using T_nullable.IH T_nullable.prems(1)
    by cases (simp_all add: wire_simps pos_size_def null_state_size_def)
next
  case (T_vector t)
  then obtain vs where vs: "v = V_seq vs" "list_all (has_type t) vs" by auto
  show ?case
    using length_wire_array [OF T_vector.IH _ vs(2)] T_vector.prems vs(1)
    by (intro pos_size_eqI [symmetric]) (simp_all add: wire_simps fits_def)
next
  case (T_std_array t n)
  then obtain vs where vs: "v = V_seq vs" "list_all (has_type t) vs" by auto
  show ?case
    using length_wire_array [OF T_std_array.IH _ vs(2)] T_std_array.prems vs(1)
    by (intro pos_size_eqI [symmetric]) (simp_all add: wire_simps fits_def)
next
  case (T_record ts)
  then obtain vs where vs: "v = V_fields vs" "list_all2 has_type ts vs" by auto
  show ?case
    using length_wire_fields [OF T_record.IH _ vs(2)] T_record.prems vs(1)
    by (intro pos_size_eqI [symmetric]) (simp_all add: wire_simps fits_def list_all_iff)
next
  case (T_composite nm ts)
  then obtain vs where vs: "v = V_fields vs" "list_all2 has_type ts vs" by auto
  show ?case
    using length_wire_fields [OF T_composite.IH _ vs(2)] T_composite.prems vs(1)
    by (intro pos_size_eqI [symmetric]) (simp_all add: wire_simps fits_def list_all_iff)
qed (auto simp: wire_scalar send_scalar_def pos_size_def fits_def io_simps ostream_write_int_be length_send_time_point)

section \<open>What a \<open>timestamp\<close> can hold\<close>

text \<open>A \<open>timestamp\<close> counts microseconds: of a time point the whole microseconds arrive, counted from the epoch of PostgreSQL and cut towards it.\<close>

definition cut_time_point :: "int \<Rightarrow> int \<Rightarrow> int" where
  "cut_time_point ticks tp = epoch_us * ticks + (tp - epoch_us * ticks) sdiv ticks * ticks"

fun to_microseconds :: "pg_value \<Rightarrow> pg_value" where
  "to_microseconds (V_time_point ticks tp) = V_time_point ticks (cut_time_point ticks tp)"
| "to_microseconds (V_some x) = V_some (to_microseconds x)"
| "to_microseconds (V_seq vs) = V_seq (map to_microseconds vs)"
| "to_microseconds (V_fields vs) = V_fields (map to_microseconds vs)"
| "to_microseconds v = v"

text \<open>The same value but for time points, which are less than a microsecond apart, and the same where they are whole microseconds.\<close>

fun same_microsecond :: "pg_value \<Rightarrow> pg_value \<Rightarrow> bool" where
  "same_microsecond (V_time_point ticks tp) v =
     (\<exists>tp'. v = V_time_point ticks tp' \<and> \<bar>tp - tp'\<bar> < ticks \<and> (ticks dvd tp \<longrightarrow> tp' = tp))"
| "same_microsecond (V_some x) v = (\<exists>y. v = V_some y \<and> same_microsecond x y)"
| "same_microsecond (V_seq xs) v = (\<exists>ys. v = V_seq ys \<and> list_all2 same_microsecond xs ys)"
| "same_microsecond (V_fields xs) v = (\<exists>ys. v = V_fields ys \<and> list_all2 same_microsecond xs ys)"
| "same_microsecond x v \<longleftrightarrow> v = x"

section \<open>Reading back\<close>

lemma read_word_make [simp]:
  assumes "8 dvd LENGTH('a)"
  shows "checked (istream_read_int native (make_istream (be_bytes (w :: 'a::len word) @ rest))) =
           Inr (w, make_istream rest)"
  using fixed_codec.checked_read_make [OF fixed_codec_int [OF assms refl], of native w rest]
  by (simp add: ostream_write_int_be [OF assms])

lemma read_int32_make [simp]:
  "- (2 ^ 31) \<le> n \<Longrightarrow> n < 2 ^ 31 \<Longrightarrow>
     read_int32 native (make_istream (be_bytes (word_of_int n :: 32 word) @ rest)) = Inr (n, make_istream rest)"
  using to_int32_id [of n] by (simp add: read_int32_def to_int32_def)

lemma read_int32_make_nat [simp]:
  "n < 2 ^ 31 \<Longrightarrow>
     read_int32 native (make_istream (be_bytes (word_of_nat n :: 32 word) @ rest)) = Inr (int n, make_istream rest)"
  using read_int32_make [of "int n" native rest] by simp

lemma read_int32_make_numerals [simp]:
  "read_int32 native (make_istream (be_bytes (0 :: 32 word) @ rest)) = Inr (0, make_istream rest)"
  "read_int32 native (make_istream (be_bytes (1 :: 32 word) @ rest)) = Inr (1, make_istream rest)"
  using read_int32_make [of 0 native rest] read_int32_make [of 1 native rest] by simp_all

lemma read_oid_make [simp]:
  "read_oid native (make_istream (be_bytes w @ rest)) = Inr (w, make_istream rest)"
  by (simp add: read_oid_def)

lemma read_raw_make:
  "length old = length bs \<Longrightarrow> checked (istream_read old (make_istream (bs @ rest))) = Inr (bs, make_istream rest)"
  using istream_read_full [of "make_istream (bs @ rest)" bs rest old]
  by (simp add: checked_def make_istream_def istream_ok_def)

lemma recv_string_make:
  "recv_string (int (length bs)) [] (make_istream (bs @ rest)) = Inr (bs, make_istream rest)"
  by (simp add: recv_string_def resize_string_def read_raw_make)

lemma recv_versioned_make:
  "recv_versioned (int (length bs) + 1) [] (make_istream (1 # bs @ rest)) = Inr (bs, make_istream rest)"
  using char.checked_read_make [of 1 "bs @ rest"]
  by (simp add: recv_versioned_def ostream_put_def recv_string_make)

lemma sint_word_of_int64: "- (2 ^ 63) \<le> n \<Longrightarrow> n < 2 ^ 63 \<Longrightarrow> sint (word_of_int n :: 64 word) = n"
  by (simp add: sint_uint uint_word_of_int_eq signed_take_bit_take_bit signed_take_bit_int_eq_self)

lemma recv_interval_make:
  assumes "int64_min \<le> us" "us \<le> int64_max"
  shows "recv_interval native' (make_istream (write_pg_interval native [] (from_chrono_duration us) @ rest)) =
           Inr (us, make_istream rest)"
proof -
  let ?iv = "from_chrono_duration us"
  note r = from_chrono_duration_range [of us]
  have "sint (word_of_int (microseconds ?iv) :: 64 word) = microseconds ?iv"
    using r(1) by (intro sint_word_of_int64) (auto simp: usecs_per_day_def)
  then have "read_pg_interval native' (make_istream (write_pg_interval native [] ?iv @ rest)) =
      Inr (?iv, make_istream rest)"
    using r by (simp add: read_pg_interval_def io_simps ostream_write_int_be)
  then show ?thesis
    by (simp add: recv_interval_def to_from_chrono_duration [OF assms])
qed

text \<open>A time point arrives cut to whole microseconds towards the epoch of PostgreSQL.\<close>

lemma time_point_between:
  fixes tp :: int
  assumes "clock_ok ticks"
  defines "q \<equiv> (tp - epoch_us * ticks) sdiv ticks"
  shows "min (tp - epoch_us * ticks) 0 \<le> q * ticks" "q * ticks \<le> max (tp - epoch_us * ticks) 0"
  using sdiv_mult_bounds(2,3) [of ticks "tp - epoch_us * ticks"] assms
  by (cases "0 \<le> tp - epoch_us * ticks"; auto simp: clock_ok_def)+

lemma time_point_ranges:
  fixes tp :: int
  assumes "clock_ok ticks" "time_point_ok ticks tp"
  defines "q \<equiv> (tp - epoch_us * ticks) sdiv ticks"
  shows "int64_min \<le> q" "q \<le> int64_max" "int64_min \<le> q * ticks" "q * ticks \<le> int64_max"
    "int64_min \<le> epoch_us * ticks + q * ticks" "epoch_us * ticks + q * ticks \<le> int64_max"
proof -
  have ticks: "0 < ticks" "0 \<le> epoch_us * ticks" "epoch_us * ticks \<le> int64_max"
    using assms(1) by (simp_all add: clock_ok_def epoch_us_def)
  note between = time_point_between [OF assms(1), of tp, folded q_def]
  show q: "int64_min \<le> q * ticks" "q * ticks \<le> int64_max"
    using between assms(2) ticks by (auto simp: time_point_ok_def int64_defs min_def max_def split: if_splits)
  have "q \<le> max 0 (q * ticks)" "min 0 (q * ticks) \<le> q" by (rule quotient_bounds [OF ticks(1)])+
  then show "int64_min \<le> q" "q \<le> int64_max" using q by (auto simp: int64_defs min_def max_def split: if_splits)
  show "int64_min \<le> epoch_us * ticks + q * ticks" "epoch_us * ticks + q * ticks \<le> int64_max"
    using between assms(2) ticks by (auto simp: time_point_ok_def int64_defs min_def max_def split: if_splits)
qed

lemma read_time_point:
  assumes "int64_min \<le> us" "us \<le> int64_max" "int64_min \<le> us * ticks" "us * ticks \<le> int64_max"
    and "int64_min \<le> epoch_us * ticks + us * ticks" "epoch_us * ticks + us * ticks \<le> int64_max"
  shows "recv_time_point ticks native' (make_istream (be_bytes (word_of_int us :: 64 word) @ rest)) =
     Inr (epoch_us * ticks + us * ticks, make_istream rest)"
proof -
  have "sint (word_of_int us :: 64 word) = us"
    using assms(1,2) by (intro sint_word_of_int64) (auto simp: int64_defs)
  then show ?thesis using assms(3-6) by (simp add: recv_time_point_def time_point_of_pg_def checked64_def)
qed

lemma recv_time_point_make:
  fixes tp :: int
  assumes "clock_ok ticks" "time_point_ok ticks tp"
  defines "q \<equiv> (tp - epoch_us * ticks) sdiv ticks"
  shows "recv_time_point ticks native' (make_istream (ostream_write_int native [] (word_of_int q :: 64 word) @ rest)) =
     Inr (epoch_us * ticks + q * ticks, make_istream rest)"
  using read_time_point [OF time_point_ranges [OF assms(1,2)], of native' rest]
  by (simp add: q_def ostream_write_int_be)

lemma recv_time_point_be:
  "clock_ok ticks \<Longrightarrow> time_point_ok ticks tp \<Longrightarrow>
     recv_time_point ticks native' (make_istream (be_bytes (word_of_int ((tp - epoch_us * ticks) sdiv ticks) :: 64 word) @ rest)) =
       Inr (cut_time_point ticks tp, make_istream rest)"
  using recv_time_point_make [of ticks tp native' big rest] by (simp add: ostream_write_int_be cut_time_point_def)

lemma time_point_exact:
  "clock_ok ticks \<Longrightarrow> ticks dvd tp \<Longrightarrow> epoch_us * ticks + (tp - epoch_us * ticks) sdiv ticks * ticks = tp"
  using sdiv_mult_exact [of ticks "tp - epoch_us * ticks"] by (simp add: clock_ok_def dvd_diff)

lemma recv_scalar_send_scalar:
  assumes "is_scalar t" "has_type t v"
  shows "recv_scalar native' (size_of t v) t (default_value t) (make_istream (send_scalar native [] v @ rest)) =
           Inr (to_microseconds v, make_istream rest)"
  using assms char.checked_read_make bool.checked_read_make
  by (cases t rule: is_scalar.cases)
    (auto simp: recv_scalar_def send_scalar_def mapv_def check_size_def ostream_write_int_be
      recv_string_make recv_versioned_make recv_interval_make read_raw_make
      send_time_point_defined recv_time_point_be
      ostream_write_raw_def send_versioned_def ostream_put_def)

text \<open>A value goes through the wire, whatever follows it.\<close>

definition goes_through :: "endian \<Rightarrow> endian \<Rightarrow> oid_map \<Rightarrow> cpp_type \<Rightarrow> pg_value \<Rightarrow> bool" where
  "goes_through native native' m t v \<longleftrightarrow>
     (\<forall>oid rest. oid \<in> {None, Some (type_oid m t)} \<longrightarrow>
        recv native' m oid (size_of t v) t (default_value t) (make_istream (wire native m t v @ rest)) =
          Inr (to_microseconds v, make_istream rest))"

lemma size_of_range: "wf_type t \<Longrightarrow> has_type t v \<Longrightarrow> fits t v \<Longrightarrow> - (2 ^ 31) \<le> size_of t v \<and> size_of t v < 2 ^ 31"
  using size_bounded [of t v] by (auto simp: size_bounded_def fits_def null_state_size_def split: if_splits)

lemma recv_data_frame_wire:
  assumes "wf_type t" "has_type t v" "fits t v" "goes_through native native' m t v"
    and "oid \<in> {None, Some (type_oid m t)}"
  shows "recv_data_frame native' m oid t (default_value t) (make_istream (data_frame_wire native m t v @ rest)) =
           Inr (to_microseconds v, make_istream rest)"
  using size_of_range [OF assms(1-3)] assms(4,5) by (auto simp: data_frame_wire_def goes_through_def)

lemma recv_frame_wire:
  assumes "wf_type t" "has_type t v" "fits t v" "goes_through native native' m t v"
  shows "recv_frame native' m t (default_value t) (make_istream (frame_wire native m t v @ rest)) =
           Inr (to_microseconds v, make_istream rest)"
  using recv_data_frame_wire [OF assms, of "Some (type_oid m t)"] by (simp add: frame_wire_def)

lemma recv_items_wire:
  assumes "wf_type t" "\<And>x. x \<in> set vs \<Longrightarrow> has_type t x \<and> fits t x \<and> goes_through native native' m t x"
  shows "recv_items native' m t (replicate (length vs) (default_value t))
           (make_istream (concat (map (data_frame_wire native m t) vs) @ rest)) = Inr (map to_microseconds vs, make_istream rest)"
  using assms(2)
  by (induction vs) (simp_all add: recv_data_frame_wire [OF assms(1)] del: recv_data_frame.simps)

lemma recv_fields_wire:
  assumes "\<And>t x. (t, x) \<in> set (zip ts vs) \<Longrightarrow> wf_type t \<and> has_type t x \<and> fits t x \<and> goes_through native native' m t x"
    and "length ts = length vs"
  shows "recv_fields native' m ts (map default_value ts)
           (make_istream (concat (map2 (frame_wire native m) ts vs) @ rest)) = Inr (map to_microseconds vs, make_istream rest)"
  using assms
proof (induction ts arbitrary: vs)
  case (Cons t ts)
  then obtain v vs' where vs: "vs = v # vs'" by (cases vs) auto
  then have f: "wf_type t" "has_type t v" "fits t v" "goes_through native native' m t v"
    using Cons.prems(1) [of t v] by simp_all
  have "recv_fields native' m ts (map default_value ts)
      (make_istream (concat (map2 (frame_wire native m) ts vs') @ rest)) = Inr (map to_microseconds vs', make_istream rest)"
    using Cons.prems vs by (intro Cons.IH) auto
  then show ?case
    using recv_frame_wire [OF f] vs by (simp del: recv_frame.simps)
qed simp

lemma goes_throughI:
  assumes "\<not> is_nullable t" "size_of t v \<noteq> null_state_size"
    and "\<And>rest. recv_impl native' m (size_of t v) t (default_value t) (make_istream (wire native m t v @ rest)) =
           Inr (to_microseconds v, make_istream rest)"
  shows "goes_through native native' m t v"
  using assms by (cases t) (auto simp: goes_through_def recv.simps)

lemma recv_array_header_wire:
  assumes "wf_type t" "n < 2 ^ 31"
  shows "recv_array_header native m t (make_istream (be_bytes (1 :: 32 word) @ be_bytes (0 :: 32 word) @
           be_bytes (type_oid m t) @ be_bytes (word_of_nat n :: 32 word) @ be_bytes (0 :: 32 word) @ rest)) =
         Inr (if n = 0 then None else Some (int n), make_istream rest)"
  using assms
  by (simp add: recv_array_header_def read_pg_array_def read_pg_array_dimension_def accepts_oid_def)

lemma recv_impl_array_wire:
  assumes "wf_type t" "length vs < 2 ^ 31" "t' = T_vector t \<or> (\<exists>n. t' = T_std_array t n \<and> length vs = n)"
    and "\<And>x. x \<in> set vs \<Longrightarrow> has_type t x \<and> fits t x \<and> goes_through native native' m t x"
  shows "recv_impl native' m sz t' (default_value t') (make_istream (wire native m t' (V_seq vs) @ rest)) =
           Inr (to_microseconds (V_seq vs), make_istream rest)"
  using assms(3) recv_items_wire [OF assms(1,4), of vs] recv_array_header_wire [OF assms(1,2)]
  by (auto simp: recv_impl.simps wire_simps fit_array_size_def mapv_def)

lemma recv_impl_fields_wire:
  assumes "length ts < 2 ^ 31" "length ts = length vs" "t' = T_record ts \<or> t' = T_composite nm ts"
    and "\<And>t x. (t, x) \<in> set (zip ts vs) \<Longrightarrow> wf_type t \<and> has_type t x \<and> fits t x \<and> goes_through native native' m t x"
  shows "recv_impl native' m sz t' (default_value t') (make_istream (wire native m t' (V_fields vs) @ rest)) =
           Inr (to_microseconds (V_fields vs), make_istream rest)"
  using assms(3) recv_fields_wire [OF assms(4,2)] assms(1)
  by (auto simp: recv_impl.simps wire_simps read_and_verify_header_def mapv_def)

lemma size_of_not_null: "wf_type t \<Longrightarrow> has_type t v \<Longrightarrow> fits t v \<Longrightarrow> \<not> is_null t v \<Longrightarrow> size_of t v \<noteq> null_state_size"
  using size_bounded [of t v] by (auto simp: size_bounded_def null_state_size_def)

lemma goes_through_nullable:
  assumes "\<not> is_nullable t" "goes_through native native' m t x" "size_of t x \<noteq> null_state_size"
  shows "goes_through native native' m (T_nullable t) (V_some x)"
proof -
  have "recv_impl native' m (size_of t x) t (default_value t) (make_istream (wire native m t x @ rest)) =
      Inr (to_microseconds x, make_istream rest)" for rest
    using assms by (cases t) (auto simp: goes_through_def recv.simps)
  moreover have "accepts_oid m (T_nullable t) (type_oid m (T_nullable t))" by (rule accepts_type_oid)
  ultimately show ?thesis
    using assms(3) by (auto simp: goes_through_def recv.simps wire_simps init_nullable_def mapv_def)
qed

text \<open>Induction on the values that fit the wire: what holds of nulls, scalars, arrays and composites
  given that it holds of the parts.\<close>

lemma wire_value_induct [consumes 3, case_names null some array fields scalar]:
  assumes "wf_type t" "has_type t v" "fits t v"
    and null: "\<And>t. P (T_nullable t) V_null"
    and some: "\<And>t x. \<not> is_nullable t \<Longrightarrow> wf_type t \<Longrightarrow> has_type t x \<Longrightarrow> fits t x \<Longrightarrow>
      size_of t x \<noteq> null_state_size \<Longrightarrow> P t x \<Longrightarrow> P (T_nullable t) (V_some x)"
    and array: "\<And>t t' vs. t' = T_vector t \<or> t' = T_std_array t (length vs) \<Longrightarrow> wf_type t \<Longrightarrow> length vs < 2 ^ 31 \<Longrightarrow>
      size_of t' (V_seq vs) \<noteq> null_state_size \<Longrightarrow>
      (\<And>x. x \<in> set vs \<Longrightarrow> has_type t x \<and> fits t x \<and> P t x) \<Longrightarrow> P t' (V_seq vs)"
    and fields: "\<And>ts nm t' vs. t' = T_record ts \<or> t' = T_composite nm ts \<Longrightarrow> length ts < 2 ^ 31 \<Longrightarrow>
      length ts = length vs \<Longrightarrow> size_of t' (V_fields vs) \<noteq> null_state_size \<Longrightarrow>
      (\<And>t x. (t, x) \<in> set (zip ts vs) \<Longrightarrow> wf_type t \<and> has_type t x \<and> fits t x \<and> P t x) \<Longrightarrow> P t' (V_fields vs)"
    and scalar: "\<And>t v. is_scalar t \<Longrightarrow> has_type t v \<Longrightarrow> size_of t v \<noteq> null_state_size \<Longrightarrow> P t v"
  shows "P t v"
  using assms(1-3)
proof (induction t arbitrary: v)
  case (T_nullable t)
  then consider "v = V_null" | x where "v = V_some x" "has_type t x" "fits t x" by (auto simp: fits_def)
  then show ?case
    using T_nullable.IH T_nullable.prems(1) size_of_not_null [of t]
    by cases (auto simp: is_null_def intro!: null some)
next
  case (T_vector t)
  then obtain vs where vs: "v = V_seq vs" "length vs < 2 ^ 31" "\<And>x. x \<in> set vs \<Longrightarrow> has_type t x"
    by (auto simp: list_all_iff)
  then show ?case
    using T_vector fits_item [of t vs] size_of_not_null [OF T_vector.prems]
    by (auto simp: is_null_def fits_def simp del: size_of.simps intro!: array)
next
  case (T_std_array t n)
  then obtain vs where vs: "v = V_seq vs" "length vs = n" "n < 2 ^ 31" "\<And>x. x \<in> set vs \<Longrightarrow> has_type t x"
    by (auto simp: list_all_iff)
  then show ?case
    using T_std_array fits_item [of t vs] size_of_not_null [OF T_std_array.prems]
    by (auto simp: is_null_def fits_def simp del: size_of.simps intro!: array)
next
  case (T_record ts)
  then obtain vs where vs: "v = V_fields vs" "list_all2 has_type ts vs" by auto
  have "4 + sum_list (map2 (\<lambda>f x. 8 + f x) (map payload_bound ts) vs) < 2 ^ 31"
    using T_record.prems(3) vs(1) by (simp add: fits_def)
  note f = fits_field [OF this]
  have "P (T_record ts) (V_fields vs)"
    using T_record.prems size_of_not_null [OF T_record.prems] vs(1) list_all2_lengthD [OF vs(2)]
      has_type_fields [OF vs(2)] f T_record.IH
    by (intro fields [of "T_record ts" ts]) (auto simp: is_null_def list_all_iff simp del: size_of.simps)
  then show ?case by (simp add: vs(1))
next
  case (T_composite nm ts)
  then obtain vs where vs: "v = V_fields vs" "list_all2 has_type ts vs" by auto
  have "4 + sum_list (map2 (\<lambda>f x. 8 + f x) (map payload_bound ts) vs) < 2 ^ 31"
    using T_composite.prems(3) vs(1) by (simp add: fits_def)
  note f = fits_field [OF this]
  have "P (T_composite nm ts) (V_fields vs)"
    using T_composite.prems size_of_not_null [OF T_composite.prems] vs(1) list_all2_lengthD [OF vs(2)]
      has_type_fields [OF vs(2)] f T_composite.IH
    by (intro fields [of "T_composite nm ts" ts nm]) (auto simp: is_null_def list_all_iff simp del: size_of.simps)
  then show ?case by (simp add: vs(1))
qed (rule scalar; simp add: null_state_size_def; auto)+

lemma goes_through: "wf_type t \<Longrightarrow> has_type t v \<Longrightarrow> fits t v \<Longrightarrow> goes_through native native' m t v"
proof (induction rule: wire_value_induct)
  case (null t)
  show ?case by (simp add: goes_through_def recv.simps wire_simps)
next
  case (some t x)
  then show ?case by (intro goes_through_nullable)
next
  case (array t t' vs)
  then show ?case
    by (intro goes_throughI recv_impl_array_wire [of t vs]) auto
next
  case (fields ts nm t' vs)
  then show ?case
    by (intro goes_throughI recv_impl_fields_wire [of ts vs _ nm]) auto
next
  case (scalar t v)
  then show ?case
    using recv_scalar_send_scalar [of t v native' native]
    by (intro goes_throughI; cases t) (simp_all add: recv_impl.simps wire_scalar)
qed

section \<open>Properties\<close>

lemma same_microsecond_cut:
  assumes "clock_ok ticks"
  shows "\<bar>tp - cut_time_point ticks tp\<bar> < ticks" "ticks dvd tp \<Longrightarrow> cut_time_point ticks tp = tp"
  using assms sdiv_mult_bounds(1) [of ticks "tp - epoch_us * ticks"] time_point_exact [OF assms]
  by (simp_all add: clock_ok_def cut_time_point_def algebra_simps)

lemma same_microsecond_to: "has_type t v \<Longrightarrow> same_microsecond v (to_microseconds v)"
proof (induction t arbitrary: v)
  case (T_record ts)
  then show ?case by (auto simp: list_all2_conv_all_nth) (metis nth_mem)
next
  case (T_composite nm ts)
  then show ?case by (auto simp: list_all2_conv_all_nth) (metis nth_mem)
qed (auto simp: same_microsecond_cut list_all_iff list_all2_conv_all_nth)

text \<open>C1: a value of less than 2 GiB of any supported type (scalars, strings, nullables, arrays, nested composites) that is
  sent and then received into a fresh object is received unchanged, between hosts of any byte
  order, with the bytes that follow it left in the stream; only a time point loses its part below a microsecond, which
  a \<open>timestamp\<close> cannot hold. Time points are those whose distance from 2000-01-01 is a 64-bit count of the clock's ticks.\<close>

theorem send_recv_roundtrip:
  assumes "wf_type t" and "has_type t v" and "payload_bound t v < 2 ^ 31"
  shows "\<exists>v'. recv native' m (Some (type_oid m t)) (size_of t v) t (default_value t)
           (make_istream (send native m t [] v @ rest)) = Inr (v', make_istream rest) \<and> same_microsecond v v'"
proof -
  have "fits t v" using assms(3) by (simp add: fits_def)
  from goes_through [OF assms(1,2) this] have "recv native' m (Some (type_oid m t)) (size_of t v) t (default_value t)
      (make_istream (send native m t [] v @ rest)) = Inr (to_microseconds v, make_istream rest)"
    by (simp add: goes_through_def wire_def)
  then show ?thesis using same_microsecond_to [OF assms(2)] by blast
qed

theorem send_recv_roundtrip_witness:
  "recv little [(''point'', 70000)] (Some 70000)
     (size_of (T_composite ''point'' [T_vector (T_nullable T_int4), T_string text_kind])
       (V_fields [V_seq [V_null, V_some (V_int4 5)], V_string [104, 105]]))
     (T_composite ''point'' [T_vector (T_nullable T_int4), T_string text_kind])
     (V_fields [V_seq [], V_string []])
     (make_istream (send big [(''point'', 70000)] (T_composite ''point'' [T_vector (T_nullable T_int4), T_string text_kind])
        [] (V_fields [V_seq [V_null, V_some (V_int4 5)], V_string [104, 105]]) @ [7])) =
   Inr (V_fields [V_seq [V_null, V_some (V_int4 5)], V_string [104, 105]], make_istream [7])"
  using send_recv_roundtrip [of "T_composite ''point'' [T_vector (T_nullable T_int4), T_string text_kind]"
      "V_fields [V_seq [V_null, V_some (V_int4 5)], V_string [104, 105]]" little "[(''point'', 70000)]" big "[7]"]
  by (auto simp: type_oid_def definition_oid_def lookup_oid_def list_all2_Cons1)

text \<open>The frame that \<open>send_frame\<close> writes (oid, size, data) is accepted and decoded by
  \<open>recv_frame\<close>, also for nulls; time points are cut to microseconds.\<close>

theorem send_frame_roundtrip:
  assumes "wf_type t" and "has_type t v" and "fits t v"
  shows "recv_frame native' m t (default_value t) (make_istream (send_frame native m t [] v @ rest)) =
           Inr (to_microseconds v, make_istream rest)"
  using recv_frame_wire [OF assms goes_through [OF assms]]
    send_frame_append [OF send_append, of native m t "[]" v] by (simp del: send_frame.simps recv_frame.simps)

theorem send_frame_roundtrip_witness:
  "recv_frame big [] (T_nullable T_int8) V_null
     (make_istream (send_frame little [] (T_nullable T_int8) [] V_null @ [1])) = Inr (V_null, make_istream [1])"
  using send_frame_roundtrip [of "T_nullable T_int8" V_null big "[]" little "[1]"]
  by (simp add: fits_def del: send_frame.simps recv_frame.simps)

text \<open>C31: \<open>size_of\<close> is the number of bytes \<open>send\<close> appends (none for a null), for every value of less
  than 2 GiB in which no array of static-size elements mixes nulls and values. \<open>send_frame\<close> appends eight bytes more for
  the oid and the size, and \<open>frame_size\<close> is the number of its bytes whenever that number is below 2 GiB too.\<close>

theorem send_size_of:
  assumes "wf_type t" and "has_type t v" and "fits t v" and "uniform_nulls t v"
  shows "int (length (send native m t out v)) = int (length out) + max (size_of t v) 0 \<and>
     (size_of t v = null_state_size \<longleftrightarrow> is_null t v) \<and>
     int (length (send_frame native m t out v)) = int (length out) + 8 + max (size_of t v) 0 \<and>
     (8 + max (size_of t v) 0 < 2 ^ 31 \<longrightarrow> int (length (send_frame native m t out v)) = int (length out) + frame_size t v)"
proof (intro conjI impI)
  have len: "int (length (wire native m t v)) = max (size_of t v) 0"
    using length_wire [OF assms, of native m] by (simp add: pos_size_def)
  then show "int (length (send native m t out v)) = int (length out) + max (size_of t v) 0"
    by (subst send_append) (simp add: wire_def)
  show "size_of t v = null_state_size \<longleftrightarrow> is_null t v"
    using size_bounded [OF assms(1-3)] by (auto simp: size_bounded_def null_state_size_def split: if_splits)
  show frame: "int (length (send_frame native m t out v)) = int (length out) + 8 + max (size_of t v) 0"
    using len by (simp add: send_frame_append [OF send_append] length_frame_wire del: send_frame.simps)
  assume "8 + max (size_of t v) 0 < 2 ^ 31"
  then have "frame_size t v = 8 + max (size_of t v) 0" by (simp add: frame_size_def frame_of_def data_frame_of_def)
  with frame show "int (length (send_frame native m t out v)) = int (length out) + frame_size t v" by simp
qed

theorem send_size_of_witness:
  "int (length (send little [] (T_vector (T_string text_kind)) [9] (V_seq [V_string [104], V_string []]))) =
     1 + max (size_of (T_vector (T_string text_kind)) (V_seq [V_string [104], V_string []])) 0"
  using send_size_of [of "T_vector (T_string text_kind)" "V_seq [V_string [104], V_string []]" little "[]" "[9]"]
  by (simp add: fits_def static_size_def)

text \<open>An array of static-size nullables that mixes nulls and values is announced with a wrong
  size: \<open>{null, 5}\<close> of \<open>int4\<close> is announced as 28 bytes and sent as 32.\<close>

theorem size_of_mixed_nulls:
  "size_of (T_vector (T_nullable T_int4)) (V_seq [V_null, V_some (V_int4 5)]) = 28 \<and>
   length (send native m (T_vector (T_nullable T_int4)) [] (V_seq [V_null, V_some (V_int4 5)])) = 32"
proof
  show "size_of (T_vector (T_nullable T_int4)) (V_seq [V_null, V_some (V_int4 5)]) = 28"
    by (simp add: array_data_size_def static_size_def data_frame_of_def null_state_size_def)
  have "length (wire native m T_int4 (V_int4 5)) = 4"
    by (simp add: wire_scalar send_scalar_def ostream_write_int_be)
  then show "length (send native m (T_vector (T_nullable T_int4)) [] (V_seq [V_null, V_some (V_int4 5)])) = 32"
    by (simp add: wire_def [symmetric] wire_simps length_data_frame_wire)
qed

text \<open>Receiving an empty array into a container that has elements leaves the old elements
  there.\<close>

theorem recv_empty_array_keeps_elements:
  assumes "wf_type (T_vector t)"
  shows "recv native' m (Some (type_oid m (T_vector t))) (size_of (T_vector t) (V_seq [])) (T_vector t) (V_seq old)
           (make_istream (send native m (T_vector t) [] (V_seq []) @ rest)) = Inr (V_seq old, make_istream rest)"
  using assms recv_array_header_wire [of t 0 native' m rest]
  by (simp add: recv.simps recv_impl.simps wire_def [symmetric] wire_simps null_state_size_def array_data_size_def)

theorem recv_empty_array_keeps_elements_witness:
  "recv little [] (Some 1007) 20 (T_vector T_int4) (V_seq [V_int4 7])
     (make_istream (send little [] (T_vector T_int4) [] (V_seq []))) = Inr (V_seq [V_int4 7], make_istream [])"
  using recv_empty_array_keeps_elements [of T_int4 little "[]" "[V_int4 7]" little "[]"]
  by (simp add: type_oid_def definition_oid_def array_data_size_def static_size_def)

end
