(* ===== verification/Bozo_Pg_Format.thy ===== *)
theory Bozo_Pg_Format
  imports Bozo_Wire
begin

text \<open>
  The binary format of PostgreSQL as its documentation describes it, as relations between a value and the bytes that represent
  it, independent of how the library writes and reads them: big-endian numbers, a version byte before \<open>jsonb\<close> and \<open>ltree\<close>,
  intervals of months, days and microseconds, timestamps in microseconds since 2000, arrays of one dimension with any lower
  bound or of none, composites of fields with their oids. Whatever bytes represent a value are received as that value, and what
  the library sends represents the value sent.
\<close>

section \<open>The format\<close>

text \<open>\<open>pg_repr m t v bs\<close>: the bytes represent the value, which is not null; \<open>pg_data_frame\<close> adds the length, \<open>-1\<close> for a
  null; \<open>pg_items\<close> are the elements of an array and \<open>pg_fields\<close> the fields of a composite. The oids of the types the database
  defines come from \<open>m\<close>.\<close>

inductive pg_repr :: "oid_map \<Rightarrow> cpp_type \<Rightarrow> pg_value \<Rightarrow> byte list \<Rightarrow> bool"
  and pg_data_frame :: "oid_map \<Rightarrow> cpp_type \<Rightarrow> pg_value \<Rightarrow> byte list \<Rightarrow> bool"
  and pg_items :: "oid_map \<Rightarrow> cpp_type \<Rightarrow> pg_value list \<Rightarrow> byte list \<Rightarrow> bool"
  and pg_fields :: "oid_map \<Rightarrow> cpp_type list \<Rightarrow> pg_value list \<Rightarrow> byte list \<Rightarrow> bool"
  for m :: oid_map where
  repr_char: "pg_repr m T_char (V_char b) [b]"
| repr_int2: "pg_repr m T_int2 (V_int2 i2) (be_bytes i2)"
| repr_int4: "pg_repr m T_int4 (V_int4 i4) (be_bytes i4)"
| repr_int8: "pg_repr m T_int8 (V_int8 i8) (be_bytes i8)"
| repr_oid: "pg_repr m T_oid (V_oid i4) (be_bytes i4)"
| repr_bool: "pg_repr m T_bool (V_bool c) [if c then 1 else 0]"
| repr_float4: "pg_repr m T_float4 (V_float4 i4) (be_bytes i4)"
| repr_float8: "pg_repr m T_float8 (V_float8 i8) (be_bytes i8)"
| repr_string: "pg_repr m (T_string k) (V_string bs) bs"
| repr_uuid: "length bs = 16 \<Longrightarrow> pg_repr m T_uuid (V_uuid bs) bs"
| repr_jsonb: "pg_repr m T_jsonb (V_jsonb bs) (1 # bs)"
| repr_ltree: "pg_repr m T_ltree (V_ltree bs) (1 # bs)"
| repr_interval: "int64_min \<le> us \<Longrightarrow> us \<le> int64_max \<Longrightarrow>
    - (2 ^ 31) \<le> d \<Longrightarrow> d < 2 ^ 31 \<Longrightarrow> - (2 ^ 31) \<le> mo \<Longrightarrow> mo < 2 ^ 31 \<Longrightarrow>
    interval_no_overflow \<lparr>microseconds = us, days = d, months = mo\<rparr> \<Longrightarrow>
    pg_repr m T_interval
      (V_interval (max int64_min (min int64_max (us + (d + 30 * mo) * (24 * 60 * 60 * 1000000)))))
      (be_bytes (word_of_int us :: 64 word) @ be_bytes (word_of_int d :: 32 word) @ be_bytes (word_of_int mo :: 32 word))"
| repr_timestamp: "int64_min \<le> us \<Longrightarrow> us \<le> int64_max \<Longrightarrow> int64_min \<le> us * ticks \<Longrightarrow> us * ticks \<le> int64_max \<Longrightarrow>
    int64_min \<le> epoch_us * ticks + us * ticks \<Longrightarrow> epoch_us * ticks + us * ticks \<le> int64_max \<Longrightarrow>
    pg_repr m (T_time_point ticks) (V_time_point ticks (epoch_us * ticks + us * ticks)) (be_bytes (word_of_int us :: 64 word))"
| repr_nullable: "pg_repr m t v bs \<Longrightarrow> pg_repr m (T_nullable t) (V_some v) bs"
| repr_array: "t' = T_vector t \<or> t' = T_std_array t (length vs) \<Longrightarrow> length vs < 2 ^ 31 \<Longrightarrow> pg_items m t vs bs \<Longrightarrow>
    pg_repr m t' (V_seq vs)
      (be_bytes (1 :: 32 word) @ be_bytes (flags :: 32 word) @ be_bytes (type_oid m t) @
       be_bytes (word_of_nat (length vs) :: 32 word) @ be_bytes (lower :: 32 word) @ bs)"
| repr_empty_array: "t' = T_vector t \<or> t' = T_std_array t 0 \<Longrightarrow>
    pg_repr m t' (V_seq []) (be_bytes (0 :: 32 word) @ be_bytes (flags :: 32 word) @ be_bytes (type_oid m t))"
| repr_fields: "t' = T_record ts \<or> t' = T_composite nm ts \<Longrightarrow> length ts < 2 ^ 31 \<Longrightarrow> pg_fields m ts vs bs \<Longrightarrow>
    pg_repr m t' (V_fields vs) (be_bytes (word_of_nat (length ts) :: 32 word) @ bs)"
| frame_null: "pg_data_frame m (T_nullable t) V_null (be_bytes (- 1 :: 32 word))"
| frame_value: "pg_repr m t v bs \<Longrightarrow> length bs < 2 ^ 31 \<Longrightarrow>
    pg_data_frame m t v (be_bytes (word_of_nat (length bs) :: 32 word) @ bs)"
| items_nil: "pg_items m t [] []"
| items_cons: "pg_data_frame m t v bs \<Longrightarrow> pg_items m t vs cs \<Longrightarrow> pg_items m t (v # vs) (bs @ cs)"
| fields_nil: "pg_fields m [] [] []"
| fields_cons: "pg_data_frame m t v bs \<Longrightarrow> pg_fields m ts vs cs \<Longrightarrow>
    pg_fields m (t # ts) (v # vs) (be_bytes (type_oid m t) @ bs @ cs)"

lemmas pg_repr_rules = repr_char repr_int2 repr_int4 repr_int8 repr_oid repr_float4 repr_float8 repr_string repr_uuid repr_jsonb repr_ltree
  repr_timestamp

section \<open>What is represented is received\<close>

definition reads :: "endian \<Rightarrow> oid_map \<Rightarrow> cpp_type \<Rightarrow> pg_value \<Rightarrow> byte list \<Rightarrow> bool" where
  "reads native m t v bs \<longleftrightarrow>
     (\<forall>oid rest. oid \<in> {None, Some (type_oid m t)} \<longrightarrow>
        recv native m oid (int (length bs)) t (default_value t) (make_istream (bs @ rest)) = Inr (v, make_istream rest))"

lemma readsI:
  assumes "\<not> is_nullable t"
    and "\<And>rest. recv_impl native m (int (length bs)) t (default_value t) (make_istream (bs @ rest)) = Inr (v, make_istream rest)"
  shows "reads native m t v bs"
  using assms by (cases t) (auto simp: reads_def recv.simps null_state_size_def)

lemma reads_impl:
  "\<not> is_nullable t \<Longrightarrow> reads native m t v bs \<Longrightarrow>
     recv_impl native m (int (length bs)) t (default_value t) (make_istream (bs @ rest)) = Inr (v, make_istream rest)"
  by (cases t) (auto simp: reads_def recv.simps null_state_size_def)

lemma reads_scalar:
  assumes "is_scalar t"
    and "\<And>rest. recv_scalar native (int (length bs)) t (default_value t) (make_istream (bs @ rest)) = Inr (v, make_istream rest)"
  shows "reads native m t v bs"
  using assms by (intro readsI; cases t rule: is_scalar.cases) (simp_all add: recv_impl.simps)

lemma reads_nullable:
  assumes "\<not> is_nullable t" "reads native m t v bs"
  shows "reads native m (T_nullable t) (V_some v) bs"
proof -
  have "accepts_oid m (T_nullable t) (type_oid m (T_nullable t))" by (rule accepts_type_oid)
  then show ?thesis
    using reads_impl [OF assms] by (auto simp: reads_def recv.simps init_nullable_def mapv_def null_state_size_def)
qed

lemma read_int32_any [simp]:
  "read_int32 native (make_istream (be_bytes (w :: 32 word) @ rest)) = Inr (sint w, make_istream rest)"
  by (simp add: read_int32_def)

lemma recv_array_header_repr:
  assumes "wf_type t" "n < 2 ^ 31"
  shows "recv_array_header native m t (make_istream (be_bytes (1 :: 32 word) @ be_bytes (flags :: 32 word) @
           be_bytes (type_oid m t) @ be_bytes (word_of_nat n :: 32 word) @ be_bytes (lower :: 32 word) @ rest)) =
         Inr (if n = 0 then None else Some (int n), make_istream rest)"
    and "recv_array_header native m t (make_istream (be_bytes (0 :: 32 word) @ be_bytes (flags :: 32 word) @
           be_bytes (type_oid m t) @ rest)) = Inr (None, make_istream rest)"
  using assms read_int32_make_nat [of n native]
  by (simp_all add: recv_array_header_def read_pg_array_def read_pg_array_dimension_def accepts_oid_def)

lemma recv_interval_repr:
  assumes "int64_min \<le> us" "us \<le> int64_max" "- (2 ^ 31) \<le> d" "d < 2 ^ 31" "- (2 ^ 31) \<le> mo" "mo < 2 ^ 31"
    and "interval_no_overflow \<lparr>microseconds = us, days = d, months = mo\<rparr>"
  shows "recv_interval native (make_istream (be_bytes (word_of_int us :: 64 word) @ be_bytes (word_of_int d :: 32 word) @
           be_bytes (word_of_int mo :: 32 word) @ rest)) =
         Inr (max int64_min (min int64_max (us + (d + 30 * mo) * (24 * 60 * 60 * 1000000))), make_istream rest)"
proof -
  have "sint (word_of_int us :: 64 word) = us"
    using assms(1,2) by (intro sint_word_of_int64) (auto simp: int64_defs)
  then have "read_pg_interval native (make_istream (be_bytes (word_of_int us :: 64 word) @ be_bytes (word_of_int d :: 32 word) @
      be_bytes (word_of_int mo :: 32 word) @ rest)) = Inr (\<lparr>microseconds = us, days = d, months = mo\<rparr>, make_istream rest)"
    using assms(3-6) by (simp add: read_pg_interval_def del: read_int32_any)
  then show ?thesis
    using assms(7) by (simp add: recv_interval_def to_chrono_duration_eq interval_usecs_def usecs_per_day_def algebra_simps)
qed

lemma read_byte_repr: "checked (istream_read_byte (make_istream (b # rest))) = Inr (b, make_istream rest)"
  using char.checked_read_make [of b rest] by (simp add: ostream_put_def)

lemma read_bool_repr:
  "checked (istream_read_bool (make_istream (1 # rest))) = Inr (True, make_istream rest)"
  "checked (istream_read_bool (make_istream (0 # rest))) = Inr (False, make_istream rest)"
  using bool.checked_read_make [of True rest] bool.checked_read_make [of False rest]
  by (simp_all add: ostream_write_bool_def ostream_put_def)

lemma recv_impl_array_repr:
  assumes "wf_type t" "length vs < 2 ^ 31" "t' = T_vector t \<or> t' = T_std_array t (length vs)"
    and "\<And>rest. recv_items native m t (replicate (length vs) (default_value t)) (make_istream (bs @ rest)) =
      Inr (vs, make_istream rest)"
  shows "recv_impl native m sz t' (default_value t') (make_istream
     (be_bytes (1 :: 32 word) @ be_bytes (flags :: 32 word) @ be_bytes (type_oid m t) @
      be_bytes (word_of_nat (length vs) :: 32 word) @ be_bytes (lower :: 32 word) @ bs @ rest)) = Inr (V_seq vs, make_istream rest)"
  using assms(3) recv_array_header_repr(1) [OF assms(1,2), of native m flags lower "bs @ rest"] assms(4) [of rest]
  by (cases "vs = []") (auto simp: recv_impl.simps fit_array_size_def mapv_def)

lemma recv_impl_fields_repr:
  assumes "length ts < 2 ^ 31" "t' = T_record ts \<or> t' = T_composite nm ts"
    and "\<And>rest. recv_fields native m ts (map default_value ts) (make_istream (bs @ rest)) = Inr (vs, make_istream rest)"
  shows "recv_impl native m sz t' (default_value t') (make_istream (be_bytes (word_of_nat (length ts) :: 32 word) @ bs @ rest)) =
     Inr (V_fields vs, make_istream rest)"
  using assms(2,3) read_int32_make_nat [OF assms(1), of native]
  by (auto simp: recv_impl.simps read_and_verify_header_def mapv_def simp del: read_int32_any)

lemma recv_pg_repr:
  "pg_repr m t v bs \<Longrightarrow> wf_type t \<Longrightarrow> reads native m t v bs"
  "pg_data_frame m t v bs \<Longrightarrow> wf_type t \<Longrightarrow> oid \<in> {None, Some (type_oid m t)} \<Longrightarrow>
     recv_data_frame native m oid t (default_value t) (make_istream (bs @ rest)) = Inr (v, make_istream rest)"
  "pg_items m t vs bs \<Longrightarrow> wf_type t \<Longrightarrow>
     recv_items native m t (replicate (length vs) (default_value t)) (make_istream (bs @ rest)) = Inr (vs, make_istream rest)"
  "pg_fields m ts vs bs \<Longrightarrow> list_all wf_type ts \<Longrightarrow>
     recv_fields native m ts (map default_value ts) (make_istream (bs @ rest)) = Inr (vs, make_istream rest)"
proof (induction arbitrary: and oid rest and rest and rest rule: pg_repr_pg_data_frame_pg_items_pg_fields.inducts)
  case (repr_array t' t vs bs flags lower)
  then have "wf_type t" by auto
  with repr_array show ?case
    using recv_impl_array_repr [of t vs t' native m bs] by (intro readsI) auto
next
  case (repr_empty_array t' t flags)
  then show ?case
    using recv_array_header_repr(2) [of t 0 native m flags] by (intro readsI) (auto simp: recv_impl.simps)
next
  case (repr_fields t' ts nm vs bs)
  then show ?case
    using recv_impl_fields_repr [of ts t' nm native m bs vs] by (intro readsI) (auto simp: list_all_iff)
next
  case (repr_nullable t v bs)
  then show ?case by (auto intro: reads_nullable)
next
  case (frame_null t)
  then show ?case by (auto simp: recv.simps null_state_size_def)
next
  case (frame_value t v bs)
  then show ?case
    using read_int32_make_nat [of "length bs" native] by (auto simp: reads_def simp del: read_int32_any)
next
  case (fields_cons t v bs ts vs cs)
  then show ?case by (simp del: recv_data_frame.simps)
qed (auto simp: recv_scalar_def mapv_def check_size_def read_byte_repr read_bool_repr recv_string_make add.commute [of 1]
      recv_versioned_make recv_interval_repr read_time_point read_raw_make
      simp del: recv_data_frame.simps intro!: reads_scalar)

section \<open>What is sent represents the value\<close>

lemma repr_chrono_duration:
  assumes "int64_min \<le> us" "us \<le> int64_max"
  shows "pg_repr m T_interval (V_interval us) (write_pg_interval native [] (from_chrono_duration us))"
proof -
  let ?iv = "from_chrono_duration us"
  note r = from_chrono_duration_range [of us]
  have "to_chrono_duration ?iv = Some us" by (rule to_from_chrono_duration [OF assms])
  then have no: "interval_no_overflow ?iv" and eq: "max int64_min (min int64_max (interval_usecs ?iv)) = us"
    by (auto simp: to_chrono_duration_eq split: if_splits)
  obtain u d where iv: "?iv = \<lparr>microseconds = u, days = d, months = 0\<rparr>"
    using r(4) by (cases ?iv) simp
  have v: "max int64_min (min int64_max (u + (d + 30 * 0) * (24 * 60 * 60 * 1000000))) = us"
    using eq by (simp add: iv interval_usecs_def usecs_per_day_def algebra_simps)
  have u: "int64_min \<le> u" "u \<le> int64_max" using r(1) by (auto simp: iv int64_defs)
  have "pg_repr m T_interval (V_interval us)
      (be_bytes (word_of_int u :: 64 word) @ be_bytes (word_of_int d :: 32 word) @ be_bytes (word_of_int 0 :: 32 word))"
    using repr_interval [OF u, of d 0 m] r(2,3) no unfolding v iv by simp
  then show ?thesis by (simp add: iv io_simps ostream_write_int_be)
qed

lemma repr_bools: "pg_repr m T_bool (V_bool True) [1]" "pg_repr m T_bool (V_bool False) [0]"
  using repr_bool [of m True] repr_bool [of m False] by simp_all

lemma repr_scalar:
  assumes "is_scalar t" "has_type t v"
  shows "pg_repr m t (to_microseconds v) (send_scalar native [] v)"
  using assms time_point_ranges
  by (cases t rule: is_scalar.cases)
    (auto simp: send_scalar_def ostream_write_int_be ostream_put_def ostream_write_bool_def ostream_write_raw_def send_versioned_def
      send_time_point_defined cut_time_point_def repr_chrono_duration repr_bools intro!: pg_repr_rules)

text \<open>What is sent of a value represents it, and its data frame too.\<close>

definition represents :: "endian \<Rightarrow> oid_map \<Rightarrow> cpp_type \<Rightarrow> pg_value \<Rightarrow> bool" where
  "represents native m t v \<longleftrightarrow> is_null t v \<or> pg_repr m t (to_microseconds v) (wire native m t v)"

lemma frame_represents:
  assumes "wf_type t" "has_type t v" "fits t v" "uniform_nulls t v" "represents native m t v"
  shows "pg_data_frame m t (to_microseconds v) (data_frame_wire native m t v)"
proof (cases "is_null t v")
  case True
  then obtain u where "t = T_nullable u" "v = V_null" by (cases t) (auto simp: is_null_def)
  then show ?thesis using frame_null [of m u] by (simp add: data_frame_wire_def wire_simps null_state_size_def)
next
  case False
  have "size_of t v = int (length (wire native m t v))"
    using length_wire [OF assms(1-4), of native m] size_bounded [OF assms(1-3)] False
    by (simp add: pos_size_def size_bounded_def)
  moreover from this have "length (wire native m t v) < 2 ^ 31" using size_of_range [OF assms(1-3)] by simp
  ultimately show ?thesis
    using frame_value [of m t "to_microseconds v" "wire native m t v"] assms(5) False
    by (simp add: represents_def data_frame_wire_def)
qed

lemma items_represent:
  "(\<And>x. x \<in> set vs \<Longrightarrow> pg_data_frame m t (to_microseconds x) (data_frame_wire native m t x)) \<Longrightarrow>
     pg_items m t (map to_microseconds vs) (concat (map (data_frame_wire native m t) vs))"
  by (induction vs) (auto intro: items_nil items_cons)

lemma fields_represent:
  "length ts = length vs \<Longrightarrow>
     (\<And>t x. (t, x) \<in> set (zip ts vs) \<Longrightarrow> pg_data_frame m t (to_microseconds x) (data_frame_wire native m t x)) \<Longrightarrow>
     pg_fields m ts (map to_microseconds vs) (concat (map2 (frame_wire native m) ts vs))"
proof (induction ts vs rule: list_induct2)
  case (Cons t ts v vs)
  then show ?case by (auto simp: frame_wire_def intro!: fields_cons)
qed (simp add: fields_nil)

lemma represents:
  "wf_type t \<Longrightarrow> has_type t v \<Longrightarrow> fits t v \<Longrightarrow> uniform_nulls t v \<Longrightarrow> represents native m t v"
proof (induction rule: wire_value_induct)
  case (null t)
  show ?case by (simp add: represents_def is_null_def)
next
  case (some t x)
  then show ?case by (auto simp: represents_def is_null_def wire_simps intro: repr_nullable)
next
  case (array t t' vs)
  have "list_all (uniform_nulls t) vs" using array by auto
  then have "pg_items m t (map to_microseconds vs) (concat (map (data_frame_wire native m t) vs))"
    using array by (intro items_represent frame_represents) (auto simp: list_all_iff)
  from repr_array [OF _ _ this, of t' 0 0] array show ?case
    by (auto simp: represents_def wire_simps)
next
  case (fields ts nm t' vs)
  have u: "list_all (\<lambda>(f, x). f x) (zip (map uniform_nulls ts) vs)" using fields by auto
  have "pg_fields m ts (map to_microseconds vs) (concat (map2 (frame_wire native m) ts vs))"
    using fields uniform_field [OF u] by (intro fields_represent frame_represents) blast+
  from repr_fields [OF _ _ this, of t' nm] fields show ?case
    by (auto simp: represents_def wire_simps)
next
  case (scalar t v)
  then show ?case using repr_scalar [of t v m native] by (simp add: represents_def wire_scalar)
qed

text \<open>The values without bytes are the nulls and the empty strings.\<close>

definition no_bytes :: "pg_value \<Rightarrow> bool" where
  "no_bytes v \<longleftrightarrow> v = V_null \<or> v = V_string [] \<or> v = V_some (V_string [])"

lemma be_bytes_not_Nil: "8 \<le> LENGTH('a) \<Longrightarrow> be_bytes (w :: 'a::len word) \<noteq> []"
  using length_be_bytes [of w] by (auto simp: sizeof_def simp del: length_be_bytes)

lemma wire_empty_flat:
  "has_type t v \<Longrightarrow> \<not> is_nullable t \<Longrightarrow> wire native m t v = [] \<longleftrightarrow> v = V_string []"
  by (cases t)
    (auto simp: wire_simps wire_scalar send_scalar_def io_simps be_bytes_not_Nil ostream_write_int_be send_time_point_defined)

lemma wire_empty: "wf_type t \<Longrightarrow> has_type t v \<Longrightarrow> wire native m t v = [] \<longleftrightarrow> no_bytes v"
  using wire_empty_flat [of t v native m]
  by (cases t; cases v) (auto simp: no_bytes_def wire_simps wire_empty_flat)

section \<open>Properties\<close>


lemma minus_one_bytes: "be_bytes (- 1 :: 32 word) = [255, 255, 255, 255]"
  by code_simp


text \<open>C12: what \<open>send\<close> writes of a value that is not null represents that value in PostgreSQL's binary format (its time points cut
  to microseconds), with \<open>size_of\<close> as its length, for every value of less than 2 GiB in which no array of static-size elements mixes
  nulls and values.\<close>

theorem send_represented:
  assumes "wf_type t" and "has_type t v" and "payload_bound t v < 2 ^ 31" and "uniform_nulls t v" and "\<not> is_null t v"
  shows "pg_repr m t (to_microseconds v) (send native m t [] v) \<and> size_of t v = int (length (send native m t [] v))"
proof -
  have f: "fits t v" using assms(3) by (simp add: fits_def)
  have "size_of t v = int (length (wire native m t v))"
    using length_wire [OF assms(1,2) f assms(4), of native m] size_bounded [OF assms(1,2) f] assms(5)
    by (simp add: pos_size_def size_bounded_def)
  then show ?thesis
    using represents [OF assms(1,2) f assms(4), of native m] assms(5) by (simp add: represents_def wire_def)
qed

theorem send_represented_witness:
  "pg_repr [] (T_vector T_int4) (V_seq [V_int4 5, V_int4 6]) (send little [] (T_vector T_int4) [] (V_seq [V_int4 5, V_int4 6]))"
  using send_represented [of "T_vector T_int4" "V_seq [V_int4 5, V_int4 6]" "[]" little]
  by (simp add: static_size_def is_null_def)

end
