(* ===== verification/Bozo_Binary_Query.thy ===== *)
theory Bozo_Binary_Query
  imports Bozo_Pg_Format
begin

text \<open>
  \<open>io/binary_query.h\<close>: the query handed to \<open>PQsendQueryParams\<close>. The constructor of
  \<open>impl_type\<close> fills the four parallel arrays and the buffer the value pointers point into; a pointer
  is \<open>None\<close> (\<open>nullptr\<close>) or the offset it has from the start of the buffer.
\<close>

record binary_query =
  q_text :: string
  q_buffer :: "byte list"
  q_types :: "oid_t list"
  q_formats :: "int list"
  q_lengths :: "int list"
  q_values :: "nat option list"

definition binary_format :: int where
  "binary_format = 1"

type_synonym param = "cpp_type \<times> pg_value"

definition param_length :: "param \<Rightarrow> int" where
  "param_length p = max 0 (size_of (fst p) (snd p))"

text \<open>The second \<open>for_each\<close>: every parameter is sent to the buffer in order.\<close>

fun send_params :: "endian \<Rightarrow> oid_map \<Rightarrow> byte list \<Rightarrow> param list \<Rightarrow> byte list" where
  "send_params native m os [] = os"
| "send_params native m os (p # ps) = send_params native m (send native m (fst p) os (snd p)) ps"

text \<open>The third \<open>for_each\<close>, with the running \<open>offset\<close>.\<close>

fun value_pointers :: "nat \<Rightarrow> int list \<Rightarrow> nat option list" where
  "value_pointers offset [] = []"
| "value_pointers offset (l # ls) = (if l \<noteq> 0 then Some offset else None) # value_pointers (offset + nat l) ls"

definition make_binary_query :: "endian \<Rightarrow> string \<Rightarrow> param list \<Rightarrow> oid_map \<Rightarrow> binary_query" where
  "make_binary_query native sql params m =
     (let lengths = map param_length params
      in \<lparr>q_text = sql,
          q_buffer = send_params native m [] params,
          q_types = map (\<lambda>p. type_oid m (fst p)) params,
          q_formats = replicate (length params) binary_format,
          q_lengths = lengths,
          q_values = value_pointers 0 lengths\<rparr>)"

definition params_count :: "binary_query \<Rightarrow> nat" where
  "params_count q = length (q_types q)"

text \<open>\<open>to_binary_query\<close>: a query that is binary already is passed through.\<close>

datatype query_source = Query string "param list" | Binary binary_query

fun to_binary_query :: "endian \<Rightarrow> query_source \<Rightarrow> oid_map \<Rightarrow> binary_query" where
  "to_binary_query native (Query sql params) m = make_binary_query native sql params m"
| "to_binary_query native (Binary q) m = q"

text \<open>What libpq reads of parameter \<open>i\<close>: a null pointer is SQL NULL, otherwise \<open>lengths_[i]\<close>
  bytes from the pointer.\<close>

definition wire_param :: "binary_query \<Rightarrow> nat \<Rightarrow> byte list option" where
  "wire_param q i =
     (case q_values q ! i of None \<Rightarrow> None
      | Some off \<Rightarrow> Some (take (nat (q_lengths q ! i)) (drop off (q_buffer q))))"

section \<open>The arrays describe the buffer\<close>

definition param_ok :: "param \<Rightarrow> bool" where
  "param_ok p \<longleftrightarrow> wf_type (fst p) \<and> has_type (fst p) (snd p) \<and> fits (fst p) (snd p) \<and> uniform_nulls (fst p) (snd p)"

definition param_wire :: "endian \<Rightarrow> oid_map \<Rightarrow> param \<Rightarrow> byte list" where
  "param_wire native m p = wire native m (fst p) (snd p)"

lemma send_params_append: "send_params native m os ps = os @ concat (map (param_wire native m) ps)"
proof (induction ps arbitrary: os)
  case (Cons p ps)
  have "send native m (fst p) os (snd p) = os @ param_wire native m p"
    using send_append [of native m "fst p" os "snd p"] by (simp add: param_wire_def wire_def)
  with Cons show ?case by simp
qed simp

lemma length_value_pointers [simp]: "length (value_pointers off ls) = length ls"
  by (induction ls arbitrary: off) auto

lemma value_pointers_nth:
  "i < length ls \<Longrightarrow>
     value_pointers off ls ! i = (if ls ! i \<noteq> 0 then Some (off + sum_list (map nat (take i ls))) else None)"
proof (induction ls arbitrary: off i)
  case (Cons l ls)
  then show ?case by (cases i) (simp_all add: add.assoc)
qed simp

lemma param_length_wire: "param_ok p \<Longrightarrow> nat (param_length p) = length (param_wire native m p)"
  using length_wire [of "fst p" "snd p" native m]
  by (simp add: param_ok_def param_length_def param_wire_def pos_size_def max.commute)

lemma drop_concat:
  "i < length xs \<Longrightarrow> drop (sum_list (map length (take i xs))) (concat xs) = xs ! i @ concat (drop (Suc i) xs)"
proof (induction xs arbitrary: i)
  case (Cons x xs)
  then show ?case by (cases i) simp_all
qed simp

lemma wire_param_eq:
  assumes "list_all param_ok params" "i < length params"
  shows "wire_param (make_binary_query native sql params m) i =
     (if param_length (params ! i) = 0 then None else Some (param_wire native m (params ! i)))"
proof -
  let ?ws = "map (param_wire native m) params"
  have ok: "param_ok p" if "p \<in> set params" for p using assms(1) that by (simp add: list_all_iff)
  have "map nat (take i (map param_length params)) = map length (take i ?ws)"
    using ok param_length_wire [of _ native m] by (auto simp: take_map dest: in_set_takeD)
  then have "drop (sum_list (map nat (take i (map param_length params)))) (concat ?ws) =
      ?ws ! i @ concat (drop (Suc i) ?ws)"
    using drop_concat [of i ?ws] assms(2) by simp
  moreover have "nat (param_length (params ! i)) = length (?ws ! i)"
    using param_length_wire [OF ok, of "params ! i" native m] assms(2) by simp
  ultimately show ?thesis
    using assms(2)
    by (simp add: wire_param_def make_binary_query_def Let_def value_pointers_nth send_params_append)
qed

text \<open>What the server gets of parameter \<open>i\<close>: SQL NULL for a value without bytes, and otherwise the oid of the type and bytes of
  the announced length that represent the value.\<close>

definition sent_as :: "oid_map \<Rightarrow> binary_query \<Rightarrow> nat \<Rightarrow> cpp_type \<Rightarrow> pg_value \<Rightarrow> bool" where
  "sent_as m q i t v \<longleftrightarrow>
     q_types q ! i = type_oid m t \<and> q_formats q ! i = 1 \<and>
     (if no_bytes v then wire_param q i = None
      else \<exists>bs. wire_param q i = Some bs \<and> q_lengths q ! i = int (length bs) \<and> pg_repr m t v bs)"

lemma no_bytes_to_microseconds [simp]: "no_bytes (to_microseconds v) \<longleftrightarrow> no_bytes v"
proof (cases v)
  case (V_some x)
  then show ?thesis by (cases x) (simp_all add: no_bytes_def)
qed (simp_all add: no_bytes_def)

lemma binary_query_sent:
  assumes "list_all param_ok params" "i < length params" "params ! i = (t, v)"
  shows "sent_as m (make_binary_query native sql params m) i t (to_microseconds v)"
proof -
  have ok: "wf_type t" "has_type t v" "fits t v" "uniform_nulls t v"
    using assms(1,3) nth_mem [OF assms(2)] by (auto simp: list_all_iff param_ok_def)
  have len: "param_length (t, v) = int (length (wire native m t v))"
    using length_wire [OF ok, of native m] by (simp add: param_length_def pos_size_def max.commute)
  have "pg_repr m t (to_microseconds v) (wire native m t v)" if "\<not> no_bytes v"
    using represents [OF ok, of native m] that by (auto simp: represents_def is_null_def no_bytes_def)
  then show ?thesis
    using wire_param_eq [OF assms(1,2), of native sql m] wire_empty [OF ok(1,2), of native m] assms(2,3) len
    by (auto simp: sent_as_def make_binary_query_def Let_def binary_format_def param_wire_def)
qed



text \<open>An empty string, which is not null, has no bytes and so gets a null pointer: it reaches the
  server as SQL NULL.\<close>

theorem empty_string_sent_as_null:
  "wire_param (make_binary_query native sql [(T_string text_kind, V_string [])] m) 0 = None \<and>
   wire_param (make_binary_query native sql [(T_nullable (T_string text_kind), V_null)] m) 0 = None \<and>
   \<not> is_null (T_string text_kind) (V_string [])"
  by (simp add: wire_param_def make_binary_query_def Let_def param_length_def is_null_def null_state_size_def)

end
