(* ===== verification/Bozo_Query_Builder.thy ===== *)
theory Bozo_Query_Builder
  imports Bozo_Binary_Query
begin

text \<open>
  \<open>query_builder.h\<close> and \<open>impl/query.h\<close>: a query written as SQL text with values in between. The
  compile-time sequence of elements is a list; \<open>text()\<close> numbers the parameters from 1.
\<close>

datatype query_element = Query_text string | Query_param param

type_synonym query_builder = "query_element list"

definition digit_to_string :: "nat \<Rightarrow> string" where
  "digit_to_string d = [char_of (48 + d)]"

function (sequential) nat_to_string :: "nat \<Rightarrow> string"
  and nat_to_string_head :: "nat \<Rightarrow> string" where
  "nat_to_string value = nat_to_string_head ((value - value mod 10) div 10) @ digit_to_string (value mod 10)"
| "nat_to_string_head value = (if value = 0 then [] else nat_to_string value)"
  by pat_completeness auto
termination
  by (relation "measure (\<lambda>a. case a of Inl v \<Rightarrow> 2 * v + 1 | Inr v \<Rightarrow> if v = 0 then 0 else 2 * v + 2)") auto

definition text_step :: "nat \<times> string \<Rightarrow> query_element \<Rightarrow> nat \<times> string" where
  "text_step r e =
     (case e of Query_text s \<Rightarrow> (fst r, snd r @ s)
      | Query_param p \<Rightarrow> (fst r + 1, snd r @ ''$'' @ nat_to_string (fst r)))"

definition builder_text :: "query_builder \<Rightarrow> string" where
  "builder_text elements = snd (foldl text_step (1, []) elements)"

definition builder_params :: "query_builder \<Rightarrow> param list" where
  "builder_params elements =
     foldl (\<lambda>r e. case e of Query_text s \<Rightarrow> r | Query_param p \<Rightarrow> r @ [p]) [] elements"

definition builder_build :: "query_builder \<Rightarrow> query_source" where
  "builder_build elements = Query (builder_text elements) (builder_params elements)"

text \<open>The overloads of \<open>operator +\<close>.\<close>

definition builder_plus :: "query_builder \<Rightarrow> query_builder \<Rightarrow> query_builder" where
  "builder_plus lhs rhs = lhs @ rhs"

definition builder_plus_element :: "query_builder \<Rightarrow> query_element \<Rightarrow> query_builder" where
  "builder_plus_element builder element = builder @ [element]"

definition element_plus_builder :: "query_element \<Rightarrow> query_builder \<Rightarrow> query_builder" where
  "element_plus_builder lhs rhs = lhs # rhs"

definition builder_plus_param :: "query_builder \<Rightarrow> param \<Rightarrow> query_builder" where
  "builder_plus_param lhs rhs = builder_plus_element lhs (Query_param rhs)"

definition element_plus_element :: "query_element \<Rightarrow> query_element \<Rightarrow> query_builder" where
  "element_plus_element lhs rhs = [lhs, rhs]"

definition element_plus_param :: "query_element \<Rightarrow> param \<Rightarrow> query_builder" where
  "element_plus_param lhs rhs = [lhs, Query_param rhs]"

definition sql_literal :: "string \<Rightarrow> query_builder" where
  "sql_literal s = [Query_text s]"

section \<open>Placeholders\<close>

definition is_digit :: "char \<Rightarrow> bool" where
  "is_digit ch \<longleftrightarrow> 48 \<le> (of_char ch :: nat) \<and> (of_char ch :: nat) \<le> 57"

definition digits_value :: "string \<Rightarrow> nat" where
  "digits_value ds = foldl (\<lambda>a ch. 10 * a + ((of_char ch :: nat) - 48)) 0 ds"

text \<open>The parameter numbers a text refers to, as the server's scanner finds them: a dollar and the
  digits that follow it.\<close>

function placeholders :: "string \<Rightarrow> nat list" where
  "placeholders [] = []"
| "placeholders (ch # cs) =
     (if ch = CHR ''$'' then digits_value (takeWhile is_digit cs) # placeholders (dropWhile is_digit cs)
      else placeholders cs)"
  by pat_completeness auto
termination
  by (relation "measure length") (auto simp: le_imp_less_Suc length_dropWhile_le)

lemma is_digit_digit: "d < 10 \<Longrightarrow> list_all is_digit (digit_to_string d)"
  by (simp add: digit_to_string_def is_digit_def)

declare nat_to_string.simps [simp del] nat_to_string_head.simps [simp del]

lemma nat_to_string_unfold:
  "nat_to_string n = (if n < 10 then [] else nat_to_string (n div 10)) @ digit_to_string (n mod 10)"
proof -
  have "(n - n mod 10) div 10 = n div 10" by (simp add: minus_mod_eq_mult_div)
  then show ?thesis
    by (subst nat_to_string.simps, subst nat_to_string_head.simps) (auto simp: div_eq_0_iff)
qed

lemma nat_to_string_digits: "list_all is_digit (nat_to_string n)"
proof (induction n rule: less_induct)
  case (less n)
  then show ?case by (subst nat_to_string_unfold) (simp add: is_digit_digit)
qed

lemma digits_value_nat_to_string: "digits_value (nat_to_string n) = n"
proof (induction n rule: less_induct)
  case (less n)
  have d: "(of_char (char_of (48 + n mod 10) :: char) :: nat) - 48 = n mod 10" by simp
  show ?case
  proof (cases "n < 10")
    case True
    then show ?thesis by (subst nat_to_string_unfold) (simp add: digits_value_def digit_to_string_def)
  next
    case False
    then have "digits_value (nat_to_string (n div 10)) = n div 10" using less by simp
    with False d show ?thesis
      by (subst nat_to_string_unfold) (simp add: digits_value_def digit_to_string_def)
  qed
qed

definition starts_with_digit :: "string \<Rightarrow> bool" where
  "starts_with_digit s = (case s of [] \<Rightarrow> False | ch # _ \<Rightarrow> is_digit ch)"

lemma takeWhile_digits:
  assumes "list_all is_digit ds" "\<not> starts_with_digit rest"
  shows "takeWhile is_digit (ds @ rest) = ds" "dropWhile is_digit (ds @ rest) = rest"
  using assms by (induction ds; cases rest; simp add: starts_with_digit_def)+

lemma placeholders_param:
  "\<not> starts_with_digit rest \<Longrightarrow> placeholders (CHR ''$'' # nat_to_string n @ rest) = n # placeholders rest"
  by (simp add: takeWhile_digits nat_to_string_digits digits_value_nat_to_string)

lemma placeholders_text: "CHR ''$'' \<notin> set s \<Longrightarrow> placeholders (s @ rest) = placeholders rest"
  by (induction s) auto

section \<open>The text of a builder\<close>

fun text_from :: "nat \<Rightarrow> query_builder \<Rightarrow> string" where
  "text_from n [] = []"
| "text_from n (Query_text s # es) = s @ text_from n es"
| "text_from n (Query_param p # es) = ''$'' @ nat_to_string n @ text_from (Suc n) es"

lemma foldl_text_step: "snd (foldl text_step (n, acc) es) = acc @ text_from n es"
  by (induction n es arbitrary: acc rule: text_from.induct) (simp_all add: text_step_def)

lemma builder_text_from: "builder_text es = text_from 1 es"
  by (simp add: builder_text_def foldl_text_step)

fun params_of :: "query_builder \<Rightarrow> param list" where
  "params_of [] = []"
| "params_of (Query_text s # es) = params_of es"
| "params_of (Query_param p # es) = p # params_of es"

lemma foldl_params:
  "foldl (\<lambda>r e. case e of Query_text s \<Rightarrow> r | Query_param p \<Rightarrow> r @ [p]) acc es = acc @ params_of es"
  by (induction es arbitrary: acc rule: params_of.induct) simp_all

lemma builder_params_of: "builder_params es = params_of es"
  by (simp add: builder_params_def foldl_params)

lemma params_of_append [simp]: "params_of (xs @ ys) = params_of xs @ params_of ys"
  by (induction xs rule: params_of.induct) simp_all

lemma text_from_append: "text_from n (xs @ ys) = text_from n xs @ text_from (n + length (params_of xs)) ys"
  by (induction n xs rule: text_from.induct) simp_all

text \<open>No text has a dollar of its own, and the text after a parameter does not begin with a digit.\<close>

fun separated :: "query_builder \<Rightarrow> bool" where
  "separated [] = True"
| "separated (Query_text s # es) = (CHR ''$'' \<notin> set s \<and> separated es)"
| "separated (Query_param p # es) = (\<not> starts_with_digit (text_from 1 es) \<and> separated es)"

lemma starts_with_digit_append:
  "starts_with_digit (s @ t) = (if s = [] then starts_with_digit t else starts_with_digit s)"
  by (cases s) (simp_all add: starts_with_digit_def)

lemma starts_with_digit_text_from: "starts_with_digit (text_from n es) = starts_with_digit (text_from m es)"
proof (induction n es arbitrary: m rule: text_from.induct)
  case (2 n s es)
  then show ?case by (simp add: starts_with_digit_append)
next
  case (3 n p es)
  show ?case by (simp add: starts_with_digit_def is_digit_def)
qed simp

lemma placeholders_text_from:
  "separated es \<Longrightarrow> placeholders (text_from n es) = [n..<n + length (params_of es)]"
proof (induction n es rule: text_from.induct)
  case (2 n s es)
  then show ?case by (simp add: placeholders_text)
next
  case (3 n p es)
  have "\<not> starts_with_digit (text_from (Suc n) es)"
    using 3 starts_with_digit_text_from [of "Suc n" es 1] by simp
  with 3 show ?case by (simp add: placeholders_param upt_rec del: placeholders.simps)
qed simp

text \<open>C34: the text a builder produces refers to its parameters by their positions, \<open>$1\<close> to \<open>$n\<close> in order,
  and the binary query made of it has exactly these \<open>n\<close> parameters, provided the SQL texts have
  no dollars of their own and none that follows a parameter begins with a digit.\<close>

theorem builder_placeholders:
  assumes "separated es"
  shows "placeholders (builder_text es) = [1..<Suc (length (builder_params es))] \<and>
     params_count (to_binary_query native (builder_build es) m) = length (builder_params es)"
  using placeholders_text_from [OF assms, of 1]
  by (simp add: builder_text_from builder_params_of builder_build_def params_count_def make_binary_query_def Let_def)

theorem builder_placeholders_witness:
  "placeholders (builder_text (builder_plus (builder_plus_param (sql_literal ''SELECT '') (T_int4, V_int4 7))
     (builder_plus_param (sql_literal '' + '') (T_int4, V_int4 8)))) = [1, 2]"
  using builder_placeholders [of "builder_plus (builder_plus_param (sql_literal ''SELECT '') (T_int4, V_int4 7))
     (builder_plus_param (sql_literal '' + '') (T_int4, V_int4 8))" little "[]"]
  by (simp add: builder_plus_def builder_plus_param_def builder_plus_element_def sql_literal_def starts_with_digit_def is_digit_def
      builder_params_def upt_rec)

text \<open>\<open>operator +\<close> composes queries: the text of a sum is the text of the first with the second numbered
  on from it, and its parameters are those of both in order. The overloads agree: each of them is the sum of the builders of its
  operands, so that a query is the same in whatever order its parts are added.\<close>

theorem builder_plus_composes:
  "builder_text (builder_plus a b) = builder_text a @ text_from (1 + length (builder_params a)) b \<and>
   builder_params (builder_plus a b) = builder_params a @ builder_params b \<and>
   builder_plus (builder_plus a b) c = builder_plus a (builder_plus b c)"
  by (simp add: builder_text_from builder_params_of builder_plus_def text_from_append)

lemma operator_plus_overloads:
  "builder_plus_element a e = builder_plus a [e]" "element_plus_builder e a = builder_plus [e] a"
  "builder_plus_param a p = builder_plus a [Query_param p]" "element_plus_element e e' = builder_plus [e] [e']"
  "element_plus_param e p = builder_plus_param [e] p"
  by (simp_all add: builder_plus_element_def element_plus_builder_def builder_plus_param_def element_plus_element_def element_plus_param_def
      builder_plus_def)

end
