(* ===== verification/Bozo_Request.thy ===== *)
theory Bozo_Request
  imports Bozo_Error
begin

text \<open>
  \<open>impl/async_request.h\<close>, \<open>impl/io.h\<close> and \<open>impl/result_status.h\<close>: the asynchronous request, a
  sending and a receiving operation that share one context and one completion handler. libpq is
  a record of functions over an abstract state \<open>'s\<close>; the completions of the socket waits are the events of
  a step relation, in any order. The context keeps what the source keeps (query state, error
  context of the connection) and records the waits that are pending, the \<open>cancel()\<close> calls and the
  calls of the handler.
\<close>

section \<open>libpq\<close>

datatype exec_status =
    PGRES_EMPTY_QUERY | PGRES_COMMAND_OK | PGRES_TUPLES_OK | PGRES_COPY_OUT | PGRES_COPY_IN
  | PGRES_BAD_RESPONSE | PGRES_NONFATAL_ERROR | PGRES_FATAL_ERROR | PGRES_COPY_BOTH
  | PGRES_SINGLE_TUPLE | PGRES_PIPELINE_SYNC | PGRES_PIPELINE_ABORTED | PGRES_TUPLES_CHUNK

primrec get_result_status_name :: "exec_status \<Rightarrow> string" where
  "get_result_status_name PGRES_SINGLE_TUPLE = ''PGRES_SINGLE_TUPLE''"
| "get_result_status_name PGRES_TUPLES_OK = ''PGRES_TUPLES_OK''"
| "get_result_status_name PGRES_COMMAND_OK = ''PGRES_COMMAND_OK''"
| "get_result_status_name PGRES_COPY_OUT = ''PGRES_COPY_OUT''"
| "get_result_status_name PGRES_COPY_IN = ''PGRES_COPY_IN''"
| "get_result_status_name PGRES_COPY_BOTH = ''PGRES_COPY_BOTH''"
| "get_result_status_name PGRES_NONFATAL_ERROR = ''PGRES_NONFATAL_ERROR''"
| "get_result_status_name PGRES_BAD_RESPONSE = ''PGRES_BAD_RESPONSE''"
| "get_result_status_name PGRES_EMPTY_QUERY = ''PGRES_EMPTY_QUERY''"
| "get_result_status_name PGRES_FATAL_ERROR = ''PGRES_FATAL_ERROR''"
| "get_result_status_name PGRES_PIPELINE_SYNC = ''PGRES_PIPELINE_SYNC''"
| "get_result_status_name PGRES_PIPELINE_ABORTED = ''PGRES_PIPELINE_ABORTED''"
| "get_result_status_name PGRES_TUPLES_CHUNK = ''PGRES_TUPLES_CHUNK''"

text \<open>A \<open>PGresult\<close>: its status, the SQL state of an error, and a tag for its contents.\<close>

record pg_result =
  res_status :: exec_status
  res_sqlstate :: "string option"
  res_tag :: nat

record 's libpq =
  PQsetnonblocking :: "'s \<Rightarrow> int \<times> 's"
  PQsendQueryParams :: "'s \<Rightarrow> int \<times> 's"
  PQflush :: "'s \<Rightarrow> int \<times> 's"
  PQconsumeInput :: "'s \<Rightarrow> int \<times> 's"
  PQisBusy :: "'s \<Rightarrow> bool"
  PQgetResult :: "'s \<Rightarrow> pg_result option \<times> 's"

datatype query_state = qs_error | send_finish | send_in_progress

definition query_state_of :: "int \<Rightarrow> query_state option" where
  "query_state_of i =
     (if i = - 1 then Some qs_error else if i = 0 then Some send_finish
      else if i = 1 then Some send_in_progress else None)"

definition set_nonblocking :: "'s libpq \<Rightarrow> 's \<Rightarrow> error_code \<times> 's" where
  "set_nonblocking pq s =
     (let (r, s') = PQsetnonblocking pq s
      in (if r \<noteq> 0 then make_error_code pg_set_nonblocking_failed else no_error, s'))"

definition consume_input :: "'s libpq \<Rightarrow> 's \<Rightarrow> error_code \<times> 's" where
  "consume_input pq s =
     (let (r, s') = PQconsumeInput pq s
      in (if r = 0 then make_error_code pg_consume_input_failed else no_error, s'))"

section \<open>The request context\<close>

text \<open>Where the coroutine of \<open>async_get_result_op\<close> is suspended.\<close>

datatype result_pc =
    Not_started
  | Wait_first
  | Wait_rest pg_result
  | Finished

record 's request_context =
  pq_state :: 's
  error_context :: string
  cancel_calls :: nat
  q_state :: query_state
  wait_write :: bool
  wait_read :: bool
  pc :: result_pc
  handler_calls :: "error_code list"

definition make_request_operation_context :: "'s \<Rightarrow> string \<Rightarrow> 's request_context" where
  "make_request_operation_context s ectx =
     \<lparr>pq_state = s, error_context = ectx, cancel_calls = 0, q_state = send_in_progress, wait_write = False,
      wait_read = False, pc = Not_started, handler_calls = []\<rparr>"

definition done_error :: "'s request_context \<Rightarrow> error_code \<Rightarrow> 's request_context" where
  "done_error ctx ec =
     ctx\<lparr>q_state := qs_error, cancel_calls := cancel_calls ctx + 1, handler_calls := handler_calls ctx @ [ec]\<rparr>"

definition done_ok :: "'s request_context \<Rightarrow> 's request_context" where
  "done_ok ctx = ctx\<lparr>handler_calls := handler_calls ctx @ [no_error]\<rparr>"

section \<open>Sending\<close>

definition send_op :: "'s libpq \<Rightarrow> error_code \<Rightarrow> 's request_context \<Rightarrow> 's request_context" where
  "send_op pq ec ctx0 =
     (let ctx = ctx0\<lparr>wait_write := False\<rparr>
      in if q_state ctx \<noteq> send_in_progress then ctx
         else if is_error ec then done_error ctx ec
         else let (r, s) = PQflush pq (pq_state ctx); ctx = ctx\<lparr>pq_state := s\<rparr>
              in case query_state_of r of
                   Some qs_error \<Rightarrow> done_error ctx (make_error_code pg_flush_failed)
                 | Some send_in_progress \<Rightarrow> ctx\<lparr>wait_write := True\<rparr>
                 | Some send_finish \<Rightarrow> ctx\<lparr>q_state := send_finish\<rparr>
                 | None \<Rightarrow> ctx)"

definition send_perform :: "'s libpq \<Rightarrow> 's request_context \<Rightarrow> 's request_context" where
  "send_perform pq ctx =
     (let (ec, s) = set_nonblocking pq (pq_state ctx); ctx = ctx\<lparr>pq_state := s\<rparr>
      in if is_error ec then done_error ctx ec
         else let (r, s) = PQsendQueryParams pq (pq_state ctx); ctx = ctx\<lparr>pq_state := s\<rparr>
              in if r = 0 then done_error ctx (make_error_code pg_send_query_params_failed)
                 else send_op pq no_error ctx)"

section \<open>Receiving\<close>

definition result_done_ok :: "'s request_context \<Rightarrow> 's request_context" where
  "result_done_ok ctx = done_ok (ctx\<lparr>pc := Finished\<rparr>)"

definition result_done_error :: "'s request_context \<Rightarrow> error_code \<Rightarrow> 's request_context" where
  "result_done_error ctx ec =
     (let ctx = (if error_context ctx = [] then ctx\<lparr>error_context := ''error while get request result''\<rparr> else ctx)
      in done_error (ctx\<lparr>pc := Finished\<rparr>) ec)"

text \<open>\<open>process\<close> is the output handler: the text of the exception it throws, or \<open>None\<close>.\<close>

definition process_and_done :: "(pg_result \<Rightarrow> string option) \<Rightarrow> pg_result \<Rightarrow> 's request_context \<Rightarrow> 's request_context" where
  "process_and_done process r ctx =
     (case process r of
        Some what \<Rightarrow> result_done_error (ctx\<lparr>error_context := what\<rparr>) (make_error_code bad_result_process)
      | None \<Rightarrow> result_done_ok ctx)"

definition handle_result :: "(pg_result \<Rightarrow> string option) \<Rightarrow> pg_result \<Rightarrow> 's request_context \<Rightarrow> 's request_context" where
  "handle_result process r ctx =
     (case res_status r of
        PGRES_SINGLE_TUPLE \<Rightarrow> process_and_done process r ctx
      | PGRES_TUPLES_OK \<Rightarrow> process_and_done process r ctx
      | PGRES_COMMAND_OK \<Rightarrow> process_and_done process r ctx
      | PGRES_BAD_RESPONSE \<Rightarrow> result_done_error ctx (make_error_code result_status_bad_response)
      | PGRES_EMPTY_QUERY \<Rightarrow> result_done_error ctx (make_error_code result_status_empty_query)
      | PGRES_FATAL_ERROR \<Rightarrow> result_done_error ctx (result_error (res_sqlstate r))
      | _ \<Rightarrow> result_done_error (ctx\<lparr>error_context := get_result_status_name (res_status r)\<rparr>)
              (make_error_code result_status_unexpected))"

text \<open>The \<open>do ... while (get_result(...))\<close> loop up to its next suspension: \<open>True\<close> when it has to wait for
  input, \<open>False\<close> when libpq has no more results. It ends only because libpq does.\<close>

partial_function (option) drain :: "'s libpq \<Rightarrow> 's \<Rightarrow> (bool \<times> 's) option" where
  "drain pq s =
     (if PQisBusy pq s then Some (True, s)
      else case PQgetResult pq s of
             (Some r, s') \<Rightarrow> drain pq s'
           | (None, s') \<Rightarrow> Some (False, s'))"

definition result_rest ::
  "'s libpq \<Rightarrow> (pg_result \<Rightarrow> string option) \<Rightarrow> pg_result \<Rightarrow> 's request_context \<Rightarrow> 's request_context option" where
  "result_rest pq process r ctx =
     Option.bind (drain pq (pq_state ctx)) (\<lambda>(busy, s).
       let ctx = ctx\<lparr>pq_state := s\<rparr>
       in Some (if busy then ctx\<lparr>wait_read := True, pc := Wait_rest r\<rparr> else handle_result process r ctx))"

definition result_first ::
  "'s libpq \<Rightarrow> (pg_result \<Rightarrow> string option) \<Rightarrow> 's request_context \<Rightarrow> 's request_context option" where
  "result_first pq process ctx =
     (if PQisBusy pq (pq_state ctx) then Some (ctx\<lparr>wait_read := True, pc := Wait_first\<rparr>)
      else case PQgetResult pq (pq_state ctx) of
             (None, s) \<Rightarrow> Some (result_done_ok (ctx\<lparr>pq_state := s\<rparr>))
           | (Some r, s) \<Rightarrow>
               (let ctx = ctx\<lparr>pq_state := s\<rparr>
                in if res_status r \<noteq> PGRES_SINGLE_TUPLE then result_rest pq process r ctx
                   else Some (handle_result process r ctx)))"

definition get_result_op ::
  "sys_errors \<Rightarrow> 's libpq \<Rightarrow> (pg_result \<Rightarrow> string option) \<Rightarrow> error_code \<Rightarrow> 's request_context \<Rightarrow> 's request_context option" where
  "get_result_op sys pq process ec ctx0 =
     (let ctx = ctx0\<lparr>wait_read := False\<rparr>
      in if q_state ctx = qs_error then Some ctx
         else if is_error ec
           then Some (result_done_error ctx
                  (if ec = asio_code sys bad_descriptor then asio_code sys operation_aborted else ec))
         else case pc ctx of
                Not_started \<Rightarrow> result_first pq process ctx
              | Wait_first \<Rightarrow>
                  (let (err, s) = consume_input pq (pq_state ctx); ctx = ctx\<lparr>pq_state := s\<rparr>
                   in if is_error err then Some (result_done_error ctx err) else result_first pq process ctx)
              | Wait_rest r \<Rightarrow>
                  (let (err, s) = consume_input pq (pq_state ctx); ctx = ctx\<lparr>pq_state := s\<rparr>
                   in if is_error err then Some (handle_result process r ctx) else result_rest pq process r ctx)
              | Finished \<Rightarrow> Some ctx)"

section \<open>The request\<close>

definition async_request_op ::
  "sys_errors \<Rightarrow> 's libpq \<Rightarrow> (pg_result \<Rightarrow> string option) \<Rightarrow> error_code \<Rightarrow> 's \<Rightarrow> string \<Rightarrow> 's request_context option" where
  "async_request_op sys pq process ec s ectx =
     (let ctx = make_request_operation_context s ectx
      in if is_error ec then Some (ctx\<lparr>pc := Finished, handler_calls := [ec]\<rparr>)
         else get_result_op sys pq process no_error (send_perform pq ctx))"

text \<open>The completions of the pending waits.\<close>

inductive request_step ::
  "sys_errors \<Rightarrow> 's libpq \<Rightarrow> (pg_result \<Rightarrow> string option) \<Rightarrow> 's request_context \<Rightarrow> 's request_context \<Rightarrow> bool"
  for sys pq process where
  write_ready: "wait_write ctx \<Longrightarrow> request_step sys pq process ctx (send_op pq ec ctx)"
| read_ready: "wait_read ctx \<Longrightarrow> get_result_op sys pq process ec ctx = Some ctx' \<Longrightarrow>
     request_step sys pq process ctx ctx'"

text \<open>The states of a request, with the completions of its waits in any order.\<close>

inductive request_reach ::
  "sys_errors \<Rightarrow> 's libpq \<Rightarrow> (pg_result \<Rightarrow> string option) \<Rightarrow> 's \<Rightarrow> string \<Rightarrow> ('s request_context \<Rightarrow> bool) \<Rightarrow> 's request_context \<Rightarrow> bool"
  for sys pq process s ectx P where
  start: "async_request_op sys pq process no_error s ectx = Some ctx \<Longrightarrow> request_reach sys pq process s ectx P ctx"
| step: "request_reach sys pq process s ectx P ctx \<Longrightarrow> P ctx \<Longrightarrow> request_step sys pq process ctx ctx' \<Longrightarrow>
     request_reach sys pq process s ectx P ctx'"

text \<open>The result has been delivered while the query is still being written.\<close>

definition delivered_unsent :: "'s request_context \<Rightarrow> bool" where
  "delivered_unsent ctx \<longleftrightarrow> pc ctx = Finished \<and> q_state ctx = send_in_progress"

section \<open>The handler\<close>

lemma no_error_not_error [simp]: "\<not> is_error no_error"
  by (simp add: is_error_def no_error_def)

text \<open>How a part of the receiving operation ends: it waits for input, or it has called the handler
  once, and then the query state says error or the coroutine is at its end.\<close>

definition waits_or_calls :: "'s request_context \<Rightarrow> 's request_context \<Rightarrow> bool" where
  "waits_or_calls ctx ctx' \<longleftrightarrow>
     (wait_read ctx' \<and> pc ctx' \<notin> {Not_started, Finished} \<and> handler_calls ctx' = handler_calls ctx \<and> q_state ctx' = q_state ctx) \<or>
     (\<not> wait_read ctx' \<and> pc ctx' = Finished \<and> (\<exists>ec. handler_calls ctx' = handler_calls ctx @ [ec]) \<and>
       q_state ctx' \<in> {qs_error, q_state ctx})"

lemma result_done_error_fields [simp]:
  "pc (result_done_error ctx ec) = Finished" "q_state (result_done_error ctx ec) = qs_error"
  "wait_read (result_done_error ctx ec) = wait_read ctx" "wait_write (result_done_error ctx ec) = wait_write ctx"
  "handler_calls (result_done_error ctx ec) = handler_calls ctx @ [ec]"
  "cancel_calls (result_done_error ctx ec) = cancel_calls ctx + 1"
  by (simp_all add: result_done_error_def done_error_def)

lemma result_done_ok_fields [simp]:
  "pc (result_done_ok ctx) = Finished" "q_state (result_done_ok ctx) = q_state ctx"
  "wait_read (result_done_ok ctx) = wait_read ctx" "wait_write (result_done_ok ctx) = wait_write ctx"
  "handler_calls (result_done_ok ctx) = handler_calls ctx @ [no_error]"
  "cancel_calls (result_done_ok ctx) = cancel_calls ctx"
  by (simp_all add: result_done_ok_def done_ok_def)

lemma handle_result_calls:
  "\<not> wait_read ctx \<Longrightarrow> waits_or_calls ctx (handle_result process r ctx)"
  by (cases "res_status r") (auto simp: handle_result_def process_and_done_def waits_or_calls_def split: option.split)

lemma waits_or_calls_pq [simp]: "waits_or_calls (ctx\<lparr>pq_state := s\<rparr>) ctx' = waits_or_calls ctx ctx'"
  by (simp add: waits_or_calls_def)

lemma result_rest_calls:
  assumes "\<not> wait_read ctx" "result_rest pq process r ctx = Some ctx'"
  shows "waits_or_calls ctx ctx'"
proof -
  from assms(2) obtain busy s where d: "drain pq (pq_state ctx) = Some (busy, s)"
    "ctx' = (if busy then ctx\<lparr>pq_state := s, wait_read := True, pc := Wait_rest r\<rparr> else handle_result process r (ctx\<lparr>pq_state := s\<rparr>))"
    by (cases "drain pq (pq_state ctx)") (auto simp: result_rest_def Let_def)
  show ?thesis
  proof (cases busy)
    case True
    then show ?thesis using d(2) by (simp add: waits_or_calls_def)
  next
    case False
    then show ?thesis
      using d(2) handle_result_calls [of "ctx\<lparr>pq_state := s\<rparr>" process r] assms(1) by simp
  qed
qed

lemma result_first_calls:
  assumes "\<not> wait_read ctx" "result_first pq process ctx = Some ctx'"
  shows "waits_or_calls ctx ctx'"
proof (cases "PQisBusy pq (pq_state ctx)")
  case True
  then show ?thesis using assms(2) by (auto simp: result_first_def waits_or_calls_def)
next
  case False
  obtain res s where res: "PQgetResult pq (pq_state ctx) = (res, s)" by (cases "PQgetResult pq (pq_state ctx)")
  then show ?thesis
    using False assms result_rest_calls [of "ctx\<lparr>pq_state := s\<rparr>" pq process _ ctx']
      handle_result_calls [of "ctx\<lparr>pq_state := s\<rparr>" process]
    by (cases res) (auto simp: result_first_def Let_def waits_or_calls_def [of ctx] split: if_splits)
qed

lemma get_result_op_calls:
  assumes "q_state ctx \<noteq> qs_error" "pc ctx \<noteq> Finished" "get_result_op sys pq process ec ctx = Some ctx'"
  shows "waits_or_calls ctx ctx'"
proof -
  let ?ctx = "ctx\<lparr>wait_read := False\<rparr>"
  have eq: "waits_or_calls ?ctx ctx' = waits_or_calls ctx ctx'" by (simp add: waits_or_calls_def)
  show ?thesis
  proof (cases "is_error ec")
    case True
    then have "waits_or_calls ?ctx ctx'"
      using assms by (auto simp: get_result_op_def Let_def waits_or_calls_def)
    then show ?thesis by (simp add: eq)
  next
    case False
    obtain err s where c: "consume_input pq (pq_state ctx) = (err, s)" by (cases "consume_input pq (pq_state ctx)")
    have "waits_or_calls ?ctx (result_done_error (?ctx\<lparr>pq_state := s\<rparr>) err)"
      by (simp add: waits_or_calls_def)
    then have "waits_or_calls ?ctx ctx'"
      using False assms c result_first_calls [of ?ctx pq process ctx']
        result_first_calls [of "?ctx\<lparr>pq_state := s\<rparr>" pq process ctx']
        result_rest_calls [of "?ctx\<lparr>pq_state := s\<rparr>" pq process _ ctx']
        handle_result_calls [of "?ctx\<lparr>pq_state := s\<rparr>" process]
      by (cases "pc ctx") (auto simp: get_result_op_def Let_def split: if_splits)
    then show ?thesis by (simp add: eq)
  qed
qed

text \<open>The handler has been called exactly when an error or the end of the receiving operation was
  reached; until then a read is pending.\<close>

definition request_inv :: "'s request_context \<Rightarrow> bool" where
  "request_inv ctx \<longleftrightarrow>
     length (handler_calls ctx) = (if q_state ctx = qs_error \<or> pc ctx = Finished then 1 else 0) \<and>
     (q_state ctx \<noteq> qs_error \<longrightarrow> (wait_read ctx \<longleftrightarrow> pc ctx \<noteq> Finished) \<and> pc ctx \<noteq> Not_started)"

lemma done_error_fields [simp]:
  "pc (done_error ctx ec) = pc ctx" "q_state (done_error ctx ec) = qs_error"
  "wait_read (done_error ctx ec) = wait_read ctx" "handler_calls (done_error ctx ec) = handler_calls ctx @ [ec]"
  by (simp_all add: done_error_def)

text \<open>The sending operation calls the handler exactly when it moves the query state to error.\<close>

lemma send_op_calls:
  "pc (send_op pq ec ctx) = pc ctx \<and> wait_read (send_op pq ec ctx) = wait_read ctx \<and>
   (if q_state (send_op pq ec ctx) = qs_error \<and> q_state ctx \<noteq> qs_error
    then q_state ctx = send_in_progress \<and> (\<exists>e. handler_calls (send_op pq ec ctx) = handler_calls ctx @ [e])
    else handler_calls (send_op pq ec ctx) = handler_calls ctx) \<and>
   (q_state ctx \<noteq> send_in_progress \<longrightarrow> q_state (send_op pq ec ctx) = q_state ctx)"
  by (auto simp: send_op_def Let_def split: prod.split option.split query_state.split)

lemma send_perform_calls:
  assumes "q_state ctx = send_in_progress"
  shows "pc (send_perform pq ctx) = pc ctx \<and> wait_read (send_perform pq ctx) = wait_read ctx \<and>
   (if q_state (send_perform pq ctx) = qs_error then \<exists>e. handler_calls (send_perform pq ctx) = handler_calls ctx @ [e]
    else handler_calls (send_perform pq ctx) = handler_calls ctx)"
proof -
  obtain ec s where a: "set_nonblocking pq (pq_state ctx) = (ec, s)" by (cases "set_nonblocking pq (pq_state ctx)")
  obtain r s' where b: "PQsendQueryParams pq s = (r, s')" by (cases "PQsendQueryParams pq s")
  show ?thesis
    using assms send_op_calls [of pq no_error "ctx\<lparr>pq_state := s'\<rparr>"]
    by (auto simp: send_perform_def a b Let_def split: if_splits)
qed

lemma request_inv_start:
  assumes "async_request_op sys pq process no_error s ectx = Some ctx"
  shows "request_inv ctx"
proof -
  let ?c = "send_perform pq (make_request_operation_context s ectx)"
  have c: "pc ?c = Not_started" "\<not> wait_read ?c"
    "length (handler_calls ?c) = (if q_state ?c = qs_error then 1 else 0)"
    using send_perform_calls [of "make_request_operation_context s ectx" pq]
    by (auto simp: make_request_operation_context_def split: if_splits)
  have g: "get_result_op sys pq process no_error ?c = Some ctx"
    using assms by (simp add: async_request_op_def Let_def)
  show ?thesis
  proof (cases "q_state ?c = qs_error")
    case True
    then show ?thesis using g c by (auto simp: get_result_op_def request_inv_def)
  next
    case False
    then show ?thesis
      using get_result_op_calls [OF False _ g] c by (auto simp: waits_or_calls_def request_inv_def)
  qed
qed

lemma request_inv_step:
  assumes "request_inv ctx" "\<not> delivered_unsent ctx" "request_step sys pq process ctx ctx'"
  shows "request_inv ctx'"
  using assms(3)
proof cases
  case (write_ready ec)
  then show ?thesis
    using assms(1,2) send_op_calls [of pq ec ctx]
    by (auto simp: request_inv_def delivered_unsent_def split: if_splits)
next
  case (read_ready ec)
  show ?thesis
  proof (cases "q_state ctx = qs_error")
    case True
    then show ?thesis
      using assms(1) read_ready by (auto simp: get_result_op_def request_inv_def)
  next
    case False
    then show ?thesis
      using get_result_op_calls [OF False _ read_ready(2)] assms(1) read_ready(1)
      by (auto simp: waits_or_calls_def request_inv_def split: if_splits)
  qed
qed

lemma request_reach_inv:
  "request_reach sys pq process s ectx (\<lambda>ctx. \<not> delivered_unsent ctx) ctx \<Longrightarrow> request_inv ctx"
  by (induction rule: request_reach.induct) (auto intro: request_inv_start request_inv_step)

text \<open>C3: whatever libpq answers and in whatever order the read and write waits complete, the handler
  of a request is called at most once; it has been called as soon as no read is pending, and
  also when sending failed. The runs are those in which the result is not delivered while
  the query is still being written.\<close>

theorem request_handler_once:
  assumes "request_reach sys pq process s ectx (\<lambda>ctx. \<not> delivered_unsent ctx) ctx"
  shows "length (handler_calls ctx) \<le> 1 \<and>
     (\<not> wait_read ctx \<longrightarrow> length (handler_calls ctx) = 1) \<and>
     (q_state ctx = qs_error \<longrightarrow> length (handler_calls ctx) = 1)"
  using request_reach_inv [OF assms] by (auto simp: request_inv_def split: if_splits)

text \<open>A server that answers with one result as soon as its input is read, and whose connection still
  reports unsent output.\<close>

definition one_result :: pg_result where
  "one_result = \<lparr>res_status = PGRES_TUPLES_OK, res_sqlstate = None, res_tag = 0\<rparr>"

definition sample_pq :: "int \<Rightarrow> nat libpq" where
  "sample_pq flush =
     \<lparr>PQsetnonblocking = (\<lambda>s. (0, s)), PQsendQueryParams = (\<lambda>s. (1, s)), PQflush = (\<lambda>s. (flush, s)),
      PQconsumeInput = (\<lambda>s. (1, Suc s)), PQisBusy = (\<lambda>s. s = 0),
      PQgetResult = (\<lambda>s. if s = 1 then (Some one_result, 2) else (None, s))\<rparr>"

definition waiting_ctx :: "int \<Rightarrow> nat request_context" where
  "waiting_ctx flush =
     \<lparr>pq_state = 0, error_context = [], cancel_calls = 0,
      q_state = (if flush = 0 then send_finish else send_in_progress), wait_write = (flush = 1),
      wait_read = True, pc = Wait_first, handler_calls = []\<rparr>"

definition delivered_ctx :: "int \<Rightarrow> nat request_context" where
  "delivered_ctx flush = (waiting_ctx flush)\<lparr>pq_state := 2, wait_read := False, pc := Finished, handler_calls := [no_error]\<rparr>"

lemma sample_pq_fields [simp]:
  "PQsetnonblocking (sample_pq flush) s = (0, s)" "PQsendQueryParams (sample_pq flush) s = (1, s)"
  "PQflush (sample_pq flush) s = (flush, s)" "PQconsumeInput (sample_pq flush) s = (1, Suc s)"
  "PQisBusy (sample_pq flush) s = (s = 0)"
  "PQgetResult (sample_pq flush) s = (if s = 1 then (Some one_result, 2) else (None, s))"
  by (simp_all add: sample_pq_def)

lemmas sample_simps = waiting_ctx_def delivered_ctx_def async_request_op_def
  make_request_operation_context_def send_perform_def send_op_def set_nonblocking_def query_state_of_def
  get_result_op_def result_first_def consume_input_def

lemma sample_start: "flush \<in> {0, 1} \<Longrightarrow> async_request_op sys (sample_pq flush) process no_error 0 [] = Some (waiting_ctx flush)"
  by (auto simp: sample_simps)

lemma sample_drain [simp]: "drain (sample_pq flush) 2 = Some (False, 2)"
  by (subst drain.simps) simp

lemma sample_delivered:
  "get_result_op sys (sample_pq flush) (\<lambda>_. None) no_error (waiting_ctx flush) = Some (delivered_ctx flush)"
  by (simp add: sample_simps one_result_def result_rest_def handle_result_def process_and_done_def
      result_done_ok_def done_ok_def)

theorem request_handler_once_witness:
  "length (handler_calls (delivered_ctx 0)) \<le> 1 \<and> length (handler_calls (delivered_ctx 0)) = 1"
proof -
  have "request_reach sample_sys (sample_pq 0) (\<lambda>_. None) 0 [] (\<lambda>ctx. \<not> delivered_unsent ctx) (waiting_ctx 0)"
    by (rule request_reach.start) (simp add: sample_start)
  moreover have "request_step sample_sys (sample_pq 0) (\<lambda>_. None) (waiting_ctx 0) (delivered_ctx 0)"
    by (rule request_step.read_ready [OF _ sample_delivered]) (simp add: waiting_ctx_def)
  moreover have "\<not> delivered_unsent (waiting_ctx 0)" by (simp add: delivered_unsent_def waiting_ctx_def)
  ultimately have "request_reach sample_sys (sample_pq 0) (\<lambda>_. None) 0 [] (\<lambda>ctx. \<not> delivered_unsent ctx) (delivered_ctx 0)"
    by (blast intro: request_reach.step)
  from request_handler_once [OF this] show ?thesis by (simp add: delivered_ctx_def)
qed

text \<open>When the result is delivered while a write is pending, an error of that write calls the handler
  a second time: \<open>done(ctx)\<close> leaves the query state as it is.\<close>

theorem request_handler_twice:
  assumes "is_error ec"
  shows "\<exists>ctx. request_reach sys (sample_pq 1) (\<lambda>_. None) 0 [] (\<lambda>_. True) ctx \<and>
     handler_calls ctx = [no_error, ec]"
proof -
  have w: "request_reach sys (sample_pq 1) (\<lambda>_. None) 0 [] (\<lambda>_. True) (waiting_ctx 1)"
    by (rule request_reach.start) (simp add: sample_start)
  have "request_step sys (sample_pq 1) (\<lambda>_. None) (waiting_ctx 1) (delivered_ctx 1)"
    by (rule request_step.read_ready [OF _ sample_delivered]) (simp add: waiting_ctx_def)
  moreover have "request_step sys (sample_pq 1) (\<lambda>_. None) (delivered_ctx 1) (send_op (sample_pq 1) ec (delivered_ctx 1))"
    by (rule request_step.write_ready) (simp add: delivered_ctx_def waiting_ctx_def)
  ultimately have "request_reach sys (sample_pq 1) (\<lambda>_. None) 0 [] (\<lambda>_. True) (send_op (sample_pq 1) ec (delivered_ctx 1))"
    using w by (blast intro: request_reach.step)
  moreover have "handler_calls (send_op (sample_pq 1) ec (delivered_ctx 1)) = [no_error, ec]"
    using assms by (simp add: send_op_def delivered_ctx_def waiting_ctx_def)
  ultimately show ?thesis by blast
qed

theorem request_handler_twice_witness:
  "\<exists>ctx. request_reach sample_sys (sample_pq 1) (\<lambda>_. None) 0 [] (\<lambda>_. True) ctx \<and>
     handler_calls ctx = [no_error, make_error_code pg_flush_failed]"
  by (rule request_handler_twice) (simp add: is_error_def make_error_code_def)

section \<open>The receiving operation ends\<close>

text \<open>libpq does not hand out results for ever: its documentation has \<open>PQgetResult\<close> called until it returns null.\<close>

definition results_end :: "'s libpq \<Rightarrow> bool" where
  "results_end pq \<longleftrightarrow> (\<nexists>f. \<forall>i. \<exists>r. PQgetResult pq (f i) = (Some r, f (Suc i)))"

lemma results_endI:
  assumes "\<And>s r s'. PQgetResult pq s = (Some r, s') \<Longrightarrow> remaining s' < (remaining s :: nat)"
  shows "results_end pq"
proof -
  have "wf {(s', s). \<exists>r. PQgetResult pq s = (Some r, s')}"
    using assms by (intro wf_subset [OF wf_measure [of remaining]]) (auto simp: measure_def)
  then show ?thesis by (simp add: results_end_def wf_iff_no_infinite_down_chain)
qed

lemma drain_returns:
  assumes "results_end pq"
  shows "\<exists>b s'. drain pq s = Some (b, s')"
proof -
  have "wf {(s', s). \<exists>r. PQgetResult pq s = (Some r, s')}"
    using assms by (simp add: results_end_def wf_iff_no_infinite_down_chain)
  then show ?thesis
  proof (induction s rule: wf_induct_rule)
    case (less s)
    obtain res s' where res: "PQgetResult pq s = (res, s')" by (cases "PQgetResult pq s")
    show ?case using res less [of s'] by (subst drain.simps) (cases res; auto)
  qed
qed

lemma get_result_op_ends:
  assumes "results_end pq"
  shows "\<exists>ctx'. get_result_op sys pq process ec ctx = Some ctx'"
proof -
  have d: "\<exists>ctx'. result_rest pq process r ctx = Some ctx'" for r ctx
    using drain_returns [OF assms, of "pq_state ctx"] by (auto simp: result_rest_def Let_def)
  then have "\<exists>ctx'. result_first pq process ctx = Some ctx'" for ctx
    by (auto simp: result_first_def Let_def split: prod.split option.split)
  with d show ?thesis
    by (auto simp: get_result_op_def Let_def split: prod.split result_pc.split)
qed

text \<open>C32: every resumption of a receiving operation that is not at its end comes to an end, provided libpq does not hand out results
  for ever: it waits for input again and has not called the handler, or it is finished and has called the handler once, which it has
  with the error of the wait if there was one (\<open>operation_aborted\<close> for a closed descriptor). After an error of the sending
  operation it does neither and leaves everything to the call that operation made.\<close>

theorem get_result_op_returns:
  assumes "results_end pq"
  shows "\<exists>ctx'. get_result_op sys pq process ec ctx = Some ctx' \<and>
     (q_state ctx = qs_error \<longrightarrow> ctx' = ctx\<lparr>wait_read := False\<rparr>) \<and>
     (q_state ctx \<noteq> qs_error \<and> pc ctx \<noteq> Finished \<longrightarrow>
        wait_read ctx' \<and> pc ctx' \<notin> {Not_started, Finished} \<and> handler_calls ctx' = handler_calls ctx \<or>
        \<not> wait_read ctx' \<and> pc ctx' = Finished \<and> (\<exists>e. handler_calls ctx' = handler_calls ctx @ [e])) \<and>
     (q_state ctx \<noteq> qs_error \<and> is_error ec \<longrightarrow>
        handler_calls ctx' = handler_calls ctx @ [if ec = asio_code sys bad_descriptor then asio_code sys operation_aborted else ec])"
proof -
  obtain ctx' where r: "get_result_op sys pq process ec ctx = Some ctx'" using get_result_op_ends [OF assms] by blast
  have "ctx' = ctx\<lparr>wait_read := False\<rparr>" if "q_state ctx = qs_error"
    using r that by (simp add: get_result_op_def)
  moreover have "handler_calls ctx' = handler_calls ctx @ [if ec = asio_code sys bad_descriptor then asio_code sys operation_aborted else ec]"
    if "q_state ctx \<noteq> qs_error" "is_error ec"
    using r that by (auto simp: get_result_op_def Let_def)
  ultimately show ?thesis
    using r get_result_op_calls [OF _ _ r] by (intro exI [of _ ctx']) (auto simp: waits_or_calls_def)
qed

lemma sample_results_end: "results_end (sample_pq flush)"
  by (rule results_endI [where remaining = "\<lambda>s. if s = 1 then 1 else 0"]) (auto split: if_splits)

theorem get_result_op_returns_witness:
  "\<exists>ctx'. get_result_op sample_sys (sample_pq 0) (\<lambda>_. None) no_error (waiting_ctx 0) = Some ctx'"
  using get_result_op_returns [OF sample_results_end, of sample_sys 0 "\<lambda>_. None" no_error "waiting_ctx 0"] by blast

end
