(* ===== verification/Bozo_Connect.thy ===== *)
theory Bozo_Connect
  imports Bozo_Query_Builder Bozo_Request
begin

text \<open>
  \<open>connection.h\<close>, \<open>impl/connection.h\<close>, \<open>pg/handle.h\<close>, \<open>impl/async_connect.h\<close> and
  \<open>impl/request_oid_map.h\<close>: the connection object, which owns a libpq handle and watches its socket, the
  asynchronous connect, and the request of the oids of the registered types that follows it. A handle is a
  number; the handles given to \<open>PQfinish\<close> are logged in the order they are freed.
\<close>

section \<open>The connection object\<close>

record connection =
  c_handle :: "nat option"
  c_socket :: "int option"
  c_oid_map :: oid_map
  c_error_context :: string
  c_finished :: "nat list"

definition new_connection :: "oid_map \<Rightarrow> connection" where
  "new_connection m =
     \<lparr>c_handle = None, c_socket = None, c_oid_map = m, c_error_context = [], c_finished = []\<rparr>"

text \<open>Move assignment and \<open>reset()\<close> of a \<open>pg::conn\<close> free the handle it had.\<close>

definition finish :: "nat option \<Rightarrow> connection \<Rightarrow> connection" where
  "finish h c = (case h of None \<Rightarrow> c | Some x \<Rightarrow> c\<lparr>c_finished := c_finished c @ [x]\<rparr>)"

text \<open>\<open>assign\<close> takes the handle over only when it has a socket; \<open>socket_.release()\<close> does not close the
  descriptor.\<close>

definition conn_assign :: "(nat \<Rightarrow> int) \<Rightarrow> nat \<Rightarrow> connection \<Rightarrow> error_code \<times> connection" where
  "conn_assign PQsocket h c =
     (let fd = PQsocket h
      in if fd = - 1 then (make_error_code pq_socket_failed, c)
         else (no_error, (finish (c_handle c) c)\<lparr>c_socket := Some fd, c_handle := Some h\<rparr>))"

definition conn_release :: "connection \<Rightarrow> nat option \<times> connection" where
  "conn_release c = (c_handle c, c\<lparr>c_socket := None, c_handle := None\<rparr>)"

definition conn_close :: "connection \<Rightarrow> error_code \<times> connection" where
  "conn_close c = (let (h, c') = conn_release c in (no_error, finish h c'))"

definition connection_status_bad :: "(nat \<Rightarrow> bool) \<Rightarrow> nat option \<Rightarrow> bool" where
  "connection_status_bad status_bad h = (case h of None \<Rightarrow> True | Some x \<Rightarrow> status_bad x)"

definition conn_is_bad :: "(nat \<Rightarrow> bool) \<Rightarrow> connection \<Rightarrow> bool" where
  "conn_is_bad status_ok c = (\<not> (case c_handle c of None \<Rightarrow> False | Some x \<Rightarrow> status_ok x))"

definition conn_is_open :: "connection \<Rightarrow> bool" where
  "conn_is_open c \<longleftrightarrow> c_handle c \<noteq> None"

text \<open>\<open>connection_error_message\<close>: trailing blanks are cut.\<close>

definition connection_error_message :: "string \<Rightarrow> string" where
  "connection_error_message v = rev (dropWhile (\<lambda>ch. ch = CHR '' '') (rev v))"

text \<open>The connection watches the socket of the handle it owns, and owns no handle that was freed.\<close>

definition conn_inv :: "(nat \<Rightarrow> int) \<Rightarrow> connection \<Rightarrow> bool" where
  "conn_inv PQsocket c \<longleftrightarrow>
     c_socket c = map_option PQsocket (c_handle c) \<and> distinct (c_finished c) \<and>
     (\<forall>h. c_handle c = Some h \<longrightarrow> h \<notin> set (c_finished c) \<and> PQsocket h \<noteq> - 1)"

lemma conn_inv_new: "conn_inv PQsocket (new_connection m)"
  by (simp add: conn_inv_def new_connection_def)

lemma conn_inv_assign:
  assumes "conn_inv PQsocket c" "h \<notin> set (c_finished c)" "c_handle c \<noteq> Some h"
  shows "conn_inv PQsocket (snd (conn_assign PQsocket h c))"
  using assms by (cases "c_handle c") (auto simp: conn_assign_def conn_inv_def finish_def Let_def)

lemma conn_inv_close: "conn_inv PQsocket c \<Longrightarrow> conn_inv PQsocket (snd (conn_close c))"
  by (cases "c_handle c") (auto simp: conn_close_def conn_release_def conn_inv_def finish_def)

section \<open>Oids of the registered types\<close>

definition get_types_names :: "oid_map \<Rightarrow> string list" where
  "get_types_names m = map fst m"

definition string_bytes :: "string \<Rightarrow> byte list" where
  "string_bytes s = map of_char s"

text \<open>The names are one parameter, a \<open>std::array\<close> of \<open>std::string_view\<close>.\<close>

definition make_oids_query :: "oid_map \<Rightarrow> query_builder" where
  "make_oids_query m =
     builder_plus
       (builder_plus_param (sql_literal ''SELECT COALESCE(to_regtype(f)::oid, 0) AS oid FROM UNNEST('')
         (T_std_array (T_string text_kind) (length m),
          V_seq (map (\<lambda>n. V_string (string_bytes n)) (get_types_names m))))
       (sql_literal '') AS f'')"

text \<open>The loop of \<open>set_oid_map\<close>: it stops at the first null oid with the earlier entries updated.\<close>

fun set_oids :: "oid_map \<Rightarrow> oid_t list \<Rightarrow> exn option \<times> oid_map" where
  "set_oids ((n, v) # m) (i # res) =
     (if i = null_oid then (Some Invalid_argument, (n, v) # m)
      else let (e, m') = set_oids m res in (e, (n, i) # m'))"
| "set_oids m res = (None, m)"

definition set_oid_map :: "oid_map \<Rightarrow> oid_t list \<Rightarrow> exn option \<times> oid_map" where
  "set_oid_map m res = (if length m \<noteq> length res then (Some Length_error, m) else set_oids m res)"

definition request_oid_map_op :: "(exn \<Rightarrow> string) \<Rightarrow> error_code \<Rightarrow> oid_t list \<Rightarrow> connection \<Rightarrow> error_code \<times> connection" where
  "request_oid_map_op what ec res c =
     (if is_error ec then (ec, c)
      else case set_oid_map (c_oid_map c) res of
             (Some e, m) \<Rightarrow> (make_error_code oid_request_failed, c\<lparr>c_oid_map := m, c_error_context := what e\<rparr>)
           | (None, m) \<Rightarrow> (ec, c\<lparr>c_oid_map := m\<rparr>))"

lemma set_oids_ok:
  "length m = length res \<Longrightarrow>
     (fst (set_oids m res) = None \<longleftrightarrow> null_oid \<notin> set res) \<and>
     (null_oid \<notin> set res \<longrightarrow> snd (set_oids m res) = zip (map fst m) res)"
  by (induction m res rule: set_oids.induct) (auto simp: case_prod_beta Let_def)

lemma set_oids_names: "map fst (snd (set_oids m res)) = map fst m"
  by (induction m res rule: set_oids.induct) (auto simp: case_prod_beta Let_def)

text \<open>C36: the oids the server returns are taken over if there is one for every registered type and none is
  null; then every registered type has its own, non-null oid. Otherwise the connect fails with
  \<open>oid_request_failed\<close> and an error context. An error of the request itself is passed on with the
  map as it was.\<close>

theorem request_oid_map_complete:
  assumes "distinct (map fst (c_oid_map c))"
  shows "(let (ec', c') = request_oid_map_op what ec res c in
     (is_error ec \<longrightarrow> ec' = ec \<and> c' = c) \<and>
     (\<not> is_error ec \<and> length res = length (c_oid_map c) \<and> null_oid \<notin> set res \<longrightarrow>
        ec' = ec \<and> map fst (c_oid_map c') = map fst (c_oid_map c) \<and>
        (\<forall>i < length res. lookup_oid (c_oid_map c') (fst (c_oid_map c ! i)) = res ! i \<and> res ! i \<noteq> null_oid)) \<and>
     (\<not> is_error ec \<and> (length res \<noteq> length (c_oid_map c) \<or> null_oid \<in> set res) \<longrightarrow>
        ec' = make_error_code oid_request_failed \<and> (\<exists>e. c_error_context c' = what e)))"
proof -
  let ?m = "c_oid_map c"
  consider "is_error ec" | "\<not> is_error ec" "length res \<noteq> length ?m"
    | "\<not> is_error ec" "length res = length ?m" "null_oid \<in> set res"
    | "\<not> is_error ec" "length res = length ?m" "null_oid \<notin> set res" by blast
  then show ?thesis
  proof cases
    case 3
    then show ?thesis
      using set_oids_ok [of ?m res]
      by (cases "set_oids ?m res") (auto simp: request_oid_map_op_def set_oid_map_def)
  next
    case 4
    then have s: "set_oids ?m res = (None, zip (map fst ?m) res)"
      using set_oids_ok [of ?m res] by (cases "set_oids ?m res") simp
    have "lookup_oid (zip (map fst ?m) res) (fst (?m ! i)) = res ! i" if "i < length res" for i
      using that 4 assms map_of_zip_nth [of "map fst ?m" res i] by (simp add: lookup_oid_def)
    moreover have "res ! i \<noteq> null_oid" if "i < length res" for i using that 4 by (metis nth_mem)
    ultimately show ?thesis using 4 s by (simp add: request_oid_map_op_def set_oid_map_def)
  qed (auto simp: request_oid_map_op_def set_oid_map_def)
qed

theorem request_oid_map_complete_witness:
  "lookup_oid (c_oid_map (snd (request_oid_map_op (\<lambda>_. []) no_error [70000, 70001]
     (new_connection (register_types [''code.point'', ''code.message'']))))) ''code.message'' = 70001"
  using request_oid_map_complete [of "new_connection (register_types [''code.point'', ''code.message''])" "\<lambda>_. []" no_error "[70000, 70001]"]
  by (auto simp: new_connection_def register_types_def null_oid_def case_prod_beta Let_def nth_Cons split: nat.split)

section \<open>Connecting\<close>

datatype polling = PGRES_POLLING_FAILED | PGRES_POLLING_READING | PGRES_POLLING_WRITING | PGRES_POLLING_OK | PGRES_POLLING_ACTIVE

text \<open>What libpq answers when a connection is started; \<open>socket_of\<close> is \<open>PQsocket\<close> at the moment the handle is assigned.\<close>

record pq_start =
  start_connection :: "string \<Rightarrow> nat option"
  status_bad :: "nat \<Rightarrow> bool"
  socket_of :: "nat \<Rightarrow> int"

datatype connect_wait = No_wait | Wait_write_ready | Wait_read_ready | Wait_oids

record connect_op =
  co_conn :: connection
  co_wait :: connect_wait
  co_oids :: bool
  co_calls :: "error_code list"

text \<open>\<open>co_oids\<close>: the request of the oids has been started. The user's handler, and the chain \<open>done\<close> goes through: with a non-empty oid map a successful connect goes
  on with the request of the oids.\<close>

definition call_handler :: "error_code \<Rightarrow> connect_op \<Rightarrow> connect_op" where
  "call_handler ec op = op\<lparr>co_wait := No_wait, co_calls := co_calls op @ [ec]\<rparr>"

definition request_oid_map_handler :: "error_code \<Rightarrow> connect_op \<Rightarrow> connect_op" where
  "request_oid_map_handler ec op = (if is_error ec then call_handler ec op else op\<lparr>co_wait := Wait_oids, co_oids := True\<rparr>)"

definition connect_done :: "error_code \<Rightarrow> connect_op \<Rightarrow> connect_op" where
  "connect_done ec op =
     (if oid_map_empty (c_oid_map (co_conn op)) then call_handler ec op else request_oid_map_handler ec op)"

definition connect_perform :: "pq_start \<Rightarrow> string \<Rightarrow> connect_op \<Rightarrow> connect_op" where
  "connect_perform pq conninfo op =
     (case start_connection pq conninfo of
        None \<Rightarrow> connect_done (make_error_code pq_connection_start_failed) op
      | Some h \<Rightarrow>
          if connection_status_bad (status_bad pq) (Some h)
          then (let op = connect_done (make_error_code pq_connection_status_bad) op
                in op\<lparr>co_conn := finish (Some h) (co_conn op)\<rparr>)
          else (let (ec, c) = conn_assign (socket_of pq) h (co_conn op); op = op\<lparr>co_conn := c\<rparr>
                in if is_error ec
                   then (let op = connect_done ec op in op\<lparr>co_conn := finish (Some h) (co_conn op)\<rparr>)
                   else op\<lparr>co_wait := Wait_write_ready\<rparr>))"

definition connect_ready :: "error_code \<Rightarrow> polling \<Rightarrow> connect_op \<Rightarrow> connect_op" where
  "connect_ready ec poll op =
     (if is_error ec
      then connect_done ec
             (if c_error_context (co_conn op) = []
              then op\<lparr>co_conn := (co_conn op)\<lparr>c_error_context := ''error while connection polling''\<rparr>\<rparr> else op)
      else case poll of
             PGRES_POLLING_OK \<Rightarrow> connect_done no_error op
           | PGRES_POLLING_WRITING \<Rightarrow> op\<lparr>co_wait := Wait_write_ready\<rparr>
           | PGRES_POLLING_READING \<Rightarrow> op\<lparr>co_wait := Wait_read_ready\<rparr>
           | _ \<Rightarrow> connect_done (make_error_code pq_connect_poll_failed) op)"

definition oids_ready :: "(exn \<Rightarrow> string) \<Rightarrow> error_code \<Rightarrow> oid_t list \<Rightarrow> connect_op \<Rightarrow> connect_op" where
  "oids_ready what ec res op =
     (let (ec', c) = request_oid_map_op what ec res (co_conn op) in call_handler ec' (op\<lparr>co_conn := c\<rparr>))"

definition async_connect :: "pq_start \<Rightarrow> string \<Rightarrow> oid_map \<Rightarrow> connect_op" where
  "async_connect pq conninfo m =
     connect_perform pq conninfo \<lparr>co_conn = new_connection m, co_wait = No_wait, co_oids = False, co_calls = []\<rparr>"

text \<open>The completions of the waits. \<open>again\<close> says whether the request of the oids may call back a second time, with an error: a request
  whose result is delivered while the query is still being written does (\<open>request_handler_twice\<close>).\<close>

inductive connect_step :: "bool \<Rightarrow> (exn \<Rightarrow> string) \<Rightarrow> connect_op \<Rightarrow> connect_op \<Rightarrow> bool" for again what where
  socket: "co_wait op \<in> {Wait_write_ready, Wait_read_ready} \<Longrightarrow> connect_step again what op (connect_ready ec poll op)"
| oids: "co_wait op = Wait_oids \<Longrightarrow> connect_step again what op (oids_ready what ec res op)"
| oids_again: "again \<Longrightarrow> co_wait op = No_wait \<Longrightarrow> co_oids op \<Longrightarrow> is_error ec \<Longrightarrow>
     connect_step again what op (oids_ready what ec res op)"

inductive_cases connect_stepE: "connect_step again what op op'"

definition no_null_oids :: "oid_map \<Rightarrow> bool" where
  "no_null_oids m \<longleftrightarrow> null_oid \<notin> set (map snd m)"

text \<open>The started handle is owned or freed, and the handler is called when nothing is awaited.\<close>

definition connect_inv :: "pq_start \<Rightarrow> string \<Rightarrow> connect_op \<Rightarrow> bool" where
  "connect_inv pq conninfo op \<longleftrightarrow>
     conn_inv (socket_of pq) (co_conn op) \<and>
     set_option (start_connection pq conninfo) = set_option (c_handle (co_conn op)) \<union> set (c_finished (co_conn op)) \<and>
     (if co_wait op = No_wait
      then \<exists>ec. co_calls op = [ec] \<and> (\<not> is_error ec \<longrightarrow> c_handle (co_conn op) \<noteq> None \<and> no_null_oids (c_oid_map (co_conn op)))
      else co_calls op = [] \<and> c_handle (co_conn op) \<noteq> None)"

lemma make_error_code_error [simp]: "e \<noteq> err_ok \<Longrightarrow> is_error (make_error_code e)"
  by (cases e) (simp_all add: is_error_def make_error_code_def)

lemma conn_inv_update [simp]:
  "conn_inv S (c\<lparr>c_error_context := x\<rparr>) = conn_inv S c" "conn_inv S (c\<lparr>c_oid_map := m\<rparr>) = conn_inv S c"
  by (simp_all add: conn_inv_def)

lemma request_oid_map_op_conn:
  assumes "request_oid_map_op what ec res c = (ec', c')"
  shows "c_handle c' = c_handle c" "c_finished c' = c_finished c" "conn_inv S c' = conn_inv S c"
    and "\<not> is_error ec' \<Longrightarrow> no_null_oids (c_oid_map c')"
proof -
  obtain e m where s: "set_oid_map (c_oid_map c) res = (e, m)" by (cases "set_oid_map (c_oid_map c) res")
  then have c': "(ec', c') = (if is_error ec then (ec, c) else case e of
      Some e \<Rightarrow> (make_error_code oid_request_failed, c\<lparr>c_oid_map := m, c_error_context := what e\<rparr>)
    | None \<Rightarrow> (ec, c\<lparr>c_oid_map := m\<rparr>))"
    using assms by (cases e) (auto simp: request_oid_map_op_def split: if_splits)
  then show "c_handle c' = c_handle c" "c_finished c' = c_finished c" "conn_inv S c' = conn_inv S c"
    by (auto simp: conn_inv_def split: if_splits option.splits)
  assume ne: "\<not> is_error ec'"
  with c' have e: "e = None" "c' = c\<lparr>c_oid_map := m\<rparr>"
    by (auto split: if_splits option.splits)
  with s set_oids_ok [of "c_oid_map c" res] have "set (map snd m) \<subseteq> set res" "null_oid \<notin> set res"
    by (auto simp: set_oid_map_def split: if_splits dest: set_zip_rightD)
  with e show "no_null_oids (c_oid_map c')" by (auto simp: no_null_oids_def)
qed

lemma connect_done_conn [simp]: "co_conn (connect_done ec op) = co_conn op"
  by (simp add: connect_done_def request_oid_map_handler_def call_handler_def)

lemma connect_done_error:
  "is_error ec \<Longrightarrow> connect_done ec op = op\<lparr>co_wait := No_wait, co_calls := co_calls op @ [ec]\<rparr>"
  by (simp add: connect_done_def request_oid_map_handler_def call_handler_def)

lemma connect_inv_done:
  assumes "conn_inv (socket_of pq) (co_conn op)" "co_calls op = []"
    and "set_option (start_connection pq conninfo) = set_option (c_handle (co_conn op)) \<union> set (c_finished (co_conn op))"
    and "is_error ec \<or> c_handle (co_conn op) \<noteq> None"
  shows "connect_inv pq conninfo (connect_done ec op)"
  using assms
  by (cases "is_error ec")
    (auto simp: connect_inv_def connect_done_error connect_done_def request_oid_map_handler_def call_handler_def
      oid_map_empty_def no_null_oids_def)

lemma connect_inv_start: "connect_inv pq conninfo (async_connect pq conninfo m)"
  by (cases "start_connection pq conninfo")
    (auto simp: async_connect_def connect_perform_def connection_status_bad_def connect_done_error conn_assign_def
      Let_def connect_inv_def conn_inv_def finish_def new_connection_def)

lemma connect_inv_step:
  assumes "connect_inv pq conninfo op" "connect_step False what op op'"
  shows "connect_inv pq conninfo op'"
  using assms(2)
proof cases
  case (socket ec poll)
  have h: "conn_inv (socket_of pq) (co_conn op)" "co_calls op = []" "c_handle (co_conn op) \<noteq> None"
    "set_option (start_connection pq conninfo) = set_option (c_handle (co_conn op)) \<union> set (c_finished (co_conn op))"
    using assms(1) socket by (auto simp: connect_inv_def split: if_splits)
  have w: "connect_inv pq conninfo (op\<lparr>co_wait := w\<rparr>)" if "w \<noteq> No_wait" for w
    using h that by (simp add: connect_inv_def)
  have d: "connect_inv pq conninfo (connect_done ec' op')"
    if "co_calls op' = []" "co_conn op' = (co_conn op)\<lparr>c_error_context := x\<rparr> \<or> co_conn op' = co_conn op" for ec' op' x
    using that by (elim disjE; intro connect_inv_done; simp add: h)
  show ?thesis
    unfolding socket connect_ready_def using h(2) d [of _ "''error while connection polling''"] w
    by (cases "is_error ec"; cases poll) simp_all
next
  case (oids ec res)
  obtain ec' c' where r: "request_oid_map_op what ec res (co_conn op) = (ec', c')"
    by (cases "request_oid_map_op what ec res (co_conn op)")
  note r' = request_oid_map_op_conn [OF r]
  show ?thesis
    using assms(1) oids r r'
    by (auto simp: oids_ready_def call_handler_def connect_inv_def)
qed simp

lemma connect_inv_reach:
  "(connect_step False what)\<^sup>*\<^sup>* (async_connect pq conninfo m) op \<Longrightarrow> connect_inv pq conninfo op"
  by (induction rule: rtranclp_induct) (auto intro: connect_inv_start connect_inv_step)

text \<open>C7: provided the request of the oids calls back once, an asynchronous connect calls its handler exactly once, when nothing is
  awaited any more; a success means an open connection whose registered types all have oids. At every moment the libpq handle
  that was started is either owned by the connection, which then watches the socket \<open>PQsocket\<close> gave when the handle was assigned, or
  has been freed exactly once: no failure path leaks it.\<close>

theorem connect_handler_once:
  assumes "(connect_step False what)\<^sup>*\<^sup>* (async_connect pq conninfo m) op"
  shows "(co_wait op \<noteq> No_wait \<longrightarrow> co_calls op = []) \<and>
     (co_wait op = No_wait \<longrightarrow> (\<exists>ec. co_calls op = [ec] \<and>
        (\<not> is_error ec \<longrightarrow> conn_is_open (co_conn op) \<and> no_null_oids (c_oid_map (co_conn op))))) \<and>
     c_socket (co_conn op) = map_option (socket_of pq) (c_handle (co_conn op)) \<and>
     distinct (c_finished (co_conn op)) \<and>
     set_option (start_connection pq conninfo) = set_option (c_handle (co_conn op)) \<union> set (c_finished (co_conn op)) \<and>
     set_option (c_handle (co_conn op)) \<inter> set (c_finished (co_conn op)) = {}"
  using connect_inv_reach [OF assms]
  by (auto simp: connect_inv_def conn_inv_def conn_is_open_def split: if_splits)

definition sample_start :: pq_start where
  "sample_start = \<lparr>start_connection = (\<lambda>_. Some 1), status_bad = (\<lambda>_. False), socket_of = (\<lambda>_. 5)\<rparr>"

theorem connect_handler_once_witness:
  "co_calls (connect_ready no_error PGRES_POLLING_OK (async_connect sample_start ''host=db'' [])) = [no_error] \<and>
   conn_is_open (co_conn (connect_ready no_error PGRES_POLLING_OK (async_connect sample_start ''host=db'' [])))"
proof -
  have s: "async_connect sample_start ''host=db'' [] =
      \<lparr>co_conn = (new_connection [])\<lparr>c_socket := Some 5, c_handle := Some 1\<rparr>, co_wait = Wait_write_ready, co_oids = False, co_calls = []\<rparr>"
    by (simp add: async_connect_def connect_perform_def sample_start_def connection_status_bad_def conn_assign_def
        finish_def new_connection_def)
  have "connect_step False (\<lambda>_. []) (async_connect sample_start ''host=db'' [])
      (connect_ready no_error PGRES_POLLING_OK (async_connect sample_start ''host=db'' []))"
    by (rule connect_step.socket) (simp add: s)
  from connect_handler_once [OF r_into_rtranclp [of "connect_step False (\<lambda>_. [])", OF this]] show ?thesis
    by (simp add: s connect_ready_def connect_done_def oid_map_empty_def call_handler_def new_connection_def)
qed

text \<open>The other side: with a request that calls back twice so does the connect.\<close>

theorem connect_handler_twice:
  assumes "is_error ec"
  shows "\<exists>op. (connect_step True what)\<^sup>*\<^sup>* (async_connect sample_start ''host=db'' [(''t'', 0)]) op \<and> co_calls op = [no_error, ec]"
proof -
  let ?s = "async_connect sample_start ''host=db'' [(''t'', 0)]"
  let ?a = "connect_ready no_error PGRES_POLLING_OK ?s"
  let ?b = "oids_ready what no_error [7] ?a"
  let ?c = "oids_ready what ec [] ?b"
  have s: "?s = \<lparr>co_conn = (new_connection [(''t'', 0)])\<lparr>c_socket := Some 5, c_handle := Some 1\<rparr>, co_wait = Wait_write_ready,
      co_oids = False, co_calls = []\<rparr>"
    by (simp add: async_connect_def connect_perform_def sample_start_def connection_status_bad_def conn_assign_def
        finish_def new_connection_def)
  then have a: "?a = ?s\<lparr>co_wait := Wait_oids, co_oids := True\<rparr>"
    by (simp add: connect_ready_def connect_done_def oid_map_empty_def new_connection_def request_oid_map_handler_def)
  have b: "co_wait ?b = No_wait" "co_oids ?b" "co_calls ?b = [no_error]"
    by (simp_all add: s connect_ready_def connect_done_def oid_map_empty_def request_oid_map_handler_def oids_ready_def request_oid_map_op_def set_oid_map_def new_connection_def null_oid_def call_handler_def)
  have "co_calls ?c = [no_error, ec]"
    using assms b(3) by (simp add: oids_ready_def [of what ec] request_oid_map_op_def call_handler_def)
  moreover have "connect_step True what ?s ?a" by (rule connect_step.socket) (simp add: s)
  moreover have "connect_step True what ?a ?b" by (rule connect_step.oids) (simp add: a)
  moreover have "connect_step True what ?b ?c" by (rule connect_step.oids_again) (use assms b in simp_all)
  ultimately show ?thesis by (intro exI [of _ ?c]) (meson rtranclp.rtrancl_refl rtranclp.rtrancl_into_rtrancl)
qed

text \<open>No step of the connect asks libpq for the socket again: the descriptor that is watched stays the one of the assignment, whatever
  \<open>PQconnectPoll\<close> did to the connection in between.\<close>

theorem connect_socket_kept:
  "connect_step again what op op' \<Longrightarrow> c_socket (co_conn op') = c_socket (co_conn op)"
  by (erule connect_stepE)
    (auto simp: connect_ready_def oids_ready_def request_oid_map_op_def call_handler_def split: polling.split prod.split option.split)

end
