(* ===== verification/Bozo_Options.thy ===== *)
theory Bozo_Options
  imports Bozo_Prelude
begin

text \<open>
  \<open>core/options.h\<close>: the options of the failover strategies and transactions are a \<open>boost::hana::map\<close>, here the list of its
  pairs in the order of their insertion. Values of different types are values of one type of the model; what assigning a value
  over an option of another type does is the parameter \<open>assign\<close> (old value, new value). An access that does not compile is
  \<open>None\<close>.
\<close>

section \<open>Operations\<close>

type_synonym ('k, 'v) options = "('k \<times> 'v) list"

text \<open>\<open>hana::make_map\<close> requires different keys.\<close>

definition make_options :: "('k \<times> 'v) list \<Rightarrow> ('k, 'v) options option" where
  "make_options opts = (if distinct (map fst opts) then Some opts else None)"

definition has_option :: "('k, 'v) options \<Rightarrow> 'k \<Rightarrow> bool" where
  "has_option m k \<longleftrightarrow> k \<in> set (map fst m)"

definition get_option :: "('k, 'v) options \<Rightarrow> 'k \<Rightarrow> 'v option" where
  "get_option m k = (if has_option m k then map_of m k else None)"

definition get_option_default :: "('k, 'v) options \<Rightarrow> 'k \<Rightarrow> 'v \<Rightarrow> 'v" where
  "get_option_default m k d = (if has_option m k then (case map_of m k of Some v \<Rightarrow> v | None \<Rightarrow> d) else d)"

fun assign_option :: "('v \<Rightarrow> 'v \<Rightarrow> 'v) \<Rightarrow> 'k \<Rightarrow> 'v \<Rightarrow> ('k, 'v) options \<Rightarrow> ('k, 'v) options" where
  "assign_option assign k v [] = []"
| "assign_option assign k v ((k', old) # m) =
     (if k' = k then (k', assign old v) # m else (k', old) # assign_option assign k v m)"

text \<open>\<open>set\<close> of one pair on an rvalue: an option that is there is assigned in place and the factory itself is returned; otherwise
  a new factory is made.\<close>

definition set_option1 :: "('v \<Rightarrow> 'v \<Rightarrow> 'v) \<Rightarrow> ('k, 'v) options \<Rightarrow> 'k \<times> 'v \<Rightarrow> ('k, 'v) options" where
  "set_option1 assign m v =
     (if has_option m (fst v) then assign_option assign (fst v) (snd v) m else m @ [v])"

text \<open>The factory that is returned is \<open>static_cast<RealType&&>(*this)\<close>. That is undefined on an object that is only the base part of a
  factory, and such objects are made: \<open>auto copy = *this\<close> and the state of \<open>hana::fold\<close> have the type of \<open>*this\<close>, which is
  \<open>options_factory_base\<close>. (For \<open>copy\<close>, a local variable, the reference dangles besides.)\<close>

definition set_base_part :: "('v \<Rightarrow> 'v \<Rightarrow> 'v) \<Rightarrow> ('k, 'v) options \<Rightarrow> 'k \<times> 'v \<Rightarrow> ('k, 'v) options option" where
  "set_base_part assign m v = (if has_option m (fst v) then None else Some (set_option1 assign m v))"

text \<open>\<open>set\<close> of one or more pairs, on an lvalue or an rvalue. After the first step of the fold its state is a factory that was made by
  \<open>rebind\<close>, and the lambda returns it by value.\<close>

fun set_options :: "bool \<Rightarrow> ('v \<Rightarrow> 'v \<Rightarrow> 'v) \<Rightarrow> ('k, 'v) options \<Rightarrow> ('k \<times> 'v) list \<Rightarrow> ('k, 'v) options option" where
  "set_options lvalue assign m [] = None"
| "set_options lvalue assign m [v] = (if lvalue then set_base_part assign m v else Some (set_option1 assign m v))"
| "set_options lvalue assign m (v # w # vs) =
     map_option (\<lambda>m'. foldl (set_option1 assign) m' (w # vs)) (set_base_part assign m v)"

section \<open>The contract\<close>

text \<open>What the strategies rely on: a map with an invariant, whose update at a key assigns there and nowhere else.\<close>

locale option_store =
  fixes lookup :: "'m \<Rightarrow> 'k \<Rightarrow> 'v option"
    and set1 :: "'m \<Rightarrow> 'k \<times> 'v \<Rightarrow> 'm"
    and invar :: "'m \<Rightarrow> bool"
    and assign :: "'v \<Rightarrow> 'v \<Rightarrow> 'v"
  assumes set1_invar: "invar m \<Longrightarrow> invar (set1 m kv)"
    and lookup_set1: "invar m \<Longrightarrow> lookup (set1 m kv) k =
      (if k = fst kv then Some (case lookup m k of None \<Rightarrow> snd kv | Some old \<Rightarrow> assign old (snd kv)) else lookup m k)"
begin

lemma fold_invar: "invar m \<Longrightarrow> invar (foldl set1 m vs)"
  by (induction vs arbitrary: m) (auto simp: set1_invar)

lemma fold_lookup_other: "invar m \<Longrightarrow> k \<notin> fst ` set vs \<Longrightarrow> lookup (foldl set1 m vs) k = lookup m k"
  by (induction vs arbitrary: m) (auto simp: set1_invar lookup_set1)

lemma fold_lookup:
  "invar m \<Longrightarrow> lookup (foldl set1 m vs) k =
     foldl (\<lambda>o1 v. Some (case o1 of None \<Rightarrow> v | Some old \<Rightarrow> assign old v)) (lookup m k)
       (map snd (filter (\<lambda>kv. fst kv = k) vs))"
  by (induction vs arbitrary: m) (auto simp: set1_invar lookup_set1)

end

lemma assign_option_keys [simp]: "map fst (assign_option assign k v m) = map fst m"
  by (induction m) auto

lemma map_of_assign_option:
  "map_of (assign_option assign k v m) k' =
     (if k' = k then map_option (\<lambda>old. assign old v) (map_of m k) else map_of m k')"
  by (induction m) auto

lemma get_option_map_of: "get_option m k = map_of m k"
proof -
  have "map_of m k = None \<longleftrightarrow> k \<notin> set (map fst m)" by (simp add: map_of_eq_None_iff)
  then show ?thesis by (auto simp: get_option_def has_option_def)
qed

lemma get_option_default_read: "get_option_default m k d = (case get_option m k of None \<Rightarrow> d | Some v \<Rightarrow> v)"
  by (auto simp: get_option_default_def get_option_def split: option.splits)

interpretation opts: option_store get_option "set_option1 assign" "\<lambda>m. distinct (map fst m)" assign for assign
proof
  fix m :: "('a \<times> 'b) list" and kv :: "'a \<times> 'b" and k
  assume d: "distinct (map fst m)"
  show "distinct (map fst (set_option1 assign m kv))"
    using d by (auto simp: set_option1_def has_option_def)
  show "get_option (set_option1 assign m kv) k =
      (if k = fst kv then Some (case get_option m k of None \<Rightarrow> snd kv | Some old \<Rightarrow> assign old (snd kv)) else get_option m k)"
  proof (cases "has_option m (fst kv)")
    case True
    then obtain old where "map_of m (fst kv) = Some old"
      by (metis has_option_def map_of_eq_None_iff option.exhaust set_map)
    then show ?thesis using True d by (simp add: get_option_map_of set_option1_def map_of_assign_option)
  next
    case False
    then have "map_of m (fst kv) = None" by (simp add: has_option_def map_of_eq_None_iff)
    then show ?thesis using False
      by (cases kv) (auto simp: get_option_map_of set_option1_def map_add_def split: option.splits)
  qed
qed

lemma set_options_cases:
  "set_options lvalue assign m (v # vs) =
     (if has_option m (fst v) \<and> (lvalue \<or> vs \<noteq> []) then None else Some (foldl (set_option1 assign) m (v # vs)))"
  by (cases vs) (auto simp: set_base_part_def)

text \<open>C39: a factory of options refines a finite map: setting one or more options keeps the keys different; an option
  that is not named keeps its value; one that is named has the values given for it assigned one after another, the first one
  inserted when there was none before; and the read with a default agrees. The exception, which is undefined: the first of
  the options is set already, and the factory is an lvalue or there is more than one option.\<close>

theorem set_options_refines:
  assumes "make_options init = Some m" and "vs \<noteq> []"
  shows "(set_options lvalue assign m vs = None \<longleftrightarrow> has_option m (fst (hd vs)) \<and> (lvalue \<or> 2 \<le> length vs)) \<and>
     (\<forall>m'. set_options lvalue assign m vs = Some m' \<longrightarrow>
        make_options m' = Some m' \<and>
        get_option m' k =
          foldl (\<lambda>o1 v. Some (case o1 of None \<Rightarrow> v | Some old \<Rightarrow> assign old v)) (get_option m k)
            (map snd (filter (\<lambda>kv. fst kv = k) vs)) \<and>
        get_option_default m' k d = (case get_option m' k of None \<Rightarrow> d | Some v \<Rightarrow> v))"
proof -
  have m: "distinct (map fst m)" using assms by (auto simp: make_options_def split: if_splits)
  obtain v ws where vs: "vs = v # ws" using assms(2) by (cases vs) auto
  have "2 \<le> length vs \<longleftrightarrow> ws \<noteq> []" unfolding vs by (cases ws) auto
  then show ?thesis
    using opts.fold_invar [OF m, where vs = vs] opts.fold_lookup [OF m, where vs = vs] unfolding vs set_options_cases
    by (simp add: make_options_def get_option_default_read)
qed

theorem set_options_refines_witness:
  "\<exists>m'. set_options False (\<lambda>_ v. v) [(''tries'', 3::int)] [(''wait'', 5), (''tries'', 4), (''wait'', 6)] = Some m' \<and>
     get_option m' ''wait'' = Some 6 \<and> get_option_default m' ''wait'' 0 = 6"
proof -
  have "make_options [(''tries'', 3::int)] = Some [(''tries'', 3)]" by (simp add: make_options_def)
  from set_options_refines [OF this, of "[(''wait'', 5), (''tries'', 4), (''wait'', 6)]" False "\<lambda>_ v. v" "''wait''" 0]
  show ?thesis by (auto simp: get_option_map_of has_option_def)
qed

text \<open>Setting an option again that a named factory has already: the reference that is returned refers to no factory.\<close>

theorem set_existing_on_lvalue: "has_option m k \<Longrightarrow> set_options True assign m [(k, v)] = None"
  by (simp add: set_base_part_def)

end
