(* ===== verification/Bozo_Deadline.thy ===== *)
theory Bozo_Deadline
  imports Bozo_Error Bozo_Interval
begin

text \<open>
  \<open>deadline.h\<close> and \<open>detail/deadline.h\<close>: deadlines and the handler that races an
  operation with its deadline timer. The two completions of a race are
  the events of a step relation; the atomic counter decides which of them comes first.
\<close>

section \<open>Deadlines\<close>

text \<open>Time points and durations are 64-bit tick counts; \<open>None\<close> is a signed overflow.\<close>

definition deadline :: "int \<Rightarrow> int \<Rightarrow> int option" where
  "deadline after now =
     (if after < 0 then Some now
      else Option.bind (checked64 (int64_max - now)) (\<lambda>room.
             if room < after then Some int64_max else checked64 (now + after)))"

definition time_left :: "int \<Rightarrow> int \<Rightarrow> int option" where
  "time_left t now = (if now < t then checked64 (t - now) else Some 0)"

definition expired :: "int \<Rightarrow> int \<Rightarrow> bool" where
  "expired t now \<longleftrightarrow> time_left t now = Some 0"

text \<open>A time constraint: none, a deadline or a duration from now on.\<close>

datatype time_constraint = No_time | Until int | Within int

definition deadline_of :: "time_constraint \<Rightarrow> int \<Rightarrow> time_constraint option" where
  "deadline_of t now =
     (case t of No_time \<Rightarrow> Some No_time | Until tp \<Rightarrow> Some (Until tp) | Within d \<Rightarrow> map_option Until (deadline d now))"

text \<open>For a clock that counts from its epoch upwards there is always a deadline.\<close>

lemma deadline_of_defined:
  assumes "0 \<le> now" "now \<le> int64_max"
  shows "\<exists>dl. deadline_of t now = Some dl"
  using assms
  by (cases t) (auto simp: deadline_of_def deadline_def checked64_def int64_min_def int64_max_def)

lemma deadline_of_Until: "deadline_of t now = Some dl \<Longrightarrow> t \<noteq> No_time \<Longrightarrow> \<exists>tp. dl = Until tp"
  by (cases t) (auto simp: deadline_of_def)

text \<open>A deadline never overflows: for a time after the epoch of the clock it is the current time plus the
  duration, saturated at the end of time, and never in the past; what is left of it at once is the duration
  clamped to what the clock can represent, and it has expired exactly when the duration is not positive or the
  clock is at its end.\<close>

theorem deadline_saturates:
  assumes "0 \<le> now" and "now \<le> int64_max" and "int64_min \<le> after" and "after \<le> int64_max"
  shows "\<exists>t. deadline after now = Some t \<and> t = min int64_max (now + max 0 after) \<and> now \<le> t \<and>
     time_left t now = Some (min (max 0 after) (int64_max - now)) \<and>
     (expired t now \<longleftrightarrow> after \<le> 0 \<or> now = int64_max)"
  using assms
  by (cases "after < 0"; cases "int64_max - now < after")
    (auto simp: deadline_def time_left_def expired_def checked64_def int64_min_def int64_max_def)

theorem deadline_saturates_witness:
  "\<exists>t. deadline 9223372036854775807 1000 = Some t \<and> t = int64_max"
  using deadline_saturates [of 1000 9223372036854775807] by (auto simp: int64_max_def int64_min_def)

section \<open>The deadline of an operation\<close>

text \<open>The shared \<open>context\<close> of \<open>io_deadline_handler\<close>, the events still to come, and what the
  handler did: whether the timer and the stream were cancelled, and the calls of the user's handler.\<close>

record 'r deadline_context =
  first_call :: int
  ctx_ec :: error_code
  ctx_result :: 'r
  op_pending :: bool
  timer_pending :: bool
  timer_cancelled :: bool
  stream_cancelled :: bool
  deadline_calls :: "(error_code \<times> 'r) list"

definition io_deadline_handler :: "'r \<Rightarrow> 'r deadline_context" where
  "io_deadline_handler dflt =
     \<lparr>first_call = 2, ctx_ec = no_error, ctx_result = dflt, op_pending = True, timer_pending = True,
      timer_cancelled = False, stream_cancelled = False, deadline_calls = []\<rparr>"

definition on_operation :: "error_code \<Rightarrow> 'r \<Rightarrow> 'r deadline_context \<Rightarrow> 'r deadline_context" where
  "on_operation ec result c0 =
     (let c = c0\<lparr>op_pending := False, first_call := first_call c0 - 1\<rparr>
      in if first_call c \<noteq> 0 then c\<lparr>timer_cancelled := True, ctx_ec := ec, ctx_result := result\<rparr>
         else c\<lparr>deadline_calls := deadline_calls c @ [(ctx_ec c, result)]\<rparr>)"

definition on_timer :: "sys_errors \<Rightarrow> 'r deadline_context \<Rightarrow> 'r deadline_context" where
  "on_timer sys c0 =
     (let c = c0\<lparr>timer_pending := False, first_call := first_call c0 - 1\<rparr>
      in if first_call c \<noteq> 0 then c\<lparr>stream_cancelled := True, ctx_ec := asio_code sys timed_out\<rparr>
         else c\<lparr>deadline_calls := deadline_calls c @ [(ctx_ec c, ctx_result c)]\<rparr>)"

inductive deadline_step :: "sys_errors \<Rightarrow> error_code \<Rightarrow> 'r \<Rightarrow> 'r deadline_context \<Rightarrow> 'r deadline_context \<Rightarrow> bool"
  for sys ec result where
  operation: "op_pending c \<Longrightarrow> deadline_step sys ec result c (on_operation ec result c)"
| timer: "timer_pending c \<Longrightarrow> deadline_step sys ec result c (on_timer sys c)"

inductive_cases deadline_stepE: "deadline_step sys ec result c c'"

text \<open>What the race has decided, by the events that are still to come.\<close>

definition deadline_inv :: "sys_errors \<Rightarrow> error_code \<Rightarrow> 'r \<Rightarrow> 'r deadline_context \<Rightarrow> bool" where
  "deadline_inv sys ec result c \<longleftrightarrow>
     (if op_pending c \<and> timer_pending c
      then first_call c = 2 \<and> \<not> timer_cancelled c \<and> \<not> stream_cancelled c \<and> deadline_calls c = []
      else if timer_pending c
      then first_call c = 1 \<and> ctx_ec c = ec \<and> ctx_result c = result \<and> timer_cancelled c \<and> \<not> stream_cancelled c \<and>
        deadline_calls c = []
      else if op_pending c
      then first_call c = 1 \<and> ctx_ec c = asio_code sys timed_out \<and> stream_cancelled c \<and> \<not> timer_cancelled c \<and>
        deadline_calls c = []
      else first_call c = 0 \<and> stream_cancelled c = (\<not> timer_cancelled c) \<and>
        deadline_calls c = [(if stream_cancelled c then asio_code sys timed_out else ec, result)])"

lemma deadline_inv_start: "deadline_inv sys ec result (io_deadline_handler dflt)"
  by (simp add: deadline_inv_def io_deadline_handler_def)

lemma deadline_inv_step:
  "deadline_step sys ec result c c' \<Longrightarrow> deadline_inv sys ec result c \<Longrightarrow> deadline_inv sys ec result c'"
  by (erule deadline_stepE)
    (auto simp: deadline_inv_def on_operation_def on_timer_def Let_def split: if_splits)

lemma deadline_inv_reach:
  "(deadline_step sys ec result)\<^sup>*\<^sup>* (io_deadline_handler dflt) c \<Longrightarrow> deadline_inv sys ec result c"
  by (induction rule: rtranclp_induct) (auto intro: deadline_inv_start deadline_inv_step)

text \<open>C6: an operation under a deadline calls its handler exactly once, with the result the operation
  completed with, and only when neither the operation nor the timer can touch the context any more; the
  error is the operation's own if it came before the timer, and \<open>timed_out\<close> with the stream cancelled
  otherwise.\<close>

theorem deadline_handler_once:
  assumes "(deadline_step sys ec result)\<^sup>*\<^sup>* (io_deadline_handler dflt) c"
  shows "(op_pending c \<or> timer_pending c \<longrightarrow> deadline_calls c = []) \<and>
     (\<not> op_pending c \<and> \<not> timer_pending c \<longrightarrow>
        (timer_cancelled c \<and> \<not> stream_cancelled c \<and> deadline_calls c = [(ec, result)]) \<or>
        (\<not> timer_cancelled c \<and> stream_cancelled c \<and> deadline_calls c = [(asio_code sys timed_out, result)]))"
  using deadline_inv_reach [OF assms] by (auto simp: deadline_inv_def split: if_splits)

theorem deadline_handler_once_witness:
  "deadline_calls (on_operation no_error (7 :: nat) (on_timer sample_sys (io_deadline_handler 0))) =
     [(asio_code sample_sys timed_out, 7)]"
proof -
  let ?c = "on_operation no_error 7 (on_timer sample_sys (io_deadline_handler (0 :: nat)))"
  have "deadline_step sample_sys no_error 7 (io_deadline_handler 0) (on_timer sample_sys (io_deadline_handler (0 :: nat)))"
    by (rule deadline_step.timer) (simp add: io_deadline_handler_def)
  moreover have "deadline_step sample_sys no_error 7 (on_timer sample_sys (io_deadline_handler 0)) ?c"
    by (rule deadline_step.operation) (simp add: io_deadline_handler_def on_timer_def)
  ultimately have "(deadline_step sample_sys no_error 7)\<^sup>*\<^sup>* (io_deadline_handler 0) ?c"
    by (meson rtranclp.rtrancl_refl rtranclp.rtrancl_into_rtrancl)
  from deadline_handler_once [OF this] show ?thesis
    by (auto simp: io_deadline_handler_def on_timer_def on_operation_def)
qed

end
