(* ===== verification/Bozo_Provider.thy ===== *)
theory Bozo_Provider
  imports Bozo_Connect Bozo_Deadline
begin

text \<open>
  \<open>connection.h\<close>, \<open>impl/connection.h\<close>, \<open>core/nullable.h\<close>, \<open>core/unwrap.h\<close>, \<open>core/recursive.h\<close>, \<open>transaction.h\<close> and
  \<open>connector.h\<close>: what the user holds is a connection inside of pointers, reference wrappers and transactions, and the functions
  on connections unwrap it. Dereferencing a null pointer is undefined and \<open>None\<close> in the model.
\<close>

section \<open>Wrapped connections\<close>

text \<open>\<open>Ptr\<close> is any nullable wrapper: a raw or smart pointer or an optional.\<close>

datatype conn_ref = Plain connection | Ref conn_ref | Ptr "conn_ref option" | Transaction conn_ref

fun conn_is_null :: "conn_ref \<Rightarrow> bool" where
  "conn_is_null (Plain c) = False"
| "conn_is_null (Ref r) = False"
| "conn_is_null (Ptr p) = (p = None)"
| "conn_is_null (Transaction r) = conn_is_null r"

fun conn_unwrap :: "conn_ref \<Rightarrow> conn_ref option" where
  "conn_unwrap (Plain c) = Some (Plain c)"
| "conn_unwrap (Ref r) = Some r"
| "conn_unwrap (Ptr p) = p"
| "conn_unwrap (Transaction r) = Some (Transaction r)"

text \<open>A transaction is not unwrapped by \<open>unwrap\<close>: recursion ends at it.\<close>

fun is_null_recursive :: "conn_ref \<Rightarrow> bool" where
  "is_null_recursive (Plain c) = False"
| "is_null_recursive (Ref r) = is_null_recursive r"
| "is_null_recursive (Ptr None) = True"
| "is_null_recursive (Ptr (Some r)) = is_null_recursive r"
| "is_null_recursive (Transaction r) = conn_is_null r"

text \<open>\<open>unwrap_connection\<close>: recursively through references and pointers; for a transaction it is \<open>lowest_layer()\<close>, which
  unwraps the handle once. The recursion stops at a transaction inside of a wrapper; the members called on what it returns are
  forwarded by the transaction to its lowest layer, so that the connection reached is the same.\<close>

fun unwrap_connection :: "conn_ref \<Rightarrow> connection option" where
  "unwrap_connection (Plain c) = Some c"
| "unwrap_connection (Ref r) = unwrap_connection r"
| "unwrap_connection (Ptr p) = (case p of None \<Rightarrow> None | Some r \<Rightarrow> unwrap_connection r)"
| "unwrap_connection (Transaction r) = (case conn_unwrap r of Some (Plain c) \<Rightarrow> Some c | _ \<Rightarrow> None)"

text \<open>The handles a transaction compiles with: their single unwrapping is a connection.\<close>

fun wf_conn :: "conn_ref \<Rightarrow> bool" where
  "wf_conn (Plain c) = True"
| "wf_conn (Ref r) = wf_conn r"
| "wf_conn (Ptr p) = (case p of None \<Rightarrow> True | Some r \<Rightarrow> wf_conn r)"
| "wf_conn (Transaction r) = (case conn_unwrap r of None \<Rightarrow> True | Some (Plain c) \<Rightarrow> True | _ \<Rightarrow> False)"

text \<open>Access to the connection inside.\<close>

fun update_connection :: "(connection \<Rightarrow> connection) \<Rightarrow> conn_ref \<Rightarrow> conn_ref" where
  "update_connection f (Plain c) = Plain (f c)"
| "update_connection f (Ref r) = Ref (update_connection f r)"
| "update_connection f (Ptr p) = Ptr (map_option (update_connection f) p)"
| "update_connection f (Transaction r) = Transaction (update_connection f r)"

section \<open>Functions on connections\<close>

definition connection_bad :: "(nat \<Rightarrow> bool) \<Rightarrow> conn_ref \<Rightarrow> bool option" where
  "connection_bad status_ok r =
     (if is_null_recursive r then Some True else map_option (conn_is_bad status_ok) (unwrap_connection r))"

definition connection_good :: "(nat \<Rightarrow> bool) \<Rightarrow> conn_ref \<Rightarrow> bool option" where
  "connection_good status_ok r = map_option Not (connection_bad status_ok r)"

definition get_native_handle :: "conn_ref \<Rightarrow> nat option option" where
  "get_native_handle r = map_option c_handle (unwrap_connection r)"

definition error_message :: "(nat option \<Rightarrow> string) \<Rightarrow> conn_ref \<Rightarrow> string option" where
  "error_message PQerrorMessage r =
     (if is_null_recursive r then Some []
      else map_option (\<lambda>h. connection_error_message (PQerrorMessage h)) (get_native_handle r))"

definition get_error_context :: "conn_ref \<Rightarrow> string option" where
  "get_error_context r = map_option c_error_context (unwrap_connection r)"

text \<open>What libpq knows of the connection; its functions give a null pointer where there is nothing to tell.\<close>

definition make_string_view :: "string option \<Rightarrow> string" where
  "make_string_view src = (case src of None \<Rightarrow> [] | Some s \<Rightarrow> s)"

definition get_database :: "(nat option \<Rightarrow> string option) \<Rightarrow> conn_ref \<Rightarrow> string option" where
  "get_database PQdb r = map_option (\<lambda>h. make_string_view (PQdb h)) (get_native_handle r)"

definition get_host :: "(nat option \<Rightarrow> string option) \<Rightarrow> conn_ref \<Rightarrow> string option" where
  "get_host PQhost r = map_option (\<lambda>h. make_string_view (PQhost h)) (get_native_handle r)"

definition get_port :: "(nat option \<Rightarrow> string option) \<Rightarrow> conn_ref \<Rightarrow> string option" where
  "get_port PQport r = map_option (\<lambda>h. make_string_view (PQport h)) (get_native_handle r)"

definition get_user :: "(nat option \<Rightarrow> string option) \<Rightarrow> conn_ref \<Rightarrow> string option" where
  "get_user PQuser r = map_option (\<lambda>h. make_string_view (PQuser h)) (get_native_handle r)"

definition get_password :: "(nat option \<Rightarrow> string option) \<Rightarrow> conn_ref \<Rightarrow> string option" where
  "get_password PQpass r = map_option (\<lambda>h. make_string_view (PQpass h)) (get_native_handle r)"

definition close_connection :: "conn_ref \<Rightarrow> (error_code \<times> conn_ref) option" where
  "close_connection r =
     (case unwrap_connection r of None \<Rightarrow> None
      | Some c \<Rightarrow> Some (fst (conn_close c), update_connection (\<lambda>c. snd (conn_close c)) r))"

text \<open>The deleter of \<open>defer_close_connection\<close>; a null argument defers nothing.\<close>

definition defer_close_connection :: "conn_ref option \<Rightarrow> conn_ref option option" where
  "defer_close_connection p =
     (case p of None \<Rightarrow> Some None
      | Some r \<Rightarrow> (if is_null_recursive r then Some (Some r)
                   else map_option (\<lambda>(_, r'). Some r') (close_connection r)))"

text \<open>Getting a connection from a connection: \<open>forward_connection\<close> clears the error context and calls the handler with the
  same connection.\<close>

definition forward_connection :: "conn_ref \<Rightarrow> (error_code \<times> conn_ref) option" where
  "forward_connection r =
     (if unwrap_connection r = None then None
      else Some (no_error, update_connection (\<lambda>c. c\<lparr>c_error_context := []\<rparr>) r))"

text \<open>Members of a transaction.\<close>

definition transaction_good :: "(nat \<Rightarrow> bool) \<Rightarrow> conn_ref \<Rightarrow> bool option" where
  "transaction_good status_ok r =
     (if conn_is_null r then Some False
      else map_option (\<lambda>c. \<not> conn_is_bad status_ok c) (unwrap_connection (Transaction r)))"

definition transaction_is_open :: "conn_ref \<Rightarrow> bool option" where
  "transaction_is_open r =
     (if conn_is_null r then Some False else map_option conn_is_open (unwrap_connection (Transaction r)))"

text \<open>\<open>bind_get_connection_timeout::timeout\<close>.\<close>

fun bound_timeout :: "int \<Rightarrow> time_constraint \<Rightarrow> int \<Rightarrow> int option" where
  "bound_timeout d No_time now = Some d"
| "bound_timeout d (Until t) now = map_option (min d) (time_left t now)"
| "bound_timeout d (Within t) now = Some (min d t)"

section \<open>Providers of connections\<close>

text \<open>A connection is its own provider; a source bound to an \<open>io_context\<close> is one (\<open>connection_provider\<close>); and a provider with a limit on the time
  (\<open>bind_get_connection_timeout\<close>). Asking a provider either hands the connection on or calls the source with a time constraint.\<close>

datatype 'src provider = Connection_itself conn_ref | Connection_provider 'src | Bind_timeout "'src provider" int

datatype 'src asked = Given error_code conn_ref | Call_source 'src time_constraint

fun async_get_connection :: "'src provider \<Rightarrow> time_constraint \<Rightarrow> int \<Rightarrow> 'src asked option" where
  "async_get_connection (Connection_itself r) t now = map_option (\<lambda>(ec, r'). Given ec r') (forward_connection r)"
| "async_get_connection (Connection_provider source) t now = Some (Call_source source t)"
| "async_get_connection (Bind_timeout target d) t now =
     Option.bind (bound_timeout d t now) (\<lambda>l. async_get_connection target (Within l) now)"

text \<open>\<open>make_connector\<close> of a source, with and without a timeout.\<close>

definition make_connector :: "'src \<Rightarrow> int option \<Rightarrow> 'src provider" where
  "make_connector source timeout =
     (case timeout of None \<Rightarrow> Connection_provider source | Some d \<Rightarrow> Bind_timeout (Connection_provider source) d)"

section \<open>Correctness\<close>

text \<open>A reference that is not null leads to a connection, and an update through it is an update of that connection.\<close>

lemma unwrap_of_transaction:
  "wf_conn (Transaction r) \<Longrightarrow> unwrap_connection (Transaction r) = None \<longleftrightarrow> conn_is_null r"
  by (cases r) (auto split: option.splits conn_ref.splits)

lemma unwrap_connection_null: "wf_conn r \<Longrightarrow> unwrap_connection r = None \<longleftrightarrow> is_null_recursive r"
proof (induction r rule: is_null_recursive.induct)
  case (5 r)
  then show ?case using unwrap_of_transaction by simp
qed auto

lemma unwrap_connection_update [simp]:
  "unwrap_connection (update_connection f r) = map_option f (unwrap_connection r)"
proof (induction r)
  case (Transaction r)
  show ?case
  proof (cases r)
    case (Ref x)
    then show ?thesis by (cases x) auto
  next
    case (Ptr p)
    then show ?thesis
    proof (cases p)
      case (Some x)
      then show ?thesis using Ptr by (cases x) auto
    qed simp
  qed auto
next
  case (Ptr p)
  then show ?case by (cases p) auto
qed auto

lemma is_null_recursive_update [simp]: "is_null_recursive (update_connection f r) = is_null_recursive r"
proof -
  have "conn_is_null (update_connection f r) = conn_is_null r" for r by (induction r) auto
  then show ?thesis by (induction r rule: is_null_recursive.induct) auto
qed

lemma bound_timeout_bounds:
  assumes "bound_timeout d t now = Some v" "0 \<le> d"
  shows "v \<le> d" "t = Until tp \<Longrightarrow> 0 \<le> v \<and> (now \<le> tp \<longrightarrow> v \<le> tp - now)" "t = Within x \<Longrightarrow> v \<le> x"
  using assms by (cases t; auto simp: time_left_def checked64_def split: if_splits)+

text \<open>The connection that a chain of pointers, reference wrappers and transactions holds, if every wrapper holds something.\<close>

inductive leads_to :: "conn_ref \<Rightarrow> connection \<Rightarrow> bool" where
  plain: "leads_to (Plain c) c"
| ref: "leads_to r c \<Longrightarrow> leads_to (Ref r) c"
| ptr: "leads_to r c \<Longrightarrow> leads_to (Ptr (Some r)) c"
| transaction: "leads_to r c \<Longrightarrow> leads_to (Transaction r) c"

inductive_simps leads_to_simps [simp]:
  "leads_to (Plain c) d" "leads_to (Ref r) d" "leads_to (Ptr p) d" "leads_to (Transaction r) d"

lemma leads_to_transaction:
  "wf_conn (Transaction r) \<Longrightarrow> leads_to (Transaction r) c \<longleftrightarrow> unwrap_connection (Transaction r) = Some c"
  by (cases r) (auto split: option.splits conn_ref.splits)

lemma leads_to_unwrap: "wf_conn r \<Longrightarrow> leads_to r c \<longleftrightarrow> unwrap_connection r = Some c"
proof (induction r)
  case (Transaction r)
  show ?case by (rule leads_to_transaction [OF Transaction.prems])
qed (auto split: option.splits)

text \<open>C26: a connection in pointers, reference wrappers and transactions is never dereferenced through a null pointer by
  \<open>connection_bad\<close>, and it is good exactly when the wrappers lead to a connection, all of them holding something, which owns a libpq
  handle with the status \<open>CONNECTION_OK\<close>.\<close>

theorem connection_good_usable:
  assumes "wf_conn r"
  shows "connection_good status_ok r = Some (\<exists>c h. leads_to r c \<and> c_handle c = Some h \<and> status_ok h)"
proof (cases "unwrap_connection r")
  case None
  then show ?thesis
    using unwrap_connection_null [OF assms] leads_to_unwrap [OF assms] by (simp add: connection_good_def connection_bad_def)
next
  case (Some c)
  then show ?thesis using unwrap_connection_null [OF assms] leads_to_unwrap [OF assms]
    by (cases "c_handle c") (simp_all add: connection_good_def connection_bad_def conn_is_bad_def)
qed

definition sample_connection :: connection where
  "sample_connection = \<lparr>c_handle = Some 7, c_socket = Some 3, c_oid_map = [], c_error_context = ''lost'', c_finished = []\<rparr>"

theorem connection_good_usable_witness:
  "connection_good (\<lambda>h. h = 7) (Ref (Transaction (Ptr (Some (Plain sample_connection))))) = Some True \<and>
   connection_good (\<lambda>h. h = 7) (Ref (Transaction (Ptr None))) = Some False"
  using connection_good_usable [of "Ref (Transaction (Ptr (Some (Plain sample_connection))))" "\<lambda>h. h = 7"]
    connection_good_usable [of "Ref (Transaction (Ptr None))" "\<lambda>h. h = 7"]
  by (simp add: sample_connection_def)

lemma defer_close_closes:
  assumes "wf_conn r" "unwrap_connection r = Some c"
  shows "\<exists>r' c'. defer_close_connection (Some r) = Some (Some r') \<and> unwrap_connection r' = Some c' \<and>
     c_handle c' = None \<and> c_socket c' = None \<and> connection_bad status_ok r' = Some True \<and>
     c_finished c' = c_finished c @ (case c_handle c of None \<Rightarrow> [] | Some h \<Rightarrow> [h]) \<and>
     get_error_context r' = get_error_context r"
  using assms(2) unwrap_connection_null [OF assms(1)]
  by (cases "c_handle c") (auto simp: defer_close_connection_def close_connection_def conn_close_def conn_release_def finish_def
      connection_bad_def conn_is_bad_def get_error_context_def)

text \<open>C27: the guard of \<open>defer_close_connection\<close>, which the failover strategies hold around a try, is safe on every argument: a
  null pointer and a null connection are left alone; otherwise the handle the connection owned is released to
  \<open>PQfinish\<close>, exactly once, the connection is closed and bad, and its error context is still readable.\<close>

theorem defer_close_safe:
  assumes "wf_conn r"
  shows "defer_close_connection None = Some None \<and>
     (is_null_recursive r \<longrightarrow> defer_close_connection (Some r) = Some (Some r)) \<and>
     (\<forall>c. unwrap_connection r = Some c \<longrightarrow>
        (\<exists>r' c'. defer_close_connection (Some r) = Some (Some r') \<and> unwrap_connection r' = Some c' \<and>
           c_handle c' = None \<and> c_socket c' = None \<and> connection_bad status_ok r' = Some True \<and>
           c_finished c' = c_finished c @ (case c_handle c of None \<Rightarrow> [] | Some h \<Rightarrow> [h]) \<and>
           get_error_context r' = get_error_context r))"
  using defer_close_closes [OF assms] by (simp add: defer_close_connection_def)

theorem defer_close_safe_witness:
  "\<exists>r' c'. defer_close_connection (Some (Ptr (Some (Plain sample_connection)))) = Some (Some r') \<and>
     unwrap_connection r' = Some c' \<and> c_handle c' = None \<and> c_finished c' = [7]"
proof -
  have "wf_conn (Ptr (Some (Plain sample_connection)))"
    and u: "unwrap_connection (Ptr (Some (Plain sample_connection))) = Some sample_connection" by simp_all
  from defer_close_safe [OF this(1), of "\<lambda>_. True"] u show ?thesis
    by (auto simp: sample_connection_def)
qed

text \<open>The limits a provider imposes, and what a time constraint leaves at a given time.\<close>

fun provider_limits :: "'src provider \<Rightarrow> int list" where
  "provider_limits (Bind_timeout target d) = d # provider_limits target"
| "provider_limits _ = []"

fun provider_source :: "'src provider \<Rightarrow> 'src option" where
  "provider_source (Connection_itself r) = None"
| "provider_source (Connection_provider source) = Some source"
| "provider_source (Bind_timeout target d) = provider_source target"

fun remaining_time :: "time_constraint \<Rightarrow> int \<Rightarrow> int set" where
  "remaining_time No_time now = {}"
| "remaining_time (Until tp) now = {max 0 (tp - now)}"
| "remaining_time (Within d) now = {d}"

lemma bound_timeout_min:
  assumes "0 \<le> now" "\<And>tp. t = Until tp \<Longrightarrow> tp \<le> int64_max"
  shows "bound_timeout d t now = Some (Min (insert d (remaining_time t now)))"
  using assms by (cases t) (auto simp: time_left_def checked64_def int64_min_def int64_max_def)

lemma get_connection_within:
  assumes "provider_source p = Some source" "0 \<le> now"
  shows "async_get_connection p (Within d) now = Some (Call_source source (Within (Min (insert d (set (provider_limits p))))))"
  using assms(1)
proof (induction p arbitrary: d)
  case (Bind_timeout p e)
  have "min (min e d) (Min (set (provider_limits p))) = min d (Min (insert e (set (provider_limits p))))"
    if "set (provider_limits p) \<noteq> {}"
    using that by (simp add: min.assoc min.left_commute)
  then have "Min (insert (min e d) (set (provider_limits p))) = Min (insert d (insert e (set (provider_limits p))))"
    by (cases "set (provider_limits p) = {}") (simp_all add: min.commute)
  then show ?case using Bind_timeout by simp
qed simp_all

text \<open>C28: however deep limits on the time are nested around a source of connections, the source is asked with the smallest of the
  limits and of what the caller's time constraint leaves; without limits it gets the caller's time constraint as it is.\<close>

theorem get_connection_time_limit:
  assumes "provider_source p = Some source" and "0 \<le> now" and "\<forall>tp. t = Until tp \<longrightarrow> tp \<le> int64_max"
  shows "async_get_connection p t now =
     Some (Call_source source
       (if provider_limits p = [] then t else Within (Min (remaining_time t now \<union> set (provider_limits p)))))"
proof (cases p)
  case (Bind_timeout target d)
  let ?R = "remaining_time t now" and ?L = "set (provider_limits target)"
  have "bound_timeout d t now = Some (Min (insert d ?R))" using bound_timeout_min [OF assms(2)] assms(3) by blast
  moreover have "async_get_connection target (Within (Min (insert d ?R))) now =
      Some (Call_source source (Within (Min (insert (Min (insert d ?R)) ?L))))"
    using get_connection_within assms(1,2) Bind_timeout by simp
  moreover have "Min (insert (Min (insert d ?R)) ?L) = Min (?R \<union> insert d ?L)"
  proof -
    have f: "finite (insert d ?R)" by (cases t) auto
    have "Min (insert (Min (insert d ?R)) ?L) = Min (insert d ?R \<union> ?L)"
    proof (cases "?L = {}")
      case False
      then show ?thesis using Min_Un [OF f, of ?L] Min_insert [of ?L "Min (insert d ?R)"] by simp
    qed simp
    then show ?thesis by simp
  qed
  ultimately show ?thesis using Bind_timeout by simp
qed (use assms in auto)

theorem get_connection_time_limit_witness:
  "async_get_connection (Bind_timeout (make_connector ''db'' (Some 500)) 700) (Until 1600) 1000 = Some (Call_source ''db'' (Within 500))"
  using get_connection_time_limit [of "Bind_timeout (make_connector ''db'' (Some 500)) 700" "''db''" 1000 "Until 1600"]
  by (simp add: make_connector_def int64_max_def)

text \<open>The other functions on connections: \<open>forward_connection\<close> hands the connection on with the handle it had and an empty
  error context.\<close>

lemma forward_connection_keeps:
  assumes "wf_conn r" "\<not> is_null_recursive r"
  obtains r' where "forward_connection r = Some (no_error, r')" "get_native_handle r' = get_native_handle r"
    "get_error_context r' = Some []" "connection_good ok r' = connection_good ok r"
  using assms unwrap_connection_null [OF assms(1)]
  by (auto simp: forward_connection_def get_native_handle_def get_error_context_def connection_good_def connection_bad_def
      conn_is_bad_def option.map_comp comp_def)

text \<open>On a closed connection, whose handle is null, the accessors give the empty string: libpq documents a null pointer for the functions of a
  null connection.\<close>

lemma accessors_closed_connection:
  assumes "close_connection r = Some (ec, r')" "PQ None = None"
  shows "get_database PQ r' = Some []" "get_host PQ r' = Some []" "get_port PQ r' = Some []" "get_user PQ r' = Some []"
    "get_password PQ r' = Some []"
proof -
  have "get_native_handle r' = Some None"
    using assms(1)
    by (auto simp: close_connection_def get_native_handle_def conn_close_def conn_release_def finish_def split: option.splits)
  then show "get_database PQ r' = Some []" "get_host PQ r' = Some []" "get_port PQ r' = Some []" "get_user PQ r' = Some []"
    "get_password PQ r' = Some []"
    using assms(2) by (simp_all add: get_database_def get_host_def get_port_def get_user_def get_password_def make_string_view_def)
qed

lemma transaction_good_iff_connection_good:
  "wf_conn (Transaction r) \<Longrightarrow> transaction_good ok r = connection_good ok (Transaction r)"
  by (auto simp: transaction_good_def connection_good_def connection_bad_def option.map_comp comp_def)

end
