(* ===== verification/Bozo_Transaction.thy ===== *)
theory Bozo_Transaction
  imports Bozo_Options Bozo_Provider
begin

text \<open>
  \<open>transaction.h\<close>, \<open>transaction_options.h\<close>, \<open>detail/begin_statement_builder.h\<close>,
  \<open>impl/transaction.h\<close> and \<open>impl/transaction_status.h\<close>: the statement that begins a transaction,
  the transaction object that holds a connection, and the operations that begin and end it. Options are the maps of
  \<open>Bozo_Options\<close>, connections and their providers the ones of \<open>Bozo_Provider\<close>; what a source of connections
  completes with and what a statement executed on a connection completes with are arguments.
\<close>

section \<open>The \<open>BEGIN\<close> statement\<close>

datatype isolation_level = serializable | repeatable_read | read_committed | read_uncommitted

datatype transaction_mode = read_write | read_only

text \<open>The options of a transaction, and their values: \<open>none\<close> is a value of every option.\<close>

datatype transaction_key = opt_isolation_level | opt_mode | opt_deferrability

datatype transaction_value = Isolation isolation_level | Mode transaction_mode | Deferrable bool | None_option

type_synonym transaction_options = "(transaction_key, transaction_value) options"

primrec isolation_to_string :: "isolation_level \<Rightarrow> string" where
  "isolation_to_string serializable = '' ISOLATION LEVEL SERIALIZABLE''"
| "isolation_to_string repeatable_read = '' ISOLATION LEVEL REPEATABLE READ''"
| "isolation_to_string read_committed = '' ISOLATION LEVEL READ COMMITTED''"
| "isolation_to_string read_uncommitted = '' ISOLATION LEVEL READ UNCOMMITTED''"

primrec mode_to_string :: "transaction_mode \<Rightarrow> string" where
  "mode_to_string read_write = '' READ WRITE''"
| "mode_to_string read_only = '' READ ONLY''"

definition deferrable_to_string :: "bool \<Rightarrow> string" where
  "deferrable_to_string d = (if d then '' DEFERRABLE'' else '' NOT DEFERRABLE'')"

text \<open>\<open>to_string\<close>; a value that is not one of the option does not compile.\<close>

fun option_to_string :: "transaction_key \<Rightarrow> transaction_value \<Rightarrow> string option" where
  "option_to_string opt_isolation_level (Isolation l) = Some (isolation_to_string l)"
| "option_to_string opt_mode (Mode m) = Some (mode_to_string m)"
| "option_to_string opt_deferrability (Deferrable d) = Some (deferrable_to_string d)"
| "option_to_string _ _ = None"

text \<open>\<open>build\<close>: the options that are there and not \<open>none\<close>, in the order of \<open>supported_options\<close>.\<close>

definition real_options :: "transaction_options \<Rightarrow> transaction_key list" where
  "real_options opts =
     filter (\<lambda>k. get_option opts k \<noteq> Some None_option)
       (filter (has_option opts) [opt_isolation_level, opt_mode, opt_deferrability])"

definition begin_statement :: "transaction_options \<Rightarrow> string option" where
  "begin_statement opts =
     map_option (\<lambda>strings. ''BEGIN'' @ concat strings)
       (those (map (\<lambda>k. Option.bind (get_option opts k) (option_to_string k)) (real_options opts)))"

text \<open>What the server makes of the statement: the clauses as PostgreSQL's documentation of \<open>BEGIN\<close> writes them, each recognised by its
  words.\<close>

definition strip :: "string \<Rightarrow> string \<Rightarrow> string option" where
  "strip pre s = (if take (length pre) s = pre then Some (drop (length pre) s) else None)"

fun first_match :: "(string \<times> 'a) list \<Rightarrow> string \<Rightarrow> 'a option \<times> string" where
  "first_match [] s = (None, s)"
| "first_match ((pre, x) # alts) s = (case strip pre s of Some rest \<Rightarrow> (Some x, rest) | None \<Rightarrow> first_match alts s)"

definition sql_isolation_levels :: "(string \<times> isolation_level) list" where
  "sql_isolation_levels =
     [('' ISOLATION LEVEL SERIALIZABLE'', serializable), ('' ISOLATION LEVEL REPEATABLE READ'', repeatable_read),
      ('' ISOLATION LEVEL READ COMMITTED'', read_committed), ('' ISOLATION LEVEL READ UNCOMMITTED'', read_uncommitted)]"

definition sql_modes :: "(string \<times> transaction_mode) list" where
  "sql_modes = [('' READ WRITE'', read_write), ('' READ ONLY'', read_only)]"

definition sql_deferrable :: "(string \<times> bool) list" where
  "sql_deferrable = [('' NOT DEFERRABLE'', False), ('' DEFERRABLE'', True)]"

definition parse_begin :: "string \<Rightarrow> (isolation_level option \<times> transaction_mode option \<times> bool option) option" where
  "parse_begin s =
     Option.bind (strip ''BEGIN'' s) (\<lambda>s.
       let (l, s) = first_match sql_isolation_levels s;
           (m, s) = first_match sql_modes s;
           (d, s) = first_match sql_deferrable s
       in if s = [] then Some (l, m, d) else None)"

text \<open>The options that compile, and what each of them says, if anything.\<close>

fun option_value_ok :: "transaction_key \<Rightarrow> transaction_value \<Rightarrow> bool" where
  "option_value_ok k v \<longleftrightarrow> v = None_option \<or> option_to_string k v \<noteq> None"

definition options_ok :: "transaction_options \<Rightarrow> bool" where
  "options_ok opts \<longleftrightarrow> make_options opts \<noteq> None \<and> (\<forall>(k, v) \<in> set opts. option_value_ok k v)"

section \<open>The transaction object\<close>

record transaction =
  t_impl :: conn_ref
  t_options :: transaction_options

definition make_transaction :: "conn_ref \<Rightarrow> transaction_options \<Rightarrow> transaction" where
  "make_transaction conn opts = \<lparr>t_impl = conn, t_options = opts\<rparr>"

definition release_connection :: "transaction \<Rightarrow> conn_ref" where
  "release_connection x = t_impl x"

text \<open>A transaction is a connection.\<close>

definition transaction_ref :: "transaction \<Rightarrow> conn_ref" where
  "transaction_ref x = Transaction (t_impl x)"

text \<open>\<open>None\<close> is the \<open>none\<close> of the code.\<close>

definition get_transaction_isolation_level :: "transaction \<Rightarrow> isolation_level option" where
  "get_transaction_isolation_level x =
     (case get_option_default (t_options x) opt_isolation_level None_option of Isolation l \<Rightarrow> Some l | _ \<Rightarrow> None)"

definition get_transaction_mode :: "transaction \<Rightarrow> transaction_mode option" where
  "get_transaction_mode x =
     (case get_option_default (t_options x) opt_mode None_option of Mode m \<Rightarrow> Some m | _ \<Rightarrow> None)"

definition get_transaction_deferrability :: "transaction \<Rightarrow> bool option" where
  "get_transaction_deferrability x =
     (case get_option_default (t_options x) opt_deferrability None_option of Deferrable d \<Rightarrow> Some d | _ \<Rightarrow> None)"

section \<open>Beginning and ending\<close>

text \<open>What the event loop brings: a source of connections called with a time constraint, and a statement executed on a
  connection under a deadline.\<close>

record 'src world =
  w_source :: "'src \<Rightarrow> time_constraint \<Rightarrow> error_code \<times> conn_ref"
  w_request :: "string \<Rightarrow> time_constraint \<Rightarrow> connection \<Rightarrow> error_code \<times> connection"

text \<open>Getting a connection once it is complete.\<close>

definition get_connection :: "'src world \<Rightarrow> 'src provider \<Rightarrow> time_constraint \<Rightarrow> int \<Rightarrow> (error_code \<times> conn_ref) option" where
  "get_connection w p t now =
     map_option (\<lambda>a. case a of Given ec r \<Rightarrow> (ec, r) | Call_source src t' \<Rightarrow> w_source w src t') (async_get_connection p t now)"

text \<open>\<open>async_execute\<close> once it is complete: the connection comes from the provider; without one the error is handed on; otherwise the
  statement is executed on the connection inside, and the handler gets the connection as the provider gave it. The
  clock is read for each of the two deadlines, before the provider is asked.\<close>

definition execute_statement ::
  "'src world \<Rightarrow> 'src provider \<Rightarrow> string \<Rightarrow> time_constraint \<Rightarrow> int \<times> int \<Rightarrow> (error_code \<times> conn_ref) option" where
  "execute_statement w p stmt t now =
     Option.bind (deadline_of t (fst now)) (\<lambda>dl.
     Option.bind (deadline_of t (snd now)) (\<lambda>dl'.
     Option.bind (get_connection w p dl (fst now)) (\<lambda>(ec, r).
       if is_error ec then Some (ec, r)
       else Option.bind (unwrap_connection r) (\<lambda>c.
         let (ec', c') = w_request w stmt dl' c in Some (ec', update_connection (\<lambda>_. c') r)))))"

definition async_start_transaction ::
  "'src world \<Rightarrow> 'src provider \<Rightarrow> transaction_options \<Rightarrow> string \<Rightarrow> time_constraint \<Rightarrow> int \<times> int \<Rightarrow> (error_code \<times> transaction) option" where
  "async_start_transaction w p opts query t now =
     map_option (\<lambda>(ec, r). (ec, make_transaction r opts)) (execute_statement w p query t now)"

text \<open>\<open>begin_op\<close> with the options it carries.\<close>

definition begin_op ::
  "'src world \<Rightarrow> transaction_options \<Rightarrow> 'src provider \<Rightarrow> time_constraint \<Rightarrow> int \<times> int \<Rightarrow> (error_code \<times> transaction) option" where
  "begin_op w opts p t now = Option.bind (begin_statement opts) (\<lambda>stmt. async_start_transaction w p opts stmt t now)"

text \<open>The handler gets the transaction object back, with the connection inside as the statement left it.\<close>

definition async_end_transaction ::
  "'src world \<Rightarrow> transaction \<Rightarrow> string \<Rightarrow> time_constraint \<Rightarrow> int \<times> int \<Rightarrow> (error_code \<times> conn_ref) option" where
  "async_end_transaction w x query t now =
     Option.bind (execute_statement w (Connection_itself (transaction_ref x)) query t now)
       (\<lambda>(ec, r). case r of Transaction r' \<Rightarrow> Some (ec, release_connection (x\<lparr>t_impl := r'\<rparr>)) | _ \<Rightarrow> None)"

definition commit :: "'src world \<Rightarrow> transaction \<Rightarrow> time_constraint \<Rightarrow> int \<times> int \<Rightarrow> (error_code \<times> conn_ref) option" where
  "commit w x t now = async_end_transaction w x ''COMMIT'' t now"

definition rollback :: "'src world \<Rightarrow> transaction \<Rightarrow> time_constraint \<Rightarrow> int \<times> int \<Rightarrow> (error_code \<times> conn_ref) option" where
  "rollback w x t now = async_end_transaction w x ''ROLLBACK'' t now"

section \<open>The statement says what the options say\<close>

definition opt_text :: "('a \<Rightarrow> string) \<Rightarrow> 'a option \<Rightarrow> string" where
  "opt_text f v = (case v of Some x \<Rightarrow> f x | None \<Rightarrow> [])"

lemma strip_append: "strip pre (pre @ s) = Some s"
  by (simp add: strip_def)

lemma opt_text_mode: "opt_text mode_to_string m \<in> {[], '' READ WRITE'', '' READ ONLY''}"
proof (cases m)
  case (Some x)
  then show ?thesis by (cases x) (simp_all add: opt_text_def)
qed (simp add: opt_text_def)

lemma opt_text_deferrable: "opt_text deferrable_to_string d \<in> {[], '' DEFERRABLE'', '' NOT DEFERRABLE''}"
  by (cases d) (simp_all add: opt_text_def deferrable_to_string_def)

lemma first_match_level:
  "first_match sql_isolation_levels
     (opt_text isolation_to_string l @ opt_text mode_to_string m @ opt_text deferrable_to_string d) =
   (l, opt_text mode_to_string m @ opt_text deferrable_to_string d)"
proof (cases l)
  case None
  then show ?thesis
    using opt_text_mode [of m] opt_text_deferrable [of d] by (auto simp: sql_isolation_levels_def strip_def opt_text_def [of isolation_to_string])
next
  case (Some x)
  then show ?thesis by (cases x) (simp_all add: sql_isolation_levels_def strip_def opt_text_def [of isolation_to_string])
qed

lemma first_match_mode:
  "first_match sql_modes
     (opt_text mode_to_string m @ opt_text deferrable_to_string d) =
   (m, opt_text deferrable_to_string d)"
proof (cases m)
  case None
  then show ?thesis using opt_text_deferrable [of d] by (auto simp: sql_modes_def strip_def opt_text_def [of mode_to_string])
next
  case (Some x)
  then show ?thesis by (cases x) (simp_all add: sql_modes_def strip_def opt_text_def [of mode_to_string])
qed

lemma first_match_deferrable:
  "first_match sql_deferrable (opt_text deferrable_to_string d) = (d, [])"
  by (cases d) (simp_all add: sql_deferrable_def opt_text_def deferrable_to_string_def strip_def)

lemma parse_begin_texts:
  "parse_begin (''BEGIN'' @ opt_text isolation_to_string l @ opt_text mode_to_string m @ opt_text deferrable_to_string d) = Some (l, m, d)"
  unfolding parse_begin_def strip_append
  by (simp only: first_match_level first_match_mode first_match_deferrable bind.simps Let_def case_prod_conv if_True simp_thms)

text \<open>The clause of one option.\<close>

definition clause :: "transaction_options \<Rightarrow> transaction_key \<Rightarrow> string option list" where
  "clause opts k =
     (if has_option opts k \<and> get_option opts k \<noteq> Some None_option then [Option.bind (get_option opts k) (option_to_string k)] else [])"

lemma begin_statement_clauses:
  "begin_statement opts =
     map_option (\<lambda>strings. ''BEGIN'' @ concat strings)
       (those (clause opts opt_isolation_level @ clause opts opt_mode @ clause opts opt_deferrability))"
proof -
  have "map (\<lambda>k. Option.bind (get_option opts k) (option_to_string k)) (real_options opts) =
      clause opts opt_isolation_level @ clause opts opt_mode @ clause opts opt_deferrability"
    by (simp add: real_options_def clause_def)
  then show ?thesis by (simp only: begin_statement_def)
qed

lemma clause_value:
  assumes "options_ok opts"
  shows "clause opts k =
     (case get_option_default opts k None_option of None_option \<Rightarrow> [] | v \<Rightarrow> [option_to_string k v]) \<and>
     option_value_ok k (get_option_default opts k None_option)"
proof (cases "get_option opts k")
  case None
  then have "\<not> has_option opts k" by (auto simp: get_option_map_of has_option_def map_of_eq_None_iff)
  then show ?thesis using None by (simp add: clause_def get_option_default_read)
next
  case (Some v)
  then have in_opts: "(k, v) \<in> set opts" by (simp add: get_option_map_of map_of_SomeD)
  then have "has_option opts k" by (force simp: has_option_def)
  moreover have "option_value_ok k v" using assms in_opts by (auto simp: options_ok_def)
  ultimately show ?thesis using Some by (cases v) (auto simp: clause_def get_option_default_read)
qed

lemma clause_texts:
  assumes "options_ok opts"
  shows "clause opts opt_isolation_level =
      (case get_transaction_isolation_level (make_transaction conn opts) of None \<Rightarrow> [] | Some l \<Rightarrow> [Some (isolation_to_string l)])"
    "clause opts opt_mode = (case get_transaction_mode (make_transaction conn opts) of None \<Rightarrow> [] | Some m \<Rightarrow> [Some (mode_to_string m)])"
    "clause opts opt_deferrability =
      (case get_transaction_deferrability (make_transaction conn opts) of None \<Rightarrow> [] | Some d \<Rightarrow> [Some (deferrable_to_string d)])"
  using clause_value [OF assms, of opt_isolation_level] clause_value [OF assms, of opt_mode]
    clause_value [OF assms, of opt_deferrability]
  by (auto simp: get_transaction_isolation_level_def get_transaction_mode_def get_transaction_deferrability_def make_transaction_def
      split: transaction_value.splits)

lemma begin_statement_texts:
  assumes "options_ok opts"
  shows "begin_statement opts =
     Some (''BEGIN'' @ opt_text isolation_to_string (get_transaction_isolation_level (make_transaction conn opts)) @
       opt_text mode_to_string (get_transaction_mode (make_transaction conn opts)) @
       opt_text deferrable_to_string (get_transaction_deferrability (make_transaction conn opts)))"
  unfolding begin_statement_clauses clause_texts [OF assms, of conn] by (simp add: opt_text_def split: option.split)

text \<open>C35: the \<open>BEGIN\<close> statement says exactly the options that were given: read with the clauses of PostgreSQL's own \<open>BEGIN\<close>, the isolation
  level, the mode and the deferrability in it are those the transaction object reports, an option that is absent or \<open>none\<close>
  leaves no trace, and nothing else is in it.\<close>

theorem begin_statement_roundtrip:
  assumes "options_ok opts"
  shows "\<exists>s. begin_statement opts = Some s \<and>
     (\<forall>conn. let x = make_transaction conn opts
        in parse_begin s = Some (get_transaction_isolation_level x, get_transaction_mode x, get_transaction_deferrability x))"
proof -
  from begin_statement_texts [OF assms] obtain s where s: "begin_statement opts = Some s" by blast
  have "parse_begin s = Some (get_transaction_isolation_level (make_transaction conn opts), get_transaction_mode (make_transaction conn opts),
      get_transaction_deferrability (make_transaction conn opts))" for conn
    using begin_statement_texts [OF assms, of conn] s by (simp only: option.inject parse_begin_texts)
  with s show ?thesis by (simp add: Let_def)
qed

theorem begin_statement_roundtrip_witness:
  "\<exists>s. begin_statement [(opt_mode, Mode read_only), (opt_isolation_level, Isolation serializable), (opt_deferrability, None_option)] = Some s \<and>
     parse_begin s = Some (Some serializable, Some read_only, None)"
proof -
  let ?opts = "[(opt_mode, Mode read_only), (opt_isolation_level, Isolation serializable), (opt_deferrability, None_option)]"
  have "options_ok ?opts" by (simp add: options_ok_def make_options_def)
  from begin_statement_roundtrip [OF this] obtain s where "begin_statement ?opts = Some s"
    "\<forall>conn. let x = make_transaction conn ?opts
       in parse_begin s = Some (get_transaction_isolation_level x, get_transaction_mode x, get_transaction_deferrability x)" by blast
  then show ?thesis
    by (simp add: make_transaction_def get_transaction_isolation_level_def get_transaction_mode_def get_transaction_deferrability_def
        get_option_default_read get_option_map_of)
qed

section \<open>The life of a transaction\<close>

lemma update_connection_twice [simp]: "update_connection f (update_connection g r) = update_connection (\<lambda>c. f (g c)) r"
  by (induction r) (auto simp: option.map_comp comp_def intro: option.map_cong)

text \<open>A transaction whose handle is a connection, or a reference or pointer to one, hands the connection inside to the statement.\<close>

lemma transaction_unwrap:
  assumes "wf_conn (Transaction r)" "unwrap_connection r = Some c"
  shows "unwrap_connection (Transaction r) = Some c" "wf_conn (Transaction (update_connection f r))"
  using assms by (cases r; auto split: option.splits conn_ref.splits)+

lemma async_end_transaction_executes:
  assumes "wf_conn (transaction_ref x)" "unwrap_connection (t_impl x) = Some c"
    and "deadline_of t (fst now) = Some dl" "deadline_of t (snd now) = Some dl'"
    and "w_request w q dl' (c\<lparr>c_error_context := []\<rparr>) = (ec, c')"
  shows "async_end_transaction w x q t now = Some (ec, update_connection (\<lambda>_. c') (t_impl x))"
proof -
  have "unwrap_connection (transaction_ref x) = Some c"
    using transaction_unwrap(1) assms(1,2) by (simp add: transaction_ref_def)
  then show ?thesis
    using assms(3-5)
    by (simp add: async_end_transaction_def execute_statement_def get_connection_def forward_connection_def release_connection_def
        is_error_def no_error_def) (simp add: transaction_ref_def)
qed

text \<open>C18: the life of a transaction: if the provider has no connection to give, its error is what the user gets, and nothing was executed.
  Otherwise the \<open>BEGIN\<close> statement of the options is executed on the connection the provider gave, and the transaction that comes back
  with its outcome holds that connection and those options; \<open>commit\<close> and \<open>rollback\<close> execute their statement on the connection as the transaction
  left it, with an empty error context, and give the same connection back, wrapped as the provider gave it, whatever the outcome.\<close>

theorem transaction_life:
  assumes "options_ok opts" and "deadline_of t (fst now) = Some dl" and "deadline_of t (snd now) = Some dl'"
    and "get_connection w p dl (fst now) = Some (ec0, r0)" and "\<not> is_error ec0 \<longrightarrow> unwrap_connection r0 = Some c"
    and "wf_conn (Transaction r0)"
    and "deadline_of t2 (fst now2) = Some dl2" and "deadline_of t2 (snd now2) = Some dl2'"
  shows "\<exists>stmt ec c1 x. begin_statement opts = Some stmt \<and> w_request w stmt dl' c = (ec, c1) \<and>
     (is_error ec0 \<longrightarrow> begin_op w opts p t now = Some (ec0, make_transaction r0 opts)) \<and>
     (\<not> is_error ec0 \<longrightarrow> begin_op w opts p t now = Some (ec, x) \<and> t_options x = opts \<and>
        release_connection x = update_connection (\<lambda>_. c1) r0 \<and>
        (\<forall>ec2 c2. w_request w ''COMMIT'' dl2' (c1\<lparr>c_error_context := []\<rparr>) = (ec2, c2) \<longrightarrow>
           commit w x t2 now2 = Some (ec2, update_connection (\<lambda>_. c2) r0)) \<and>
        (\<forall>ec2 c2. w_request w ''ROLLBACK'' dl2' (c1\<lparr>c_error_context := []\<rparr>) = (ec2, c2) \<longrightarrow>
           rollback w x t2 now2 = Some (ec2, update_connection (\<lambda>_. c2) r0)))"
proof -
  obtain stmt where stmt: "begin_statement opts = Some stmt" using begin_statement_texts [OF assms(1)] by blast
  obtain ec c1 where run: "w_request w stmt dl' c = (ec, c1)" by fastforce
  let ?x = "make_transaction (update_connection (\<lambda>_. c1) r0) opts"
  have "begin_op w opts p t now = Some (if is_error ec0 then (ec0, make_transaction r0 opts) else (ec, ?x))"
    using assms(2-5) run stmt
    by (simp add: begin_op_def async_start_transaction_def execute_statement_def)
  moreover have "async_end_transaction w ?x q t2 now2 = Some (ec2, update_connection (\<lambda>_. c2) r0)"
    if "\<not> is_error ec0" "w_request w q dl2' (c1\<lparr>c_error_context := []\<rparr>) = (ec2, c2)" for q ec2 c2
  proof -
    have "unwrap_connection (t_impl ?x) = Some c1" "wf_conn (transaction_ref ?x)"
      using assms(5,6) that(1) transaction_unwrap by (simp_all add: make_transaction_def transaction_ref_def)
    from async_end_transaction_executes [OF this(2,1) assms(7,8) that(2)]
    show ?thesis by (simp add: make_transaction_def)
  qed
  ultimately show ?thesis
    using stmt run by (auto simp: commit_def rollback_def make_transaction_def release_connection_def)
qed

definition sample_world :: "string world" where
  "sample_world = \<lparr>w_source = (\<lambda>_ _. (no_error, Ptr (Some (Plain sample_connection)))),
     w_request = (\<lambda>stmt _ c. (no_error, c\<lparr>c_error_context := c_error_context c @ stmt\<rparr>))\<rparr>"

theorem transaction_life_witness:
  "\<exists>x. begin_op sample_world [] (Connection_provider ''db'') No_time (0, 0) = Some (no_error, x) \<and>
     commit sample_world x No_time (1, 1) = Some (no_error, Ptr (Some (Plain (sample_connection\<lparr>c_error_context := ''COMMIT''\<rparr>))))"
proof -
  let ?r = "Ptr (Some (Plain sample_connection))"
  have ok: "options_ok []" by (simp add: options_ok_def make_options_def)
  have dl: "deadline_of No_time i = Some No_time" for i by (simp add: deadline_of_def)
  have conn: "get_connection sample_world (Connection_provider ''db'') No_time 0 = Some (no_error, ?r)"
    by (simp add: get_connection_def sample_world_def)
  from transaction_life [OF ok, where t = No_time and now = "(0, 0)" and ?t2.0 = No_time and ?now2.0 = "(1, 1)" and w = sample_world and
      p = "Connection_provider ''db''", unfolded fst_conv snd_conv, OF dl dl conn _ _ dl dl, of sample_connection]
  show ?thesis by (auto simp: is_error_def no_error_def sample_world_def)
qed

section \<open>Transaction status\<close>

datatype pq_transaction_status = PQTRANS_IDLE | PQTRANS_ACTIVE | PQTRANS_INTRANS | PQTRANS_INERROR | PQTRANS_UNKNOWN

datatype transaction_status = ts_unknown | ts_idle | ts_active | ts_transaction | ts_error

text \<open>\<open>None\<close> is a null connection. The five values are all libpq has, so the final \<open>throw\<close> is not
  reached.\<close>

definition get_transaction_status :: "pq_transaction_status option \<Rightarrow> transaction_status" where
  "get_transaction_status conn =
     (case conn of None \<Rightarrow> ts_unknown
      | Some v \<Rightarrow> (case v of PQTRANS_UNKNOWN \<Rightarrow> ts_unknown | PQTRANS_IDLE \<Rightarrow> ts_idle | PQTRANS_ACTIVE \<Rightarrow> ts_active
          | PQTRANS_INTRANS \<Rightarrow> ts_transaction | PQTRANS_INERROR \<Rightarrow> ts_error))"

end
