(* ===== verification/Bozo_Pool.thy ===== *)
theory Bozo_Pool
  imports Bozo_Connect Bozo_Transaction Bozo_Deadline "HOL-Library.Multiset"
begin

text \<open>
  \<open>connection_pool.h\<close> and \<open>impl/connection_pool.h\<close>: connections taken from a resource pool and given back to it
  when the user drops them. The pool itself is \<open>yamail::resource_pool\<close>; of it the code uses the handle to a
  resource, which may be empty, can be reset to a new resource and can be marked as waste, and that a handle that
  goes out of scope gives its resource back to the pool unless it is empty or waste, and that the pool closes the connections
  that are idle or alive for too long, which may be at any time. libpq's \<open>PQsocket\<close>, \<open>PQstatus\<close> and \<open>PQtransactionStatus\<close> are
  arguments.
\<close>

section \<open>Handles and pooled connections\<close>

record connection_rep =
  rep_handle :: "nat option"
  rep_oid_map :: oid_map
  rep_error_context :: string

record pool_handle =
  ph_value :: "connection_rep option"
  ph_waste :: bool

definition empty_handle :: pool_handle where
  "empty_handle = \<lparr>ph_value = None, ph_waste = False\<rparr>"

definition handle_of :: "connection_rep \<Rightarrow> pool_handle" where
  "handle_of rep = \<lparr>ph_value = Some rep, ph_waste = False\<rparr>"

record pooled_connection =
  pc_rep :: pool_handle
  pc_stream :: "int option"

definition rep_native :: "pool_handle \<Rightarrow> nat option" where
  "rep_native h = Option.bind (ph_value h) rep_handle"

definition pooled_native_handle :: "pooled_connection \<Rightarrow> nat option" where
  "pooled_native_handle c = (case ph_value (pc_rep c) of None \<Rightarrow> None | Some rep \<Rightarrow> rep_handle rep)"

text \<open>The constructor; \<open>PQsocket\<close> of a null handle is -1.\<close>

definition make_pooled_connection :: "(nat \<Rightarrow> int) \<Rightarrow> pool_handle \<Rightarrow> pooled_connection" where
  "make_pooled_connection PQsocket rep =
     (let c = \<lparr>pc_rep = rep, pc_stream = None\<rparr>;
          fd = (case pooled_native_handle c of None \<Rightarrow> - 1 | Some h \<Rightarrow> PQsocket h)
      in if fd \<noteq> - 1 then c\<lparr>pc_stream := Some fd\<rparr> else c)"

text \<open>\<open>close\<close> frees the libpq handle of the representation, which stays in the pool handle without it.\<close>

definition pooled_close :: "pooled_connection \<Rightarrow> error_code \<times> pooled_connection \<times> nat list" where
  "pooled_close c =
     (no_error,
      c\<lparr>pc_stream := None,
        pc_rep := (pc_rep c)\<lparr>ph_value := map_option (\<lambda>rep. rep\<lparr>rep_handle := None\<rparr>) (ph_value (pc_rep c))\<rparr>\<rparr>,
      (case pooled_native_handle c of None \<Rightarrow> [] | Some h \<Rightarrow> [h]))"

definition pooled_is_bad :: "(nat \<Rightarrow> bool) \<Rightarrow> pooled_connection \<Rightarrow> bool" where
  "pooled_is_bad status_ok c = (\<not> (case pooled_native_handle c of None \<Rightarrow> False | Some h \<Rightarrow> status_ok h))"

text \<open>The destructor, and what is left to the pool.\<close>

definition destroy_pooled :: "(nat \<Rightarrow> bool) \<Rightarrow> (nat option \<Rightarrow> pq_transaction_status) \<Rightarrow> pooled_connection \<Rightarrow> pool_handle" where
  "destroy_pooled status_ok PQtransactionStatus c =
     (if ph_value (pc_rep c) \<noteq> None \<and>
         (pooled_is_bad status_ok c \<or> get_transaction_status (Some (PQtransactionStatus (pooled_native_handle c))) \<noteq> ts_idle)
      then (pc_rep c)\<lparr>ph_waste := True\<rparr> else pc_rep c)"

section \<open>Getting a connection\<close>

text \<open>The handler the pool calls: it passes an error on, takes the resource if its connection is not known to be
  bad, and otherwise asks the connection source for a connection to put into the handle.\<close>

datatype checkout = Handler error_code "pooled_connection option" | Ask_source pool_handle

definition pooled_connection_wrapper :: "(nat \<Rightarrow> int) \<Rightarrow> (nat \<Rightarrow> bool) \<Rightarrow> error_code \<Rightarrow> pool_handle \<Rightarrow> checkout" where
  "pooled_connection_wrapper PQsocket bad ec h =
     (if is_error ec then Handler ec None
      else case ph_value h of
             Some rep \<Rightarrow> (if \<not> connection_status_bad bad (rep_handle rep)
                          then Handler ec (Some (make_pooled_connection PQsocket h)) else Ask_source h)
           | None \<Rightarrow> Ask_source h)"

text \<open>The handler the source calls. A new representation in the handle frees the libpq handle of the one it
  replaces; without a connection the handle stays as it is. The result is what the user's handler gets, the handle
  that is left and the libpq handles that are freed.\<close>

definition source_wrapper ::
  "(nat \<Rightarrow> int) \<Rightarrow> pool_handle \<Rightarrow> error_code \<Rightarrow> connection option \<Rightarrow> (error_code \<times> pooled_connection option) \<times> pool_handle option \<times> nat list" where
  "source_wrapper PQsocket h ec conn =
     (case conn of
        None \<Rightarrow> ((ec, None), Some h, [])
      | Some target \<Rightarrow>
          (let (native, target') = conn_release target;
               h' = h\<lparr>ph_value := Some \<lparr>rep_handle = native, rep_oid_map = c_oid_map target', rep_error_context = c_error_context target'\<rparr>\<rparr>
           in ((ec, Some (make_pooled_connection PQsocket h')), None, (case rep_native h of None \<Rightarrow> [] | Some x \<Rightarrow> [x]))))"

text \<open>\<open>queue_timeout\<close>: how long the request may wait in the queue of the pool.\<close>

fun queue_timeout :: "time_constraint \<Rightarrow> int \<Rightarrow> int option" where
  "queue_timeout (Until at) now = time_left at now"
| "queue_timeout (Within t) now = Some t"
| "queue_timeout No_time now = Some 0"

section \<open>Runs of a pool\<close>

text \<open>The resources the pool keeps, the connections in use, the libpq handles that were freed and those the source
  has opened.\<close>

record pool_state =
  ps_idle :: "connection_rep list"
  ps_used :: "pooled_connection list"
  ps_finished :: "nat list"
  ps_opened :: "nat list"

definition new_pool :: pool_state where
  "new_pool = \<lparr>ps_idle = [], ps_used = [], ps_finished = [], ps_opened = []\<rparr>"

definition opt_list :: "'a option \<Rightarrow> 'a list" where
  "opt_list x = (case x of None \<Rightarrow> [] | Some y \<Rightarrow> [y])"

lemma opt_list_simps [simp]: "opt_list None = []" "opt_list (Some x) = [x]"
  by (simp_all add: opt_list_def)

text \<open>The end of a handle.\<close>

definition give_back :: "pool_handle \<Rightarrow> pool_state \<Rightarrow> pool_state" where
  "give_back h s =
     (case ph_value h of
        None \<Rightarrow> s
      | Some rep \<Rightarrow> (if ph_waste h then s\<lparr>ps_finished := ps_finished s @ opt_list (rep_handle rep)\<rparr>
                     else s\<lparr>ps_idle := rep # ps_idle s\<rparr>))"

definition source_result :: "(nat \<Rightarrow> int) \<Rightarrow> error_code \<Rightarrow> connection option \<Rightarrow> pool_handle \<Rightarrow> pool_state \<Rightarrow> pool_state" where
  "source_result PQsocket ec conn h s =
     (let ((_, c), rest, freed) = source_wrapper PQsocket h ec conn;
          s' = s\<lparr>ps_used := opt_list c @ ps_used s, ps_finished := ps_finished s @ freed,
                 ps_opened := opt_list (Option.bind conn c_handle) @ ps_opened s\<rparr>
      in case rest of None \<Rightarrow> s' | Some h' \<Rightarrow> give_back h' s')"

definition opens_fresh :: "pool_state \<Rightarrow> connection option \<Rightarrow> bool" where
  "opens_fresh s conn \<longleftrightarrow> (case Option.bind conn c_handle of None \<Rightarrow> True | Some h \<Rightarrow> h \<notin> set (ps_opened s))"

text \<open>What libpq says of the connections in a step: \<open>PQstatus\<close>, of which the code tells two values apart, and \<open>PQtransactionStatus\<close>.\<close>

datatype conn_status = CONNECTION_OK | CONNECTION_BAD | CONNECTION_OTHER

record libpq_view =
  v_status :: "nat \<Rightarrow> conn_status"
  v_transaction :: "nat option \<Rightarrow> pq_transaction_status"

definition view_bad :: "libpq_view \<Rightarrow> nat \<Rightarrow> bool" where
  "view_bad view h \<longleftrightarrow> v_status view h = CONNECTION_BAD"

definition view_ok :: "libpq_view \<Rightarrow> nat \<Rightarrow> bool" where
  "view_ok view h \<longleftrightarrow> v_status view h = CONNECTION_OK"

text \<open>The steps by what happens: a request takes a resource of the pool as it is, has it replaced by the source, or has one created; a user
  closes or drops a connection; the pool closes a resource that is idle or alive for too long.\<close>

datatype pool_action = Take | Replace | Create | Close | Drop | Expire

inductive pool_event :: "(nat \<Rightarrow> int) \<Rightarrow> libpq_view \<Rightarrow> pool_action \<Rightarrow> pool_state \<Rightarrow> pool_state \<Rightarrow> bool" for PQsocket view where
  take_idle: "ps_idle s = xs @ rep # ys \<Longrightarrow>
     pooled_connection_wrapper PQsocket (view_bad view) no_error (handle_of rep) = Handler ec (Some c) \<Longrightarrow>
     pool_event PQsocket view Take s (s\<lparr>ps_idle := xs @ ys, ps_used := c # ps_used s\<rparr>)"
| replace_bad: "ps_idle s = xs @ rep # ys \<Longrightarrow>
     pooled_connection_wrapper PQsocket (view_bad view) no_error (handle_of rep) = Ask_source h \<Longrightarrow> opens_fresh s conn \<Longrightarrow>
     pool_event PQsocket view Replace s (source_result PQsocket ec conn h (s\<lparr>ps_idle := xs @ ys\<rparr>))"
| create: "pooled_connection_wrapper PQsocket (view_bad view) no_error empty_handle = Ask_source h \<Longrightarrow> opens_fresh s conn \<Longrightarrow>
     pool_event PQsocket view Create s (source_result PQsocket ec conn h s)"
| close: "ps_used s = xs @ c # ys \<Longrightarrow> pooled_close c = (ec, c', freed) \<Longrightarrow>
     pool_event PQsocket view Close s (s\<lparr>ps_used := xs @ c' # ys, ps_finished := ps_finished s @ freed\<rparr>)"
| drop: "ps_used s = xs @ c # ys \<Longrightarrow>
     pool_event PQsocket view Drop s
       (give_back (destroy_pooled (view_ok view) (v_transaction view) c) (s\<lparr>ps_used := xs @ ys\<rparr>))"
| expire: "ps_idle s = xs @ rep # ys \<Longrightarrow>
     pool_event PQsocket view Expire s
       (s\<lparr>ps_idle := xs @ ys, ps_finished := ps_finished s @ opt_list (rep_handle rep)\<rparr>)"

text \<open>What libpq says of a connection may be different at every step.\<close>

definition pool_step :: "(nat \<Rightarrow> int) \<Rightarrow> pool_state \<Rightarrow> pool_state \<Rightarrow> bool" where
  "pool_step PQsocket s s' \<longleftrightarrow> (\<exists>view a. pool_event PQsocket view a s s')"

text \<open>Who owns a libpq handle.\<close>

definition idle_handles :: "pool_state \<Rightarrow> nat list" where
  "idle_handles s = concat (map (\<lambda>rep. opt_list (rep_handle rep)) (ps_idle s))"

definition used_handles :: "pool_state \<Rightarrow> nat list" where
  "used_handles s = concat (map (\<lambda>c. opt_list (pooled_native_handle c)) (ps_used s))"

definition watches_own_socket :: "(nat \<Rightarrow> int) \<Rightarrow> pooled_connection \<Rightarrow> bool" where
  "watches_own_socket PQsocket c \<longleftrightarrow>
     pc_stream c = Option.bind (pooled_native_handle c) (\<lambda>h. if PQsocket h = - 1 then None else Some (PQsocket h))"

definition pool_inv :: "(nat \<Rightarrow> int) \<Rightarrow> pool_state \<Rightarrow> bool" where
  "pool_inv PQsocket s \<longleftrightarrow>
     mset (ps_opened s) = mset (idle_handles s) + mset (used_handles s) + mset (ps_finished s) \<and>
     distinct (ps_opened s) \<and> list_all (watches_own_socket PQsocket) (ps_used s) \<and>
     list_all (\<lambda>c. \<not> ph_waste (pc_rep c)) (ps_used s)"

lemma native_eq: "pooled_native_handle c = rep_native (pc_rep c)"
  by (auto simp: pooled_native_handle_def rep_native_def split: option.splits)

lemma make_pooled_native [simp]: "pooled_native_handle (make_pooled_connection PQsocket h) = rep_native h"
  by (simp add: make_pooled_connection_def native_eq Let_def)

lemma make_pooled_watches [simp]: "watches_own_socket PQsocket (make_pooled_connection PQsocket h)"
  by (auto simp: watches_own_socket_def make_pooled_connection_def native_eq Let_def split: option.splits)

lemma make_pooled_waste [simp]: "ph_waste (pc_rep (make_pooled_connection PQsocket h)) = ph_waste h"
  by (simp add: make_pooled_connection_def Let_def)

lemma fresh_handles [simp]: "\<not> ph_waste (handle_of rep)" "\<not> ph_waste empty_handle"
  by (simp_all add: handle_of_def empty_handle_def)

lemma wrapper_handler:
  "pooled_connection_wrapper PQsocket bad no_error (handle_of rep) = Handler ec (Some c) \<longleftrightarrow>
     (\<exists>h. rep_handle rep = Some h \<and> \<not> bad h) \<and> ec = no_error \<and> c = make_pooled_connection PQsocket (handle_of rep)"
  by (auto simp: pooled_connection_wrapper_def handle_of_def connection_status_bad_def is_error_def no_error_def split: option.splits if_splits)

lemma wrapper_ask: "pooled_connection_wrapper PQsocket bad ec h = Ask_source h' \<Longrightarrow> h' = h"
  by (auto simp: pooled_connection_wrapper_def split: option.splits if_splits)

lemma rep_native_handle_of [simp]: "rep_native (handle_of rep) = rep_handle rep" "rep_native empty_handle = None"
  by (simp_all add: rep_native_def handle_of_def empty_handle_def)

text \<open>All handles that are owned by someone or freed.\<close>

definition accounted :: "pool_state \<Rightarrow> nat multiset" where
  "accounted s = mset (idle_handles s) + mset (used_handles s) + mset (ps_finished s)"

lemmas handle_defs = accounted_def idle_handles_def used_handles_def

lemma give_back_accounted: "accounted (give_back h s) = accounted s + mset (opt_list (rep_native h))"
  by (cases "ph_value h") (auto simp: give_back_def rep_native_def handle_defs)

lemma give_back_simps [simp]: "ps_opened (give_back h s) = ps_opened s" "ps_used (give_back h s) = ps_used s"
  by (auto simp: give_back_def split: option.splits)

lemma source_result_accounted:
  "accounted (source_result PQsocket ec conn h s) =
     accounted s + mset (opt_list (rep_native h)) + mset (opt_list (Option.bind conn c_handle))"
proof (cases conn)
  case None
  then show ?thesis by (simp add: source_result_def source_wrapper_def give_back_accounted)
next
  case (Some target)
  then show ?thesis
    by (cases "rep_native h")
      (auto simp: source_result_def source_wrapper_def conn_release_def handle_defs rep_native_def Let_def)
qed

lemma source_result_simps:
  "ps_opened (source_result PQsocket ec conn h s) = opt_list (Option.bind conn c_handle) @ ps_opened s"
  "list_all (watches_own_socket PQsocket) (ps_used (source_result PQsocket ec conn h s)) =
     list_all (watches_own_socket PQsocket) (ps_used s)"
  "\<not> ph_waste h \<Longrightarrow> list_all (\<lambda>c. \<not> ph_waste (pc_rep c)) (ps_used (source_result PQsocket ec conn h s)) =
     list_all (\<lambda>c. \<not> ph_waste (pc_rep c)) (ps_used s)"
  by (cases conn; simp add: source_result_def source_wrapper_def conn_release_def Let_def)+

lemma pool_inv_accounted:
  "pool_inv PQsocket s \<longleftrightarrow>
     mset (ps_opened s) = accounted s \<and> distinct (ps_opened s) \<and> list_all (watches_own_socket PQsocket) (ps_used s) \<and>
     list_all (\<lambda>c. \<not> ph_waste (pc_rep c)) (ps_used s)"
  by (simp add: pool_inv_def accounted_def)

lemma opens_fresh_distinct:
  "opens_fresh s conn \<Longrightarrow> distinct (ps_opened s) \<Longrightarrow> distinct (opt_list (Option.bind conn c_handle) @ ps_opened s)"
  by (auto simp: opens_fresh_def split: option.splits)

lemma destroy_native [simp]: "rep_native (destroy_pooled ok tx c) = pooled_native_handle c"
  by (simp add: destroy_pooled_def native_eq rep_native_def)

lemma pooled_close_handles:
  "pooled_close c = (ec, c', freed) \<Longrightarrow>
     pooled_native_handle c' = None \<and> freed = opt_list (pooled_native_handle c) \<and> pc_stream c' = None \<and>
     ph_waste (pc_rep c') = ph_waste (pc_rep c)"
  by (cases "ph_value (pc_rep c)") (auto simp: pooled_close_def native_eq rep_native_def opt_list_def split: option.splits)

lemma pool_event_inv:
  assumes "pool_event PQsocket view a s s'" "pool_inv PQsocket s"
  shows "pool_inv PQsocket s'"
  using assms
proof cases
  case (take_idle xs rep ys ec c)
  then show ?thesis using assms(2) by (auto simp: wrapper_handler pool_inv_accounted handle_defs)
next
  case (replace_bad xs rep ys h conn ec)
  have "h = handle_of rep" using wrapper_ask replace_bad(4) by blast
  moreover have "accounted s = accounted (s\<lparr>ps_idle := xs @ ys\<rparr>) + mset (opt_list (rep_handle rep))"
    using replace_bad(3) by (simp add: handle_defs)
  ultimately show ?thesis
    using assms(2) replace_bad opens_fresh_distinct [of s conn]
    by (simp add: pool_inv_accounted source_result_accounted source_result_simps)
next
  case (create h conn ec)
  then have "h = empty_handle" using wrapper_ask by blast
  then show ?thesis
    using assms(2) create opens_fresh_distinct [of s conn]
    by (simp add: pool_inv_accounted source_result_accounted source_result_simps)
next
  case (close xs c ys ec c' freed)
  then show ?thesis
    using assms(2) pooled_close_handles [OF close(4)]
    by (auto simp: pool_inv_accounted handle_defs watches_own_socket_def)
next
  case (drop xs c ys)
  then have "accounted s = accounted (s\<lparr>ps_used := xs @ ys\<rparr>) + mset (opt_list (pooled_native_handle c))"
    by (simp add: handle_defs)
  with drop assms(2) show ?thesis by (simp add: pool_inv_accounted give_back_accounted)
next
  case (expire xs rep ys)
  then show ?thesis using assms(2) by (simp add: pool_inv_accounted handle_defs)
qed

lemma pool_inv_step: "pool_step PQsocket s s' \<Longrightarrow> pool_inv PQsocket s \<Longrightarrow> pool_inv PQsocket s'"
  by (auto simp: pool_step_def intro: pool_event_inv)

lemma pool_inv_reach: "(pool_step PQsocket)\<^sup>*\<^sup>* new_pool s \<Longrightarrow> pool_inv PQsocket s"
proof (induction rule: rtranclp_induct)
  case base
  show ?case by (simp add: pool_inv_def new_pool_def idle_handles_def used_handles_def)
qed (rule pool_inv_step)

lemma pool_inv_disjoint:
  assumes "pool_inv PQsocket s"
  shows "distinct (idle_handles s @ used_handles s @ ps_finished s)"
    "set (ps_opened s) = set (idle_handles s) \<union> set (used_handles s) \<union> set (ps_finished s)"
proof -
  have i: "mset (ps_opened s) = mset (idle_handles s @ used_handles s @ ps_finished s)" "distinct (ps_opened s)"
    using assms by (simp_all add: pool_inv_def)
  from mset_eq_imp_distinct_iff [OF i(1)] i(2) show "distinct (idle_handles s @ used_handles s @ ps_finished s)" by simp
  from mset_eq_setD [OF i(1)] show "set (ps_opened s) = set (idle_handles s) \<union> set (used_handles s) \<union> set (ps_finished s)" by auto
qed

text \<open>C4: whatever the users of a pool do, every libpq handle that was opened for it is at any time owned by exactly
  one resource of the pool or one connection in use, or has been freed once: none leaks, none is shared, none is
  freed twice or used after it was freed. A connection in use watches the socket of its own handle.\<close>

theorem pool_handles_owned_once:
  assumes "(pool_step PQsocket)\<^sup>*\<^sup>* new_pool s"
  shows "distinct (idle_handles s @ used_handles s @ ps_finished s) \<and>
    set (ps_opened s) = set (idle_handles s) \<union> set (used_handles s) \<union> set (ps_finished s) \<and>
    list_all (watches_own_socket PQsocket) (ps_used s)"
  using pool_inv_disjoint [OF pool_inv_reach [OF assms]] pool_inv_reach [OF assms] by (auto simp: pool_inv_def)

text \<open>A connection is opened and used, put back, taken again and closed.\<close>

definition sample_pool :: pool_state where
  "sample_pool = source_result (\<lambda>_. 5) no_error (Some ((new_connection [])\<lparr>c_handle := Some 7\<rparr>)) empty_handle new_pool"

definition sample_view :: libpq_view where
  "sample_view = \<lparr>v_status = \<lambda>_. CONNECTION_OK, v_transaction = \<lambda>_. PQTRANS_IDLE\<rparr>"

lemma sample_pool_created: "pool_event (\<lambda>_. 5) sample_view Create new_pool sample_pool"
  unfolding sample_pool_def
  by (rule pool_event.create)
    (simp_all add: pooled_connection_wrapper_def empty_handle_def opens_fresh_def new_pool_def is_error_def no_error_def)

lemma sample_pool_reached: "(pool_step (\<lambda>_. 5))\<^sup>*\<^sup>* new_pool sample_pool"
  using sample_pool_created by (intro r_into_rtranclp) (auto simp: pool_step_def)

theorem pool_handles_owned_once_witness:
  "(pool_step (\<lambda>_. 5))\<^sup>*\<^sup>* new_pool sample_pool \<and> used_handles sample_pool = [7] \<and>
   distinct (idle_handles sample_pool @ used_handles sample_pool @ ps_finished sample_pool)"
proof -
  have "used_handles sample_pool = [7]"
    by (simp add: sample_pool_def source_result_def source_wrapper_def conn_release_def empty_handle_def new_connection_def
        used_handles_def rep_native_def new_pool_def)
  with pool_handles_owned_once [OF sample_pool_reached] sample_pool_reached show ?thesis by simp
qed

lemma idle_status: "get_transaction_status (Some v) = ts_idle \<longleftrightarrow> v = PQTRANS_IDLE"
  by (cases v) (simp_all add: get_transaction_status_def)

lemma give_back_destroyed:
  assumes "ph_value (pc_rep c) = Some rep" "\<not> ph_waste (pc_rep c)"
  shows "give_back (destroy_pooled ok tx c) s =
      (if (\<exists>h. rep_handle rep = Some h \<and> ok h \<and> tx (Some h) = PQTRANS_IDLE) then s\<lparr>ps_idle := rep # ps_idle s\<rparr>
       else s\<lparr>ps_finished := ps_finished s @ opt_list (rep_handle rep)\<rparr>)"
  using assms by (cases "rep_handle rep")
    (auto simp: give_back_def destroy_pooled_def pooled_is_bad_def pooled_native_handle_def idle_status)

lemma wrapper_no_error:
  "pooled_connection_wrapper PQsocket bad no_error (handle_of rep) =
     (if (\<exists>h. rep_handle rep = Some h \<and> \<not> bad h) then Handler no_error (Some (make_pooled_connection PQsocket (handle_of rep)))
      else Ask_source (handle_of rep))"
  by (auto simp: pooled_connection_wrapper_def handle_of_def connection_status_bad_def is_error_def no_error_def
      split: option.splits)

lemma wrapper_empty: "pooled_connection_wrapper PQsocket bad no_error empty_handle = Ask_source empty_handle"
  by (simp add: pooled_connection_wrapper_def empty_handle_def is_error_def no_error_def)

section \<open>The life of a libpq handle\<close>

text \<open>The abstract view of a pool: for every libpq handle who has it. It is opened for a user, may go back and forth
  between users and the pool, and is freed in the end.\<close>

datatype owner = Unopened | Idle | Used | Freed

definition owner :: "pool_state \<Rightarrow> nat \<Rightarrow> owner" where
  "owner s h =
     (if h \<in> set (ps_finished s) then Freed else if h \<in> set (used_handles s) then Used
      else if h \<in> set (idle_handles s) then Idle else Unopened)"

definition hand_over :: "nat option \<Rightarrow> owner \<Rightarrow> (nat \<Rightarrow> owner) \<Rightarrow> nat \<Rightarrow> owner" where
  "hand_over x new own = (case x of None \<Rightarrow> own | Some h \<Rightarrow> own(h := new))"

definition owned_by :: "(nat \<Rightarrow> owner) \<Rightarrow> owner \<Rightarrow> nat option \<Rightarrow> bool" where
  "owned_by own x h \<longleftrightarrow> (\<forall>k. h = Some k \<longrightarrow> own k = x)"

definition usable :: "libpq_view \<Rightarrow> nat option \<Rightarrow> bool" where
  "usable view h \<longleftrightarrow> (\<exists>k. h = Some k \<and> v_status view k = CONNECTION_OK \<and> v_transaction view (Some k) = PQTRANS_IDLE)"

text \<open>What an action does to the owners of all handles: at most the handles that are named change hands. \<open>None\<close> is a connection
  without a libpq handle, such as one that was closed or never opened.\<close>

inductive owner_event :: "libpq_view \<Rightarrow> pool_action \<Rightarrow> (nat \<Rightarrow> owner) \<Rightarrow> (nat \<Rightarrow> owner) \<Rightarrow> bool" for view where
  taken: "own h = Idle \<Longrightarrow> v_status view h \<noteq> CONNECTION_BAD \<Longrightarrow> owner_event view Take own (own(h := Used))"
| replaced: "owned_by own Idle old \<Longrightarrow> (\<And>h. old = Some h \<Longrightarrow> v_status view h = CONNECTION_BAD) \<Longrightarrow> owned_by own Unopened new \<Longrightarrow>
    owner_event view Replace own (hand_over new Used (hand_over old Freed own))"
| not_replaced: "owner_event view Replace own own"
| created: "owned_by own Unopened new \<Longrightarrow> owner_event view Create own (hand_over new Used own)"
| closed: "owned_by own Used old \<Longrightarrow> owner_event view Close own (hand_over old Freed own)"
| dropped: "owned_by own Used old \<Longrightarrow> owner_event view Drop own (hand_over old (if usable view old then Idle else Freed) own)"
| expired: "owned_by own Idle old \<Longrightarrow> owner_event view Expire own (hand_over old Freed own)"

lemma set_opt_list [simp]: "set (opt_list x) = set_option x"
  by (cases x) simp_all

lemma give_back_handles:
  "set (idle_handles (give_back h s)) =
     (if ph_waste h then {} else set_option (rep_native h)) \<union> set (idle_handles s)"
  "set (ps_finished (give_back h s)) = set (ps_finished s) \<union> (if ph_waste h then set_option (rep_native h) else {})"
  "used_handles (give_back h s) = used_handles s"
  by (cases "ph_value h"; simp add: give_back_def rep_native_def handle_defs)+

lemma source_result_handles:
  assumes "\<not> ph_waste h"
  shows "set (used_handles (source_result PQsocket ec conn h s)) = set_option (Option.bind conn c_handle) \<union> set (used_handles s)"
    "set (idle_handles (source_result PQsocket ec conn h s)) =
       (if conn = None then set_option (rep_native h) else {}) \<union> set (idle_handles s)"
    "set (ps_finished (source_result PQsocket ec conn h s)) =
       set (ps_finished s) \<union> (if conn = None then {} else set_option (rep_native h))"
proof -
  show "set (used_handles (source_result PQsocket ec conn h s)) = set_option (Option.bind conn c_handle) \<union> set (used_handles s)"
    using assms by (cases conn) (simp_all add: source_result_def source_wrapper_def conn_release_def Let_def give_back_handles
        used_handles_def rep_native_def)
  show "set (idle_handles (source_result PQsocket ec conn h s)) =
       (if conn = None then set_option (rep_native h) else {}) \<union> set (idle_handles s)"
  proof (cases conn)
    case None
    then show ?thesis using assms by (simp add: source_result_def source_wrapper_def give_back_handles)
  next
    case (Some target)
    then show ?thesis by (simp add: source_result_def source_wrapper_def conn_release_def Let_def idle_handles_def)
  qed
  show "set (ps_finished (source_result PQsocket ec conn h s)) =
       set (ps_finished s) \<union> (if conn = None then {} else set_option (rep_native h))"
    using assms by (cases conn; cases "rep_native h") (simp_all add: source_result_def source_wrapper_def conn_release_def Let_def
        give_back_handles)
qed

lemma owner_cases:
  assumes "pool_inv PQsocket s"
  shows "h \<in> set (idle_handles s) \<Longrightarrow> owner s h = Idle" "h \<in> set (used_handles s) \<Longrightarrow> owner s h = Used"
    "h \<notin> set (ps_opened s) \<Longrightarrow> owner s h = Unopened"
  using pool_inv_disjoint [OF assms] by (auto simp: owner_def)

lemma opens_fresh_owner: "pool_inv PQsocket s \<Longrightarrow> opens_fresh s conn \<Longrightarrow> owned_by (owner s) Unopened (Option.bind conn c_handle)"
  using owner_cases(3) by (auto simp: opens_fresh_def owned_by_def split: option.splits)

text \<open>The owners after a step, from who has which handles.\<close>

lemma owner_eqI:
  assumes "\<And>h. h \<in> set (ps_finished s') \<Longrightarrow> own h = Freed" "\<And>h. h \<in> set (used_handles s') \<Longrightarrow> own h = Used"
    "\<And>h. h \<in> set (idle_handles s') \<Longrightarrow> own h = Idle"
    "\<And>h. h \<notin> set (ps_finished s') \<Longrightarrow> h \<notin> set (used_handles s') \<Longrightarrow> h \<notin> set (idle_handles s') \<Longrightarrow> own h = Unopened"
  shows "owner s' = own"
proof
  show "owner s' h = own h" for h using assms [of h] by (simp add: owner_def)
qed

lemma owner_take:
  assumes "pool_inv PQsocket s" "ps_idle s = xs @ rep # ys" "rep_handle rep = Some h" "pooled_native_handle c = Some h"
  shows "owner (s\<lparr>ps_idle := xs @ ys, ps_used := c # ps_used s\<rparr>) = (owner s)(h := Used)"
  using pool_inv_disjoint(1) [OF assms(1)] assms(2-4) by (intro owner_eqI) (auto simp: owner_def handle_defs)

lemma idle_handles_split:
  assumes "pool_inv PQsocket s" "ps_idle s = xs @ rep # ys"
  shows "set (idle_handles s) = set_option (rep_handle rep) \<union> set (idle_handles (s\<lparr>ps_idle := xs @ ys\<rparr>))"
    "set_option (rep_handle rep) \<inter> set (idle_handles (s\<lparr>ps_idle := xs @ ys\<rparr>)) = {}"
  using pool_inv_disjoint(1) [OF assms(1)] assms(2) by (cases "rep_handle rep"; auto simp: idle_handles_def)+

lemma used_handles_split:
  assumes "pool_inv PQsocket s" "ps_used s = xs @ c # ys"
  shows "set (used_handles s) = set_option (pooled_native_handle c) \<union> set (used_handles (s\<lparr>ps_used := xs @ ys\<rparr>))"
    "set_option (pooled_native_handle c) \<inter> set (used_handles (s\<lparr>ps_used := xs @ ys\<rparr>)) = {}"
  using pool_inv_disjoint(1) [OF assms(1)] assms(2) by (cases "pooled_native_handle c"; auto simp: used_handles_def)+

lemma pool_inv_sets:
  assumes "pool_inv PQsocket s"
  shows "set (idle_handles s) \<inter> set (used_handles s) = {}" "set (idle_handles s) \<inter> set (ps_finished s) = {}"
    "set (used_handles s) \<inter> set (ps_finished s) = {}"
  using pool_inv_disjoint(1) [OF assms] by auto

lemma owner_replace:
  assumes "pool_inv PQsocket s" "ps_idle s = xs @ rep # ys" "opens_fresh s conn" "conn \<noteq> None"
  shows "owner (source_result PQsocket ec conn (handle_of rep) (s\<lparr>ps_idle := xs @ ys\<rparr>)) =
     hand_over (Option.bind conn c_handle) Used (hand_over (rep_handle rep) Freed (owner s))"
    (is "owner ?s' = ?own")
proof -
  let ?s = "s\<lparr>ps_idle := xs @ ys\<rparr>" and ?new = "Option.bind conn c_handle" and ?old = "rep_handle rep"
  have fresh: "set_option ?new \<inter> (set (idle_handles s) \<union> set (used_handles s) \<union> set (ps_finished s)) = {}"
    using assms(3) pool_inv_disjoint(2) [OF assms(1)] by (auto simp: opens_fresh_def)
  have u: "used_handles ?s = used_handles s" "ps_finished ?s = ps_finished s" by (simp_all add: used_handles_def)
  have h: "set (used_handles ?s') = set_option ?new \<union> set (used_handles s)" "set (idle_handles ?s') = set (idle_handles ?s)"
    "set (ps_finished ?s') = set (ps_finished s) \<union> set_option ?old"
    using source_result_handles [OF fresh_handles(1), of PQsocket ec conn rep ?s] assms(4) u by simp_all
  have own: "?own k = (if k \<in> set_option ?new then Used else if k \<in> set_option ?old then Freed else owner s k)" for k
    by (cases ?new; cases ?old) (simp_all add: hand_over_def)
  show ?thesis
    using fresh idle_handles_split [OF assms(1,2)] pool_inv_sets [OF assms(1)]
    unfolding fun_eq_iff own owner_def [of ?s'] h by (auto simp: owner_def)
qed

lemma owner_same:
  "set (idle_handles s') = set (idle_handles s) \<Longrightarrow> set (used_handles s') = set (used_handles s) \<Longrightarrow>
     set (ps_finished s') = set (ps_finished s) \<Longrightarrow> owner s' = owner s"
  by (auto simp: owner_def)

lemma owner_create:
  assumes "pool_inv PQsocket s" "opens_fresh s conn"
  shows "owner (source_result PQsocket ec conn empty_handle s) = hand_over (Option.bind conn c_handle) Used (owner s)"
  using assms(2) pool_inv_disjoint [OF assms(1)] source_result_handles [OF fresh_handles(2), of PQsocket ec conn s]
  by (intro owner_eqI; cases "Option.bind conn c_handle") (auto simp: owner_def hand_over_def opens_fresh_def split: if_splits)

lemma owner_used:
  assumes "pool_inv PQsocket s" "ps_used s = xs @ c # ys" and s': "set (used_handles s') = set (used_handles (s\<lparr>ps_used := xs @ ys\<rparr>))"
    and "x = Freed \<and> set (ps_finished s') = set (ps_finished s) \<union> set_option (pooled_native_handle c) \<and>
           set (idle_handles s') = set (idle_handles s) \<or>
         x = Idle \<and> set (ps_finished s') = set (ps_finished s) \<and>
           set (idle_handles s') = set (idle_handles s) \<union> set_option (pooled_native_handle c)"
  shows "owner s' = hand_over (pooled_native_handle c) x (owner s)"
proof -
  have own: "hand_over (pooled_native_handle c) x (owner s) k = (if k \<in> set_option (pooled_native_handle c) then x else owner s k)" for k
    by (cases "pooled_native_handle c") (simp_all add: hand_over_def)
  show ?thesis
    using assms(4) used_handles_split [OF assms(1,2)] pool_inv_sets [OF assms(1)]
    unfolding fun_eq_iff own owner_def [of s'] s' by (elim disjE) (auto simp: owner_def)
qed

lemma owner_expire:
  assumes "pool_inv PQsocket s" "ps_idle s = xs @ rep # ys"
  shows "owner (s\<lparr>ps_idle := xs @ ys, ps_finished := ps_finished s @ opt_list (rep_handle rep)\<rparr>) =
     hand_over (rep_handle rep) Freed (owner s)"
  using pool_inv_disjoint(1) [OF assms(1)] assms(2)
  by (intro owner_eqI; cases "rep_handle rep") (auto simp: owner_def hand_over_def handle_defs)

lemma destroyed_handles:
  assumes "\<not> ph_waste (pc_rep c)" and s': "s' = give_back (destroy_pooled (view_ok view) (v_transaction view) c) s"
  shows "if usable view (pooled_native_handle c)
     then ps_finished s' = ps_finished s \<and> set (idle_handles s') = set (idle_handles s) \<union> set_option (pooled_native_handle c)
     else set (ps_finished s') = set (ps_finished s) \<union> set_option (pooled_native_handle c) \<and> idle_handles s' = idle_handles s"
proof (cases "ph_value (pc_rep c)")
  case None
  then show ?thesis using assms(1)
    by (simp add: s' give_back_def destroy_pooled_def native_eq rep_native_def usable_def)
next
  case (Some rep)
  then show ?thesis
    unfolding s' give_back_destroyed [OF Some assms(1)]
    by (cases "rep_handle rep") (auto simp: native_eq rep_native_def usable_def view_ok_def handle_defs)
qed

lemma pool_event_owner:
  assumes "pool_event PQsocket view a s s'" "pool_inv PQsocket s"
  shows "owner_event view a (owner s) (owner s')"
  using assms(1)
proof cases
  case (take_idle xs rep ys ec c)
  then obtain h where h: "rep_handle rep = Some h" "\<not> view_bad view h" "pooled_native_handle c = Some h" by (auto simp: wrapper_handler)
  have "owner s h = Idle" using idle_handles_split(1) [OF assms(2) take_idle(3)] h(1) by (intro owner_cases(1) [OF assms(2)]) simp
  with owner_take [OF assms(2) take_idle(3) h(1,3)] h(2) take_idle(1,2) show ?thesis
    by (auto simp: view_bad_def intro: owner_event.taken)
next
  case (replace_bad xs rep ys k conn ec)
  have k: "k = handle_of rep" using wrapper_ask [OF replace_bad(4)] .
  have old: "owned_by (owner s) Idle (rep_handle rep)"
    using idle_handles_split(1) [OF assms(2) replace_bad(3)] owner_cases(1) [OF assms(2)] by (auto simp: owned_by_def)
  have bad: "v_status view h = CONNECTION_BAD" if "rep_handle rep = Some h" for h
    using replace_bad(4) that by (auto simp: wrapper_no_error view_bad_def split: if_splits)
  show ?thesis
  proof (cases "conn = None")
    case True
    have "owner s' = owner s"
      using source_result_handles [OF fresh_handles(1), of PQsocket ec conn rep "s\<lparr>ps_idle := xs @ ys\<rparr>"] True k replace_bad(2)
        idle_handles_split(1) [OF assms(2) replace_bad(3)]
      by (intro owner_same) (simp_all add: used_handles_def)
    then show ?thesis using replace_bad(1) by (simp add: owner_event.not_replaced)
  next
    case False
    show ?thesis
      unfolding replace_bad(1,2) k owner_replace [OF assms(2) replace_bad(3,5) False]
      by (rule owner_event.replaced [OF old bad opens_fresh_owner [OF assms(2) replace_bad(5)]])
  qed
next
  case (create k conn ec)
  have "k = empty_handle" using wrapper_ask [OF create(3)] .
  with owner_create [OF assms(2) create(4)] opens_fresh_owner [OF assms(2) create(4)] create(1,2) show ?thesis
    by (simp add: owner_event.created)
next
  case (close xs c ys ec c' freed)
  note c = pooled_close_handles [OF close(4)]
  have "owned_by (owner s) Used (pooled_native_handle c)"
    using used_handles_split(1) [OF assms(2) close(3)] owner_cases(2) [OF assms(2)] by (auto simp: owned_by_def)
  moreover have "owner s' = hand_over (pooled_native_handle c) Freed (owner s)"
    using c close(2,3) by (intro owner_used [OF assms(2) close(3)]) (auto simp: handle_defs)
  ultimately show ?thesis using close(1) by (simp add: owner_event.closed)
next
  case (drop xs c ys)
  have "owned_by (owner s) Used (pooled_native_handle c)"
    using used_handles_split(1) [OF assms(2) drop(3)] owner_cases(2) [OF assms(2)] by (auto simp: owned_by_def)
  moreover have w: "\<not> ph_waste (pc_rep c)" using assms(2) drop(3) by (simp add: pool_inv_def)
  have i: "idle_handles (s\<lparr>ps_used := xs @ ys\<rparr>) = idle_handles s" by (simp add: idle_handles_def)
  have "owner s' = hand_over (pooled_native_handle c) (if usable view (pooled_native_handle c) then Idle else Freed) (owner s)"
    using destroyed_handles [OF w, of s' view "s\<lparr>ps_used := xs @ ys\<rparr>"] drop(2)
      give_back_handles(3) [of "destroy_pooled (view_ok view) (v_transaction view) c" "s\<lparr>ps_used := xs @ ys\<rparr>"]
    by (intro owner_used [OF assms(2) drop(3)]) (auto simp: i split: if_splits)
  ultimately show ?thesis using drop(1) by (simp add: owner_event.dropped)
next
  case (expire xs rep ys)
  have "owned_by (owner s) Idle (rep_handle rep)"
    using idle_handles_split(1) [OF assms(2) expire(3)] owner_cases(1) [OF assms(2)] by (auto simp: owned_by_def)
  with owner_expire [OF assms(2) expire(3)] expire(1,2) show ?thesis by (simp add: owner_event.expired)
qed

text \<open>C22: the pool implements the life cycle of its libpq handles. In every step exactly the handle that the step is about changes its
  owner: a resource of the pool goes to a user if libpq does not report it as bad; if it does, the resource's handle is freed and
  a new one that the source opened goes to the user, or nothing changes if the source has no connection; a handle that a user closes is
  freed; one that a user drops goes back to the pool if libpq reports it as ok and outside of a transaction, and is freed otherwise;
  and the timeouts of the pool free one that is idle. A freed handle is never seen again.\<close>

theorem pool_refines_owners:
  assumes "(pool_step PQsocket)\<^sup>*\<^sup>* new_pool s" and "pool_event PQsocket view a s s'"
  shows "owner new_pool = (\<lambda>_. Unopened) \<and> owner_event view a (owner s) (owner s') \<and>
    (\<forall>h. owner s h = Freed \<longrightarrow> owner s' h = Freed)"
proof -
  have "owner_event view a (owner s) (owner s')" using pool_event_owner [OF assms(2) pool_inv_reach [OF assms(1)]] .
  moreover from this have "\<forall>h. owner s h = Freed \<longrightarrow> owner s' h = Freed"
    by cases (auto simp: owned_by_def hand_over_def split: option.splits)
  moreover have "owner new_pool = (\<lambda>_. Unopened)" by (auto simp: owner_def new_pool_def idle_handles_def used_handles_def)
  ultimately show ?thesis by blast
qed

theorem pool_refines_owners_witness:
  "owner_event sample_view Create (owner new_pool) (owner sample_pool) \<and> owner sample_pool 7 = Used"
proof -
  have "owner sample_pool 7 = Used"
    by (simp add: sample_pool_def source_result_def source_wrapper_def conn_release_def empty_handle_def new_connection_def
        used_handles_def rep_native_def new_pool_def owner_def)
  with pool_refines_owners [OF rtranclp.rtrancl_refl sample_pool_created] show ?thesis by metis
qed

end
