(* ===== verification/Bozo_Timestamp.thy ===== *)
theory Bozo_Timestamp
  imports Bozo_Wire
begin

text \<open>
  \<open>ext/std/time_point.h\<close>: \<open>send_impl\<close> and \<open>recv_impl\<close> of \<open>std::chrono::system_clock::time_point\<close>, a \<open>timestamp\<close>. The clock has \<open>ticks\<close>
  ticks in a microsecond, which is for the platform to choose; signed overflow is \<open>None\<close> when sending and
  \<open>Undefined_behaviour\<close> when receiving.
\<close>

text \<open>A time point that is a 64-bit number of ticks from both epochs arrives, between hosts of any byte order, as the time point cut
  to whole microseconds towards the epoch of PostgreSQL: less than a microsecond is lost, nothing when it is a whole number of
  microseconds, and neither host overflows.\<close>

theorem time_point_wire_roundtrip:
  assumes "0 < ticks" "int64_min \<le> tp" "tp \<le> int64_max"
    and "int64_min \<le> tp - epoch_us * ticks" "epoch_us * ticks \<le> int64_max"
  shows "\<exists>bs tp'. send_time_point ticks native [] tp = Some bs \<and> length bs = 8 \<and>
     recv_time_point ticks native' (make_istream (bs @ rest)) = Inr (tp', make_istream rest) \<and>
     \<bar>tp - tp'\<bar> < ticks \<and> (ticks dvd tp \<longrightarrow> tp' = tp) \<and>
     min tp (epoch_us * ticks) \<le> tp' \<and> tp' \<le> max tp (epoch_us * ticks)"
proof -
  let ?q = "(tp - epoch_us * ticks) sdiv ticks"
  have ok: "clock_ok ticks" "time_point_ok ticks tp" using assms by (simp_all add: clock_ok_def time_point_ok_def)
  note send = send_time_point_defined [OF ok, of native "[]"] and recv = recv_time_point_make [OF ok, of native' native rest]
    and between = time_point_between [OF ok(1), of tp]
  have "min tp (epoch_us * ticks) \<le> epoch_us * ticks + ?q * ticks" "epoch_us * ticks + ?q * ticks \<le> max tp (epoch_us * ticks)"
    "\<bar>tp - (epoch_us * ticks + ?q * ticks)\<bar> < ticks"
    using between sdiv_mult_bounds(1) [OF assms(1), of "tp - epoch_us * ticks"]
    by (auto simp: min_def max_def algebra_simps split: if_splits)
  moreover have "length (ostream_write_int native [] (word_of_int ?q :: 64 word)) = 8" by (simp add: ostream_write_int_be)
  ultimately show ?thesis using send recv time_point_exact [OF ok(1), of tp] by blast
qed

theorem time_point_wire_roundtrip_witness:
  "\<exists>bs tp'. send_time_point 1000 little [] 1577836800123456789 = Some bs \<and>
     recv_time_point 1000 big (make_istream (bs @ [7])) = Inr (tp', make_istream [7]) \<and> \<bar>1577836800123456789 - tp'\<bar> < 1000"
  using time_point_wire_roundtrip [of 1000 1577836800123456789 little big "[7]"]
  by (auto simp: int64_defs epoch_us_def)

end
