(* ===== verification/Bozo_Timed_Operation.thy ===== *)
theory Bozo_Timed_Operation
  imports Bozo_Deadline
begin

text \<open>
  The composition of an asynchronous operation with the \<open>io_deadline_handler\<close> of \<open>detail/deadline.h\<close>, which both \<open>impl/async_request.h\<close> and
  \<open>impl/async_connect.h\<close> make when there is a time constraint: the handler of the operation is the deadline handler, and the timer runs
  beside the waits of the operation. The locale \<open>called_once\<close> states what the composition relies on; requests and connects are
  its interpretations.
\<close>

section \<open>Composition\<close>

record ('o, 'r) timed_operation =
  td_op :: 'o
  td_deadline :: "'r deadline_context"

text \<open>The calls that a part of the operation made of its handler.\<close>

definition forward_calls :: "('o \<Rightarrow> error_code list) \<Rightarrow> ('o \<Rightarrow> 'r) \<Rightarrow> 'o \<Rightarrow> 'o \<Rightarrow> 'r deadline_context \<Rightarrow> 'r deadline_context" where
  "forward_calls calls result before after d =
     fold (\<lambda>ec. on_operation ec (result after)) (drop (length (calls before)) (calls after)) d"

text \<open>The operation is started with the deadline handler in place: \<open>before\<close> is its state before it did anything.\<close>

definition start_timed :: "('o \<Rightarrow> error_code list) \<Rightarrow> ('o \<Rightarrow> 'r) \<Rightarrow> 'r \<Rightarrow> 'o \<Rightarrow> 'o \<Rightarrow> ('o, 'r) timed_operation" where
  "start_timed calls result dflt before after =
     \<lparr>td_op = after, td_deadline = forward_calls calls result before after (io_deadline_handler dflt)\<rparr>"

inductive timed_step ::
  "sys_errors \<Rightarrow> ('o \<Rightarrow> 'o \<Rightarrow> bool) \<Rightarrow> ('o \<Rightarrow> error_code list) \<Rightarrow> ('o \<Rightarrow> 'r) \<Rightarrow>
   ('o, 'r) timed_operation \<Rightarrow> ('o, 'r) timed_operation \<Rightarrow> bool"
  for sys step calls result where
  operation: "step (td_op st) op' \<Longrightarrow>
     timed_step sys step calls result st
       \<lparr>td_op = op', td_deadline = forward_calls calls result (td_op st) op' (td_deadline st)\<rparr>"
| timer: "timer_pending (td_deadline st) \<Longrightarrow>
     timed_step sys step calls result st (st\<lparr>td_deadline := on_timer sys (td_deadline st)\<rparr>)"

text \<open>The runs in which the operation takes steps from allowed states only.\<close>

inductive timed_reach ::
  "sys_errors \<Rightarrow> ('o \<Rightarrow> 'o \<Rightarrow> bool) \<Rightarrow> ('o \<Rightarrow> error_code list) \<Rightarrow> ('o \<Rightarrow> 'r) \<Rightarrow> ('o \<Rightarrow> bool) \<Rightarrow>
   ('o, 'r) timed_operation \<Rightarrow> ('o, 'r) timed_operation \<Rightarrow> bool"
  for sys step calls result allowed st0 where
  start: "timed_reach sys step calls result allowed st0 st0"
| step: "timed_reach sys step calls result allowed st0 st \<Longrightarrow> allowed (td_op st) \<Longrightarrow>
     timed_step sys step calls result st st' \<Longrightarrow> timed_reach sys step calls result allowed st0 st'"

section \<open>What the deadline handler relies on\<close>

lemma on_operation_not_pending [simp]: "\<not> op_pending (on_operation ec res d)"
  by (simp add: on_operation_def Let_def)

lemma on_timer_op_pending [simp]: "op_pending (on_timer sys d) = op_pending d"
  by (simp add: on_timer_def Let_def)

text \<open>An operation that keeps an invariant under which it has called its handler at most once, and never takes a call back.\<close>

locale called_once =
  fixes step :: "'o \<Rightarrow> 'o \<Rightarrow> bool" and calls :: "'o \<Rightarrow> error_code list" and result :: "'o \<Rightarrow> 'r"
    and allowed :: "'o \<Rightarrow> bool" and inv :: "'o \<Rightarrow> bool"
  assumes inv_step: "inv op \<Longrightarrow> allowed op \<Longrightarrow> step op op' \<Longrightarrow> inv op'"
    and inv_calls: "inv op \<Longrightarrow> length (calls op) \<le> 1"
    and calls_grow: "inv op \<Longrightarrow> allowed op \<Longrightarrow> step op op' \<Longrightarrow> \<exists>ecs. calls op' = calls op @ ecs"
begin

text \<open>The deadline handler has seen exactly the call the operation made.\<close>

definition timed_inv :: "sys_errors \<Rightarrow> ('o, 'r) timed_operation \<Rightarrow> bool" where
  "timed_inv sys st \<longleftrightarrow> inv (td_op st) \<and>
     (case calls (td_op st) of
        [] \<Rightarrow> op_pending (td_deadline st) \<and> (\<forall>ec res. deadline_inv sys ec res (td_deadline st))
      | ec # _ \<Rightarrow> \<not> op_pending (td_deadline st) \<and> (\<exists>res. deadline_inv sys ec res (td_deadline st)))"

lemma timed_inv_forward:
  assumes d: "op_pending d" "\<And>ec res. deadline_inv sys ec res d"
    and "calls before = []" "inv after"
  shows "timed_inv sys \<lparr>td_op = after, td_deadline = forward_calls calls result before after d\<rparr>"
proof (cases "calls after")
  case Nil
  then show ?thesis using assms by (simp add: timed_inv_def forward_calls_def)
next
  case (Cons ec ecs)
  then have "calls after = [ec]" using inv_calls [OF assms(4)] by simp
  moreover have "deadline_inv sys ec (result after) (on_operation ec (result after) d)"
    using d by (blast intro: deadline_inv_step deadline_step.operation)
  ultimately show ?thesis using assms by (auto simp: timed_inv_def forward_calls_def)
qed

lemma timed_inv_start:
  "calls before = [] \<Longrightarrow> inv after \<Longrightarrow> timed_inv sys (start_timed calls result dflt before after)"
  unfolding start_timed_def
  by (rule timed_inv_forward) (simp_all add: deadline_inv_start, simp add: io_deadline_handler_def)

lemma timed_inv_step:
  assumes "timed_inv sys st" "allowed (td_op st)" "timed_step sys step calls result st st'"
  shows "timed_inv sys st'"
  using assms(3)
proof cases
  case (operation op')
  have inv: "inv (td_op st)" using assms(1) by (simp add: timed_inv_def)
  have inv': "inv op'" by (rule inv_step [OF inv assms(2) operation(2)])
  show ?thesis
  proof (cases "calls (td_op st)")
    case Nil
    then show ?thesis unfolding operation(1)
      using assms(1) by (intro timed_inv_forward inv') (auto simp: timed_inv_def)
  next
    case (Cons ec ecs)
    then have "calls op' = calls (td_op st)"
      using calls_grow [OF inv assms(2) operation(2)] inv_calls [OF inv'] by auto
    then show ?thesis unfolding operation(1)
      using assms(1) Cons inv' by (simp add: timed_inv_def forward_calls_def)
  qed
next
  case timer
  have "deadline_inv sys ec res (td_deadline st) \<Longrightarrow> deadline_inv sys ec res (on_timer sys (td_deadline st))" for ec res
    using timer by (blast intro: deadline_inv_step deadline_step.timer)
  then show ?thesis unfolding timer(1)
    using assms(1) by (auto simp: timed_inv_def split: list.splits)
qed

lemma timed_reach_inv:
  assumes "timed_reach sys step calls result allowed (start_timed calls result dflt before after) st"
    and "calls before = []" "inv after"
  shows "timed_inv sys st"
  using assms(1)
  by (induction rule: timed_reach.induct) (auto intro: timed_inv_start timed_inv_step assms(2,3))

text \<open>The user's handler is called once, when the operation and the timer are both done.\<close>

lemma timed_handler_once:
  assumes "timed_inv sys st"
  shows "(deadline_calls (td_deadline st) = [] \<longleftrightarrow> calls (td_op st) = [] \<or> timer_pending (td_deadline st)) \<and>
     (deadline_calls (td_deadline st) \<noteq> [] \<longrightarrow>
        (\<exists>ec res. calls (td_op st) = [ec] \<and>
           deadline_calls (td_deadline st) =
             [(if stream_cancelled (td_deadline st) then asio_code sys timed_out else ec, res)]))"
proof (cases "calls (td_op st)")
  case Nil
  then show ?thesis using assms by (auto simp: timed_inv_def deadline_inv_def split: if_splits)
next
  case (Cons ec ecs)
  then have "ecs = []" using assms inv_calls [of "td_op st"] by (simp add: timed_inv_def)
  moreover obtain res where "\<not> op_pending (td_deadline st)" "deadline_inv sys ec res (td_deadline st)"
    using assms Cons by (auto simp: timed_inv_def)
  ultimately show ?thesis using Cons by (auto simp: deadline_inv_def split: if_splits)
qed

text \<open>Until then the composition can go on whenever the operation can.\<close>

lemma timed_goes_on:
  assumes "timed_inv sys st" "deadline_calls (td_deadline st) = []"
    and "inv (td_op st) \<Longrightarrow> calls (td_op st) = [] \<Longrightarrow> \<exists>op'. step (td_op st) op'"
  shows "\<exists>st'. timed_step sys step calls result st st'"
proof (cases "timer_pending (td_deadline st)")
  case True
  then show ?thesis by (blast intro: timed_step.timer)
next
  case False
  then have "calls (td_op st) = []" using timed_handler_once [OF assms(1)] assms(2) by blast
  moreover have "inv (td_op st)" using assms(1) by (simp add: timed_inv_def)
  ultimately show ?thesis using assms(3) by (blast intro: timed_step.operation)
qed

end

text \<open>An operation that can always go on until it has called its handler, whatever its environment does.\<close>

locale called_once_live = called_once step calls result allowed inv
  for step :: "'o \<Rightarrow> 'o \<Rightarrow> bool" and calls :: "'o \<Rightarrow> error_code list" and result :: "'o \<Rightarrow> 'r"
    and allowed :: "'o \<Rightarrow> bool" and inv :: "'o \<Rightarrow> bool" +
  assumes not_stuck: "inv op \<Longrightarrow> calls op = [] \<Longrightarrow> \<exists>op'. step op op'"
begin

lemma timed_not_stuck:
  assumes "timed_inv sys st" "deadline_calls (td_deadline st) = []"
  shows "\<exists>st'. timed_step sys step calls result st st'"
  using timed_goes_on [OF assms] not_stuck by blast

end

text \<open>An operation whose result no longer changes once it has called its handler: the deadline handler then has exactly this result.\<close>

locale called_once_settled = called_once_live step calls result allowed inv
  for step :: "'o \<Rightarrow> 'o \<Rightarrow> bool" and calls :: "'o \<Rightarrow> error_code list" and result :: "'o \<Rightarrow> 'r"
    and allowed :: "'o \<Rightarrow> bool" and inv :: "'o \<Rightarrow> bool" +
  assumes settled: "inv op \<Longrightarrow> allowed op \<Longrightarrow> step op op' \<Longrightarrow> calls op \<noteq> [] \<Longrightarrow> result op' = result op"
begin

definition settled_inv :: "sys_errors \<Rightarrow> ('o, 'r) timed_operation \<Rightarrow> bool" where
  "settled_inv sys st \<longleftrightarrow> timed_inv sys st \<and>
     (\<forall>ec ecs. calls (td_op st) = ec # ecs \<longrightarrow> deadline_inv sys ec (result (td_op st)) (td_deadline st))"

lemma settled_inv_forward:
  assumes d: "op_pending d" "\<And>ec res. deadline_inv sys ec res d"
    and "calls before = []" "inv after"
  shows "settled_inv sys \<lparr>td_op = after, td_deadline = forward_calls calls result before after d\<rparr>"
proof -
  have "deadline_inv sys ec (result after) (on_operation ec (result after) d)" for ec
    using d by (blast intro: deadline_inv_step deadline_step.operation)
  then show ?thesis
    using timed_inv_forward [OF assms] inv_calls [OF assms(4)] assms(3) by (auto simp: settled_inv_def forward_calls_def)
qed

lemma settled_inv_start:
  "calls before = [] \<Longrightarrow> inv after \<Longrightarrow> settled_inv sys (start_timed calls result dflt before after)"
  unfolding start_timed_def
  by (rule settled_inv_forward) (simp_all add: deadline_inv_start, simp add: io_deadline_handler_def)

lemma settled_inv_step:
  assumes "settled_inv sys st" "allowed (td_op st)" "timed_step sys step calls result st st'"
  shows "settled_inv sys st'"
  using assms(3)
proof cases
  case (operation op')
  have t: "timed_inv sys st" and inv: "inv (td_op st)" using assms(1) by (simp_all add: settled_inv_def timed_inv_def)
  have inv': "inv op'" by (rule inv_step [OF inv assms(2) operation(2)])
  show ?thesis
  proof (cases "calls (td_op st)")
    case Nil
    then show ?thesis unfolding operation(1)
      using t by (intro settled_inv_forward inv') (auto simp: timed_inv_def)
  next
    case (Cons ec ecs)
    then have "calls op' = calls (td_op st)"
      using calls_grow [OF inv assms(2) operation(2)] inv_calls [OF inv'] by auto
    then show ?thesis
      using assms(1) Cons settled [OF inv assms(2) operation(2)] timed_inv_step [OF t assms(2,3)]
      unfolding operation(1) by (simp add: settled_inv_def forward_calls_def)
  qed
next
  case timer
  have "deadline_inv sys ec res (td_deadline st) \<Longrightarrow> deadline_inv sys ec res (on_timer sys (td_deadline st))" for ec res
    using timer by (blast intro: deadline_inv_step deadline_step.timer)
  then show ?thesis
    using assms(1) timed_inv_step [OF _ assms(2,3)] unfolding timer(1) by (simp add: settled_inv_def)
qed

lemma settled_reach_inv:
  assumes "timed_reach sys step calls result allowed (start_timed calls result dflt before after) st"
    and "calls before = []" "inv after"
  shows "settled_inv sys st"
  using assms(1)
  by (induction rule: timed_reach.induct) (auto intro: settled_inv_start settled_inv_step assms(2,3))

text \<open>The user's handler gets the result the operation called its handler with.\<close>

lemma settled_handler_once:
  assumes "settled_inv sys st" "deadline_calls (td_deadline st) \<noteq> []"
  shows "\<exists>ec. calls (td_op st) = [ec] \<and>
     deadline_calls (td_deadline st) =
       [(if stream_cancelled (td_deadline st) then asio_code sys timed_out else ec, result (td_op st))]"
proof -
  have t: "timed_inv sys st" using assms(1) by (simp add: settled_inv_def)
  with timed_handler_once [OF t] assms(2) obtain ec where ec: "calls (td_op st) = [ec]" "\<not> timer_pending (td_deadline st)" by auto
  then have "\<not> op_pending (td_deadline st)" "deadline_inv sys ec (result (td_op st)) (td_deadline st)"
    using t assms(1) by (auto simp: settled_inv_def timed_inv_def)
  with ec show ?thesis by (simp add: deadline_inv_def)
qed

end

end
