(* ===== verification/Bozo_Timed_Request.thy ===== *)
theory Bozo_Timed_Request
  imports Bozo_Request Bozo_Timed_Operation
begin

text \<open>
  \<open>async_request\<close> and \<open>async_request_op\<close> of \<open>impl/async_request.h\<close> with a time constraint, \<open>async_execute\<close> of \<open>impl/async_execute.h\<close>: the
  request of \<open>Bozo_Request\<close> under a deadline. The waits of the socket and the timer complete in any order; a cancelled wait is one that
  completes with an error.
\<close>

section \<open>Composition\<close>

type_synonym 's timed_request = "('s request_context, 's) timed_operation"

definition timed_request_op ::
  "sys_errors \<Rightarrow> 's libpq \<Rightarrow> (pg_result \<Rightarrow> string option) \<Rightarrow> 's \<Rightarrow> string \<Rightarrow> 's timed_request option" where
  "timed_request_op sys pq process s ectx =
     map_option (start_timed handler_calls pq_state s (make_request_operation_context s ectx))
       (async_request_op sys pq process no_error s ectx)"

text \<open>\<open>async_request\<close>: the provider gets the deadline too; its error is passed to the user's handler past the deadline handler, and
  without a time constraint there is no deadline handler. The clock is read once for each of the two deadlines.\<close>

datatype 's request_run =
    No_connection error_code
  | Untimed "'s request_context"
  | Timed int "'s timed_request"

definition async_request ::
  "sys_errors \<Rightarrow> 's libpq \<Rightarrow> (pg_result \<Rightarrow> string option) \<Rightarrow> (time_constraint \<Rightarrow> error_code \<times> 's) \<Rightarrow> string \<Rightarrow>
   time_constraint \<Rightarrow> int \<Rightarrow> int \<Rightarrow> 's request_run option" where
  "async_request sys pq process provider ectx t now now' =
     Option.bind (deadline_of t now) (\<lambda>dl.
     Option.bind (deadline_of t now') (\<lambda>dl'.
       let (ec, s) = provider dl
       in if is_error ec then Some (No_connection ec)
          else case dl' of
                 Until tp \<Rightarrow> map_option (Timed tp) (timed_request_op sys pq process s ectx)
               | _ \<Rightarrow> map_option Untimed (async_request_op sys pq process no_error s ectx)))"

text \<open>\<open>async_execute\<close>: the same with \<open>none\<close> as the output; the result is dropped.\<close>

definition async_execute ::
  "sys_errors \<Rightarrow> 's libpq \<Rightarrow> (time_constraint \<Rightarrow> error_code \<times> 's) \<Rightarrow> string \<Rightarrow> time_constraint \<Rightarrow> int \<Rightarrow> int \<Rightarrow> 's request_run option" where
  "async_execute sys pq provider ectx t now now' = async_request sys pq (\<lambda>_. None) provider ectx t now now'"

abbreviation timed_request_step ::
  "sys_errors \<Rightarrow> 's libpq \<Rightarrow> (pg_result \<Rightarrow> string option) \<Rightarrow> 's timed_request \<Rightarrow> 's timed_request \<Rightarrow> bool" where
  "timed_request_step sys pq process \<equiv> timed_step sys (request_step sys pq process) handler_calls pq_state"

abbreviation timed_request_reach ::
  "sys_errors \<Rightarrow> 's libpq \<Rightarrow> (pg_result \<Rightarrow> string option) \<Rightarrow> 's timed_request \<Rightarrow> 's timed_request \<Rightarrow> bool" where
  "timed_request_reach sys pq process \<equiv>
     timed_reach sys (request_step sys pq process) handler_calls pq_state (\<lambda>ctx. \<not> delivered_unsent ctx)"

section \<open>A request calls its handler once\<close>

lemma request_step_calls_grow:
  assumes "request_inv ctx" "request_step sys pq process ctx ctx'"
  shows "\<exists>ecs. handler_calls ctx' = handler_calls ctx @ ecs"
  using assms(2)
proof cases
  case (write_ready ec)
  then show ?thesis using send_op_calls [of pq ec ctx] by (auto split: if_splits)
next
  case (read_ready ec)
  show ?thesis
  proof (cases "q_state ctx = qs_error")
    case True
    then show ?thesis using read_ready by (auto simp: get_result_op_def)
  next
    case False
    then show ?thesis
      using get_result_op_calls [OF False _ read_ready(2)] assms(1) read_ready(1)
      by (auto simp: waits_or_calls_def request_inv_def split: if_splits)
  qed
qed

interpretation request: called_once "request_step sys pq process" handler_calls pq_state "\<lambda>ctx. \<not> delivered_unsent ctx" request_inv
  for sys pq process
proof
  fix ctx ctx' :: "'a request_context"
  show "request_inv ctx \<Longrightarrow> \<not> delivered_unsent ctx \<Longrightarrow> request_step sys pq process ctx ctx' \<Longrightarrow> request_inv ctx'"
    by (rule request_inv_step)
  show "request_inv ctx \<Longrightarrow> length (handler_calls ctx) \<le> 1"
    by (auto simp: request_inv_def split: if_splits)
  show "request_inv ctx \<Longrightarrow> request_step sys pq process ctx ctx' \<Longrightarrow> \<exists>ecs. handler_calls ctx' = handler_calls ctx @ ecs"
    by (rule request_step_calls_grow)
qed

lemma timed_request_inv:
  assumes "timed_request_op sys pq process s ectx = Some st0" "timed_request_reach sys pq process st0 st"
  shows "request.timed_inv sys st"
proof -
  obtain ctx where ctx: "async_request_op sys pq process no_error s ectx = Some ctx"
    "st0 = start_timed handler_calls pq_state s (make_request_operation_context s ectx) ctx"
    using assms(1) by (auto simp: timed_request_op_def)
  show ?thesis
    using assms(2) unfolding ctx(2)
    by (rule request.timed_reach_inv) (simp add: make_request_operation_context_def, rule request_inv_start [OF ctx(1)])
qed

section \<open>Correctness\<close>

text \<open>A request whose timer fires while it waits for the answer.\<close>

definition sample_timed :: "nat timed_request" where
  "sample_timed = \<lparr>td_op = waiting_ctx 0, td_deadline = io_deadline_handler 0\<rparr>"

definition sample_timed_out :: "nat timed_request" where
  "sample_timed_out =
     \<lparr>td_op = delivered_ctx 0,
      td_deadline = forward_calls handler_calls pq_state (waiting_ctx 0) (delivered_ctx 0) (on_timer sample_sys (io_deadline_handler 0))\<rparr>"

lemma sample_timed_start: "timed_request_op sample_sys (sample_pq 0) (\<lambda>_. None) 0 [] = Some sample_timed"
proof -
  have "forward_calls handler_calls pq_state (make_request_operation_context 0 []) (waiting_ctx 0) d = d" for d
    by (simp add: forward_calls_def waiting_ctx_def make_request_operation_context_def)
  then show ?thesis by (simp add: timed_request_op_def sample_start sample_timed_def start_timed_def)
qed

lemma sample_timed_out_reach: "timed_request_reach sample_sys (sample_pq 0) (\<lambda>_. None) sample_timed sample_timed_out"
proof -
  let ?st = "sample_timed\<lparr>td_deadline := on_timer sample_sys (td_deadline sample_timed)\<rparr>"
  have sent: "\<not> delivered_unsent (waiting_ctx 0)" by (simp add: delivered_unsent_def waiting_ctx_def)
  have "timed_request_step sample_sys (sample_pq 0) (\<lambda>_. None) sample_timed ?st"
    by (rule timed_step.timer) (simp add: sample_timed_def io_deadline_handler_def)
  with sent have "timed_request_reach sample_sys (sample_pq 0) (\<lambda>_. None) sample_timed ?st"
    by (auto intro: timed_reach.intros simp: sample_timed_def)
  moreover have "request_step sample_sys (sample_pq 0) (\<lambda>_. None) (td_op ?st) (delivered_ctx 0)"
    by (rule request_step.read_ready [where ec = no_error])
      (simp_all add: sample_timed_def sample_delivered, simp add: waiting_ctx_def)
  moreover have "\<not> delivered_unsent (td_op ?st)" using sent by (simp add: sample_timed_def)
  ultimately have "timed_request_reach sample_sys (sample_pq 0) (\<lambda>_. None) sample_timed
      \<lparr>td_op = delivered_ctx 0, td_deadline = forward_calls handler_calls pq_state (td_op ?st) (delivered_ctx 0) (td_deadline ?st)\<rparr>"
    by (intro timed_reach.step [OF _ _ timed_step.operation])
  then show ?thesis by (simp add: sample_timed_def sample_timed_out_def)
qed

text \<open>C13: a request with a deadline calls the user's handler at most once, whatever libpq answers and in whatever order the socket
  and the timer report: it is called exactly when both the request and the timer are done, with \<open>timed_out\<close> if
  the timer came first, for which the waits of the request were cancelled, and otherwise with the error code of the request.
  The runs are those of the request alone (the result is not delivered while the query is still being written).\<close>

theorem timed_request_handler_once:
  assumes "timed_request_op sys pq process s ectx = Some st0" "timed_request_reach sys pq process st0 st"
  shows "(deadline_calls (td_deadline st) = [] \<longleftrightarrow> handler_calls (td_op st) = [] \<or> timer_pending (td_deadline st)) \<and>
     (deadline_calls (td_deadline st) \<noteq> [] \<longrightarrow>
        (\<exists>ec conn. handler_calls (td_op st) = [ec] \<and>
           deadline_calls (td_deadline st) =
             [(if stream_cancelled (td_deadline st) then asio_code sys timed_out else ec, conn)]))"
  by (rule request.timed_handler_once [OF timed_request_inv [OF assms]])

theorem timed_request_handler_once_witness:
  "\<exists>conn. deadline_calls (td_deadline sample_timed_out) = [(asio_code sample_sys timed_out, conn)]"
proof -
  have "stream_cancelled (td_deadline sample_timed_out)" "\<not> timer_pending (td_deadline sample_timed_out)"
    "handler_calls (td_op sample_timed_out) \<noteq> []"
    by (simp_all add: sample_timed_out_def forward_calls_def waiting_ctx_def delivered_ctx_def on_operation_def on_timer_def
        io_deadline_handler_def)
  with timed_request_handler_once [OF sample_timed_start sample_timed_out_reach] show ?thesis by auto
qed

text \<open>C14: a request with a deadline is never stuck: as long as the user's handler has not been called, the timer is
  running or the request waits for its socket, and the completion it waits for leads on, provided libpq has finitely many results for
  the query.\<close>

theorem timed_request_not_stuck:
  assumes "timed_request_op sys pq process s ectx = Some st0" "timed_request_reach sys pq process st0 st"
    and "deadline_calls (td_deadline st) = []"
    and "\<And>s r s'. PQgetResult pq s = (Some r, s') \<Longrightarrow> remaining s' < (remaining s :: nat)"
  shows "\<exists>st'. timed_request_step sys pq process st st'"
proof (rule request.timed_goes_on [OF timed_request_inv [OF assms(1,2)] assms(3)])
  assume "request_inv (td_op st)" "handler_calls (td_op st) = []"
  then have "wait_read (td_op st)" by (auto simp: request_inv_def split: if_splits)
  moreover have "\<exists>ctx'. get_result_op sys pq process no_error (td_op st) = Some ctx'"
    by (rule get_result_op_ends [OF results_endI]) (rule assms(4))
  ultimately show "\<exists>ctx'. request_step sys pq process (td_op st) ctx'" by (blast intro: request_step.read_ready)
qed

theorem timed_request_not_stuck_witness:
  "\<exists>st'. timed_request_step sample_sys (sample_pq 0) (\<lambda>_. None) sample_timed st'"
proof (rule timed_request_not_stuck [OF sample_timed_start timed_reach.start, where remaining = "\<lambda>s. if s = 1 then 1 else 0"])
  show "deadline_calls (td_deadline sample_timed) = []" by (simp add: sample_timed_def io_deadline_handler_def)
qed (auto split: if_splits)

text \<open>What \<open>async_request\<close> starts is such a request as soon as there is a time constraint, and the deadline it runs under is the time
  constraint counted from the second reading of the clock.\<close>

lemma async_request_timed:
  assumes "async_request sys pq process provider ectx t now now' = Some run" "t \<noteq> No_time"
  obtains dl ec s where "deadline_of t now = Some dl" "provider dl = (ec, s)" "is_error ec" "run = No_connection ec"
    | dl ec s tp st where "deadline_of t now = Some dl" "provider dl = (ec, s)" "\<not> is_error ec" "deadline_of t now' = Some (Until tp)"
      "run = Timed tp st" "timed_request_op sys pq process s ectx = Some st"
proof -
  obtain dl dl' where d: "deadline_of t now = Some dl" "deadline_of t now' = Some dl'"
    using assms(1) by (auto simp: async_request_def bind_eq_Some_conv)
  obtain ec s where p: "provider dl = (ec, s)" by fastforce
  obtain tp where "dl' = Until tp" using deadline_of_Until [OF d(2) assms(2)] by blast
  with p d assms(1) that show thesis
    by (cases "is_error ec") (auto simp: async_request_def)
qed

end
