(* ===== verification/Bozo_Timed_Connect.thy ===== *)
theory Bozo_Timed_Connect
  imports Bozo_Connect Bozo_Timed_Operation
begin

text \<open>
  \<open>async_connect\<close> of \<open>impl/async_connect.h\<close> with its time constraint, and \<open>connection_info.h\<close>, the source of connections that starts it: the connect
  operation of \<open>Bozo_Connect\<close> under a deadline. The deadline handler is inside of the handler that requests the oids, so the request of
  the oids is under the deadline too.
\<close>

section \<open>Composition\<close>

type_synonym timed_connect = "(connect_op, connection) timed_operation"

text \<open>\<open>apply_time_constaint\<close>.\<close>

datatype connect_run = Untimed_connect connect_op | Timed_connect time_constraint timed_connect

definition async_connect_within :: "pq_start \<Rightarrow> string \<Rightarrow> time_constraint \<Rightarrow> oid_map \<Rightarrow> connect_run" where
  "async_connect_within pq conninfo t m =
     (case t of
        No_time \<Rightarrow> Untimed_connect (async_connect pq conninfo m)
      | _ \<Rightarrow> Timed_connect t (start_timed co_calls co_conn (new_connection m)
               \<lparr>co_conn = new_connection m, co_wait = No_wait, co_oids = False, co_calls = []\<rparr> (async_connect pq conninfo m)))"

record connection_info =
  conn_str :: string
  ci_oid_map :: oid_map

definition make_connection_info :: "string \<Rightarrow> oid_map \<Rightarrow> connection_info" where
  "make_connection_info s m = \<lparr>conn_str = s, ci_oid_map = m\<rparr>"

text \<open>\<open>connection_info::operator()\<close>: a new connection for every call; only the types of the oid map are taken, their oids are not known yet.\<close>

definition connection_info_call :: "pq_start \<Rightarrow> connection_info \<Rightarrow> time_constraint \<Rightarrow> connect_run" where
  "connection_info_call pq info t =
     async_connect_within pq (conn_str info) t (register_types (map fst (ci_oid_map info)))"

abbreviation timed_connect_step :: "sys_errors \<Rightarrow> (exn \<Rightarrow> string) \<Rightarrow> timed_connect \<Rightarrow> timed_connect \<Rightarrow> bool" where
  "timed_connect_step sys what \<equiv> timed_step sys (connect_step False what) co_calls co_conn"

abbreviation timed_connect_reach :: "sys_errors \<Rightarrow> (exn \<Rightarrow> string) \<Rightarrow> timed_connect \<Rightarrow> timed_connect \<Rightarrow> bool" where
  "timed_connect_reach sys what \<equiv> timed_reach sys (connect_step False what) co_calls co_conn (\<lambda>_. True)"

section \<open>Connecting calls its handler once\<close>

lemma connect_step_waits: "connect_step False what op op' \<Longrightarrow> co_wait op \<noteq> No_wait"
  by (erule connect_stepE) auto

lemma connect_inv_waits: "connect_inv pq conninfo op \<Longrightarrow> co_wait op \<noteq> No_wait \<longleftrightarrow> co_calls op = []"
  by (auto simp: connect_inv_def split: if_splits)

interpretation connecting: called_once_settled "connect_step False what" co_calls co_conn "\<lambda>_. True" "connect_inv pq conninfo" for what pq conninfo
proof
  fix op op'
  show "connect_inv pq conninfo op \<Longrightarrow> connect_step False what op op' \<Longrightarrow> connect_inv pq conninfo op'"
    by (rule connect_inv_step)
  show "connect_inv pq conninfo op \<Longrightarrow> length (co_calls op) \<le> 1"
    by (auto simp: connect_inv_def split: if_splits)
  show "connect_inv pq conninfo op \<Longrightarrow> connect_step False what op op' \<Longrightarrow> \<exists>ecs. co_calls op' = co_calls op @ ecs"
    using connect_step_waits connect_inv_waits by fastforce
  show "connect_inv pq conninfo op \<Longrightarrow> co_calls op = [] \<Longrightarrow> \<exists>op'. connect_step False what op op'"
    using connect_inv_waits [of pq conninfo op] by (cases "co_wait op") (auto intro: connect_step.intros)
  show "connect_inv pq conninfo op \<Longrightarrow> connect_step False what op op' \<Longrightarrow> co_calls op \<noteq> [] \<Longrightarrow> co_conn op' = co_conn op"
    using connect_step_waits connect_inv_waits by blast
qed

lemma timed_connect_inv:
  assumes "connection_info_call pq info t = Timed_connect tc st0" "timed_connect_reach sys what st0 st"
  shows "connecting.settled_inv pq (conn_str info) sys st"
proof -
  let ?m = "register_types (map fst (ci_oid_map info))"
  have "st0 = start_timed co_calls co_conn (new_connection ?m)
      \<lparr>co_conn = new_connection ?m, co_wait = No_wait, co_oids = False, co_calls = []\<rparr> (async_connect pq (conn_str info) ?m)"
    using assms(1) by (auto simp: connection_info_call_def async_connect_within_def split: time_constraint.splits)
  from assms(2) [unfolded this] show ?thesis
    by (rule connecting.settled_reach_inv) (simp_all add: connect_inv_start)
qed

section \<open>Correctness\<close>

text \<open>C15: a connection asked for within a time is delivered once, provided the request of the oids calls back once: the handler is called
  as soon as the connect operation has called back and the timer is done, and not before, with the connection of the connect operation
  and with \<open>timed_out\<close> if the timer came first and otherwise the error code of connecting; if that is no error, the delivered connection is open and
  knows the oids of all its types. Until then the operation is never stuck; and whatever happens, the libpq handle that was
  started is owned by the connection or has been freed.\<close>

theorem timed_connect_handler_once:
  assumes "connection_info_call pq info t = Timed_connect tc st0" "timed_connect_reach sys what st0 st"
  shows "(deadline_calls (td_deadline st) = [] \<longleftrightarrow> co_calls (td_op st) = [] \<or> timer_pending (td_deadline st)) \<and>
     (deadline_calls (td_deadline st) = [] \<longrightarrow> (\<exists>st'. timed_connect_step sys what st st')) \<and>
     (deadline_calls (td_deadline st) \<noteq> [] \<longrightarrow>
        (\<exists>ec conn. co_calls (td_op st) = [ec] \<and> conn = co_conn (td_op st) \<and>
           deadline_calls (td_deadline st) =
             [(if stream_cancelled (td_deadline st) then asio_code sys timed_out else ec, conn)] \<and>
           (\<not> is_error ec \<longrightarrow> conn_is_open conn \<and> no_null_oids (c_oid_map conn)))) \<and>
     set_option (start_connection pq (conn_str info)) =
       set_option (c_handle (co_conn (td_op st))) \<union> set (c_finished (co_conn (td_op st)))"
proof -
  note inv = timed_connect_inv [OF assms]
  then have t: "connecting.timed_inv pq (conn_str info) sys st" by (simp add: connecting.settled_inv_def)
  then have c: "connect_inv pq (conn_str info) (td_op st)" by (simp add: connecting.timed_inv_def)
  then have "set_option (start_connection pq (conn_str info)) =
      set_option (c_handle (co_conn (td_op st))) \<union> set (c_finished (co_conn (td_op st)))"
    by (simp add: connect_inv_def)
  moreover have "conn_is_open (co_conn (td_op st)) \<and> no_null_oids (c_oid_map (co_conn (td_op st)))"
    if "co_calls (td_op st) = [ec]" "\<not> is_error ec" for ec
    using c that by (auto simp: connect_inv_def conn_is_open_def split: if_splits)
  ultimately show ?thesis
    using connecting.timed_handler_once [OF t] connecting.timed_not_stuck [OF t] connecting.settled_handler_once [OF inv] by blast
qed

text \<open>A connect that succeeds before its timer.\<close>

definition sample_connected :: connection where
  "sample_connected = \<lparr>c_handle = Some 1, c_socket = Some 5, c_oid_map = [], c_error_context = [], c_finished = []\<rparr>"

definition sample_connecting :: timed_connect where
  "sample_connecting =
     \<lparr>td_op = \<lparr>co_conn = sample_connected, co_wait = Wait_write_ready, co_oids = False, co_calls = []\<rparr>,
      td_deadline = io_deadline_handler (new_connection [])\<rparr>"

definition sample_delivered_connect :: timed_connect where
  "sample_delivered_connect =
     \<lparr>td_op = \<lparr>co_conn = sample_connected, co_wait = No_wait, co_oids = False, co_calls = [no_error]\<rparr>,
      td_deadline = on_timer sample_sys (on_operation no_error sample_connected (io_deadline_handler (new_connection [])))\<rparr>"

lemma sample_connecting_start:
  "connection_info_call sample_start (make_connection_info ''host=db'' []) (Within 100) = Timed_connect (Within 100) sample_connecting"
  by (simp add: connection_info_call_def make_connection_info_def async_connect_within_def async_connect_def connect_perform_def
      sample_start_def connection_status_bad_def conn_assign_def finish_def start_timed_def forward_calls_def
      sample_connecting_def sample_connected_def new_connection_def register_types_def)

lemma sample_delivered_connect_reach: "timed_connect_reach sample_sys (\<lambda>_. []) sample_connecting sample_delivered_connect"
proof -
  let ?op = "td_op sample_connecting"
  have "connect_step False (\<lambda>_. []) ?op (connect_ready no_error PGRES_POLLING_OK ?op)"
    by (rule connect_step.socket) (simp add: sample_connecting_def)
  then have "timed_connect_reach sample_sys (\<lambda>_. []) sample_connecting
      \<lparr>td_op = connect_ready no_error PGRES_POLLING_OK ?op,
       td_deadline = forward_calls co_calls co_conn ?op (connect_ready no_error PGRES_POLLING_OK ?op) (td_deadline sample_connecting)\<rparr>"
    (is "timed_reach _ _ _ _ _ _ ?st") by (auto intro: timed_reach.intros timed_step.operation)
  moreover have "timed_connect_step sample_sys (\<lambda>_. []) ?st (?st\<lparr>td_deadline := on_timer sample_sys (td_deadline ?st)\<rparr>)"
    by (rule timed_step.timer)
      (simp add: sample_connecting_def connect_ready_def connect_done_def oid_map_empty_def sample_connected_def call_handler_def
        forward_calls_def on_operation_def io_deadline_handler_def)
  ultimately have "timed_connect_reach sample_sys (\<lambda>_. []) sample_connecting (?st\<lparr>td_deadline := on_timer sample_sys (td_deadline ?st)\<rparr>)"
    by (auto intro: timed_reach.step)
  then show ?thesis
    by (simp add: sample_delivered_connect_def sample_connecting_def connect_ready_def connect_done_def oid_map_empty_def
        sample_connected_def call_handler_def forward_calls_def)
qed

theorem timed_connect_handler_once_witness:
  "\<exists>conn. deadline_calls (td_deadline sample_delivered_connect) = [(no_error, conn)] \<and> conn_is_open conn"
proof -
  have "deadline_calls (td_deadline sample_delivered_connect) \<noteq> []" "\<not> stream_cancelled (td_deadline sample_delivered_connect)"
    "co_calls (td_op sample_delivered_connect) = [no_error]"
    by (simp_all add: sample_delivered_connect_def on_timer_def on_operation_def io_deadline_handler_def)
  with timed_connect_handler_once [OF sample_connecting_start sample_delivered_connect_reach] show ?thesis
    by (auto simp: is_error_def no_error_def)
qed

end
