(* ===== verification/Bozo_Result.thy ===== *)
theory Bozo_Result
  imports Bozo_Pg_Format
begin

text \<open>
  \<open>result.h\<close>, \<open>impl/result.h\<close> and the row functions of \<open>io/recv.h\<close>: access to the rows and values
  of a \<open>PGresult\<close>, and how rows are received into scalars, tuples and structures. A \<open>PGresult\<close> is its
  column descriptions and its cells, which hold values in PostgreSQL's binary format (\<open>Bozo_Pg_Format\<close>); \<open>PQfnumber\<close>, whose
  matching of names is libpq's, is an argument.
\<close>

record pg_table =
  t_names :: "string list"
  t_oids :: "oid_t list"
  t_cells :: "byte list option list list"

definition ntuples :: "pg_table \<Rightarrow> nat" where
  "ntuples res = length (t_cells res)"

definition nfields :: "pg_table \<Rightarrow> nat" where
  "nfields res = length (t_names res)"

section \<open>Values and rows\<close>

text \<open>\<open>value::coordinates\<close> within one result.\<close>

record coordinates =
  co_row :: int
  co_col :: int

definition cell :: "pg_table \<Rightarrow> coordinates \<Rightarrow> byte list option" where
  "cell res v = t_cells res ! nat (co_row v) ! nat (co_col v)"

definition value_oid :: "pg_table \<Rightarrow> coordinates \<Rightarrow> oid_t" where
  "value_oid res v = t_oids res ! nat (co_col v)"

definition value_is_null :: "pg_table \<Rightarrow> coordinates \<Rightarrow> bool" where
  "value_is_null res v \<longleftrightarrow> cell res v = None"

definition value_data :: "pg_table \<Rightarrow> coordinates \<Rightarrow> byte list" where
  "value_data res v = (case cell res v of Some bs \<Rightarrow> bs | None \<Rightarrow> [])"

definition value_size :: "pg_table \<Rightarrow> coordinates \<Rightarrow> nat" where
  "value_size res v = length (value_data res v)"

text \<open>Iterators are coordinates; a row is the coordinates of its first value.\<close>

definition row_begin :: "coordinates \<Rightarrow> coordinates" where
  "row_begin first = first"

definition row_advance :: "int \<Rightarrow> coordinates \<Rightarrow> coordinates" where
  "row_advance n v = v\<lparr>co_col := co_col v + n\<rparr>"

definition row_end :: "pg_table \<Rightarrow> coordinates \<Rightarrow> coordinates" where
  "row_end res first = row_advance (int (nfields res)) (row_begin first)"

definition row_find :: "(string list \<Rightarrow> string \<Rightarrow> int) \<Rightarrow> pg_table \<Rightarrow> coordinates \<Rightarrow> string \<Rightarrow> coordinates" where
  "row_find PQfnumber res first name =
     (let i = PQfnumber (t_names res) name
      in if i = - 1 then row_end res first else row_advance i (row_begin first))"

definition row_index :: "coordinates \<Rightarrow> int \<Rightarrow> coordinates" where
  "row_index first index = row_advance index (row_begin first)"

definition row_at :: "pg_table \<Rightarrow> coordinates \<Rightarrow> int \<Rightarrow> exn + coordinates" where
  "row_at res first index =
     (if index < 0 \<or> int (nfields res) \<le> index then Inl Out_of_range else Inr (row_index first index))"

definition row_at_name :: "(string list \<Rightarrow> string \<Rightarrow> int) \<Rightarrow> pg_table \<Rightarrow> coordinates \<Rightarrow> string \<Rightarrow> exn + coordinates" where
  "row_at_name PQfnumber res first name =
     (let i = row_find PQfnumber res first name in if i = row_end res first then Inl Out_of_range else Inr i)"

definition result_begin :: coordinates where
  "result_begin = \<lparr>co_row = 0, co_col = 0\<rparr>"

definition result_index :: "int \<Rightarrow> coordinates" where
  "result_index i = result_begin\<lparr>co_row := co_row result_begin + i\<rparr>"

definition result_at :: "pg_table \<Rightarrow> int \<Rightarrow> exn + coordinates" where
  "result_at res i = (if i < 0 \<or> int (ntuples res) \<le> i then Inl Out_of_range else Inr (result_index i))"

definition result_rows :: "pg_table \<Rightarrow> coordinates list" where
  "result_rows res = map (\<lambda>i. result_index (int i)) [0..<ntuples res]"

section \<open>Receiving rows\<close>

definition recv_value :: "endian \<Rightarrow> oid_map \<Rightarrow> pg_table \<Rightarrow> coordinates \<Rightarrow> cpp_type \<Rightarrow> pg_value \<Rightarrow> exn + pg_value" where
  "recv_value native m res v t out =
     sbind (recv native m (Some (value_oid res v))
              (if value_is_null res v then null_state_size else to_int32 (int (value_size res v)))
              t out (make_istream (value_data res v)))
       (\<lambda>(x, s). Inr x)"

definition recv_row_single :: "endian \<Rightarrow> oid_map \<Rightarrow> pg_table \<Rightarrow> coordinates \<Rightarrow> cpp_type \<Rightarrow> pg_value \<Rightarrow> exn + pg_value" where
  "recv_row_single native m res first t out =
     (if nfields res \<noteq> 1 then Inl Range_error else recv_value native m res (row_begin first) t out)"

fun recv_each :: "endian \<Rightarrow> oid_map \<Rightarrow> pg_table \<Rightarrow> coordinates \<Rightarrow> cpp_type list \<Rightarrow> pg_value list \<Rightarrow> exn + pg_value list" where
  "recv_each native m res i (t # ts) (v # vs) =
     sbind (recv_value native m res i t v) (\<lambda>x.
     sbind (recv_each native m res (row_advance 1 i) ts vs) (\<lambda>xs. Inr (x # xs)))"
| "recv_each native m res i _ vs = Inr vs"

definition recv_row_sequence ::
  "endian \<Rightarrow> oid_map \<Rightarrow> pg_table \<Rightarrow> coordinates \<Rightarrow> cpp_type list \<Rightarrow> pg_value list \<Rightarrow> exn + pg_value list" where
  "recv_row_sequence native m res first ts vs =
     (if length ts \<noteq> nfields res then Inl Range_error else recv_each native m res (row_begin first) ts vs)"

text \<open>Structures with named members, adapted by Fusion or by Hana: every member takes the column of its
  name.\<close>

fun recv_members ::
  "(string list \<Rightarrow> string \<Rightarrow> int) \<Rightarrow> endian \<Rightarrow> oid_map \<Rightarrow> pg_table \<Rightarrow> coordinates \<Rightarrow> (string \<times> cpp_type) list \<Rightarrow> pg_value list \<Rightarrow> exn + pg_value list" where
  "recv_members PQfnumber native m res first ((n, t) # fs) (v # vs) =
     (let i = row_find PQfnumber res first n
      in if i = row_end res first then Inl Range_error
         else sbind (recv_value native m res i t v) (\<lambda>x.
              sbind (recv_members PQfnumber native m res first fs vs) (\<lambda>xs. Inr (x # xs))))"
| "recv_members PQfnumber native m res first _ vs = Inr vs"

definition recv_row_struct ::
  "(string list \<Rightarrow> string \<Rightarrow> int) \<Rightarrow> endian \<Rightarrow> oid_map \<Rightarrow> pg_table \<Rightarrow> coordinates \<Rightarrow> (string \<times> cpp_type) list \<Rightarrow> pg_value list \<Rightarrow> exn + pg_value list" where
  "recv_row_struct PQfnumber native m res first fs vs =
     (if length fs \<noteq> nfields res then Inl Range_error else recv_members PQfnumber native m res first fs vs)"

text \<open>\<open>recv_result\<close> into an insert iterator: rows are received into fresh objects and appended; an exception
  leaves the rows before it in the container.\<close>

fun recv_rows :: "(coordinates \<Rightarrow> exn + 'v) \<Rightarrow> coordinates list \<Rightarrow> 'v list \<Rightarrow> exn option \<times> 'v list" where
  "recv_rows recv_row [] out = (None, out)"
| "recv_rows recv_row (r # rs) out =
     (case recv_row r of Inl e \<Rightarrow> (Some e, out) | Inr v \<Rightarrow> recv_rows recv_row rs (out @ [v]))"

definition recv_result_sequence ::
  "endian \<Rightarrow> oid_map \<Rightarrow> pg_table \<Rightarrow> cpp_type list \<Rightarrow> pg_value list list \<Rightarrow> exn option \<times> pg_value list list" where
  "recv_result_sequence native m res ts out =
     recv_rows (\<lambda>r. recv_row_sequence native m res r ts (map default_value ts)) (result_rows res) out"

definition recv_result_struct ::
  "(string list \<Rightarrow> string \<Rightarrow> int) \<Rightarrow> endian \<Rightarrow> oid_map \<Rightarrow> pg_table \<Rightarrow> (string \<times> cpp_type) list \<Rightarrow> pg_value list list \<Rightarrow> exn option \<times> pg_value list list" where
  "recv_result_struct PQfnumber native m res fs out =
     recv_rows (\<lambda>r. recv_row_struct PQfnumber native m res r fs (map (default_value \<circ> snd) fs)) (result_rows res) out"

text \<open>\<open>recv_result\<close> into a forward iterator: the rows are received into the elements of the range, one after another. Writing
  beyond its end is undefined (\<open>None\<close>); after an exception the element it happened at is not specified.\<close>

fun recv_rows_forward :: "(coordinates \<Rightarrow> 'v \<Rightarrow> exn + 'v) \<Rightarrow> coordinates list \<Rightarrow> 'v list \<Rightarrow> (exn + 'v list) option" where
  "recv_rows_forward recv_row [] out = Some (Inr out)"
| "recv_rows_forward recv_row (r # rs) [] = None"
| "recv_rows_forward recv_row (r # rs) (v # out) =
     (case recv_row r v of Inl e \<Rightarrow> Some (Inl e)
      | Inr v' \<Rightarrow> map_option (map_sum id ((#) v')) (recv_rows_forward recv_row rs out))"

definition recv_result_forward ::
  "endian \<Rightarrow> oid_map \<Rightarrow> pg_table \<Rightarrow> cpp_type list \<Rightarrow> pg_value list list \<Rightarrow> (exn + pg_value list list) option" where
  "recv_result_forward native m res ts out =
     recv_rows_forward (\<lambda>r v. recv_row_sequence native m res r ts v) (result_rows res) out"

section \<open>A table of values\<close>

text \<open>A cell of a result holds a value: it is SQL NULL for a null, and bytes that represent the value otherwise.\<close>

definition cell_holds :: "oid_map \<Rightarrow> cpp_type \<Rightarrow> pg_value \<Rightarrow> byte list option \<Rightarrow> bool" where
  "cell_holds m t v c \<longleftrightarrow> (case c of None \<Rightarrow> is_null t v | Some bs \<Rightarrow> length bs < 2 ^ 31 \<and> pg_repr m t v bs)"

definition table_holds :: "oid_map \<Rightarrow> (string \<times> cpp_type) list \<Rightarrow> pg_value list list \<Rightarrow> pg_table \<Rightarrow> bool" where
  "table_holds m cols rows res \<longleftrightarrow>
     t_names res = map fst cols \<and> t_oids res = map (type_oid m \<circ> snd) cols \<and>
     list_all2 (\<lambda>vs cs. list_all2 (\<lambda>c (v, x). cell_holds m (snd c) v x) cols (zip vs cs) \<and> length vs = length cs) rows (t_cells res)"

lemma recv_value_cell:
  assumes "wf_type t" "value_oid res p = type_oid m t" "cell_holds m t v (cell res p)"
  shows "recv_value native m res p t (default_value t) = Inr v"
proof (cases "cell res p")
  case None
  with assms(3) obtain u where "t = T_nullable u" "v = V_null" by (cases t) (auto simp: cell_holds_def is_null_def)
  with None show ?thesis by (simp add: recv_value_def value_is_null_def value_data_def recv.simps)
next
  case (Some bs)
  with assms(3) have bs: "length bs < 2 ^ 31" "pg_repr m t v bs" by (simp_all add: cell_holds_def)
  have "recv native m (Some (type_oid m t)) (int (length bs)) t (default_value t) (make_istream (bs @ [])) = Inr (v, make_istream [])"
    using recv_pg_repr(1) [OF bs(2) assms(1), of native] unfolding reads_def by blast
  with Some bs(1) assms(2) show ?thesis by (simp add: recv_value_def value_is_null_def value_data_def value_size_def)
qed

lemma table_holdsD:
  assumes "table_holds m cols rows res"
  shows "nfields res = length cols" "ntuples res = length rows" "t_names res = map fst cols"
    and "r < length rows \<Longrightarrow> length (rows ! r) = length cols"
    and "r < length rows \<Longrightarrow> j < length cols \<Longrightarrow> cell_holds m (snd (cols ! j)) (rows ! r ! j) (cell res \<lparr>co_row = int r, co_col = int j\<rparr>)"
    and "j < length cols \<Longrightarrow> value_oid res \<lparr>co_row = int r, co_col = int j\<rparr> = type_oid m (snd (cols ! j))"
  using assms
  by (auto simp: table_holds_def nfields_def ntuples_def cell_def value_oid_def list_all2_conv_all_nth)

lemma recv_table_cell:
  assumes "table_holds m cols rows res" "list_all (wf_type \<circ> snd) cols" "r < length rows" "j < length cols"
  shows "recv_value native m res \<lparr>co_row = int r, co_col = int j\<rparr> (snd (cols ! j)) (default_value (snd (cols ! j))) =
     Inr (rows ! r ! j)"
  using assms(2-4) table_holdsD [OF assms(1)] by (intro recv_value_cell) (auto simp: list_all_length)

lemma recv_rows_all:
  "(\<And>r. r \<in> set rs \<Longrightarrow> recv_row r = Inr (f r)) \<Longrightarrow> recv_rows recv_row rs out = (None, out @ map f rs)"
  by (induction rs arbitrary: out) simp_all

lemma recv_each_table:
  assumes "table_holds m cols rows res" "list_all (wf_type \<circ> snd) cols" "r < length rows" "k \<le> length cols"
  shows "recv_each native m res \<lparr>co_row = int r, co_col = int k\<rparr>
           (map snd (drop k cols)) (map default_value (map snd (drop k cols))) = Inr (drop k (rows ! r))"
  using assms(4)
proof (induction "length cols - k" arbitrary: k)
  case 0
  then show ?case using table_holdsD(4) [OF assms(1,3)] by simp
next
  case (Suc n)
  then have k: "k < length cols" "drop k cols = cols ! k # drop (Suc k) cols"
    by (simp_all add: Cons_nth_drop_Suc)
  have "drop k (rows ! r) = rows ! r ! k # drop (Suc k) (rows ! r)"
    using k(1) table_holdsD(4) [OF assms(1,3)] by (simp add: Cons_nth_drop_Suc)
  moreover have "recv_each native m res \<lparr>co_row = int r, co_col = int k + 1\<rparr>
      (map snd (drop (Suc k) cols)) (map default_value (map snd (drop (Suc k) cols))) = Inr (drop (Suc k) (rows ! r))"
    using Suc.hyps(1) [of "Suc k"] Suc.hyps(2) k(1) by (simp add: add.commute)
  ultimately show ?case
    using recv_table_cell [OF assms(1-3) k(1), of native] by (simp add: k(2) row_advance_def)
qed

lemma result_rows_table:
  "table_holds m cols rows res \<Longrightarrow> result_rows res = map (\<lambda>r. \<lparr>co_row = int r, co_col = 0\<rparr>) [0..<length rows]"
  using table_holdsD(2) [of m cols rows res] by (simp add: result_rows_def result_index_def result_begin_def)

lemma recv_row_table:
  assumes "table_holds m cols rows res" "list_all (wf_type \<circ> snd) cols" "p \<in> set (result_rows res)"
  shows "recv_row_sequence native m res p (map snd cols) (map default_value (map snd cols)) = Inr (rows ! nat (co_row p))"
  using assms(3) recv_each_table [OF assms(1,2), of _ 0 native] table_holdsD(1) [OF assms(1)]
  by (auto simp: result_rows_table [OF assms(1)] recv_row_sequence_def row_begin_def)

lemma rows_of_table: "table_holds m cols rows res \<Longrightarrow> map (\<lambda>p. rows ! nat (co_row p)) (result_rows res) = rows"
  by (simp add: result_rows_table comp_def map_nth)

lemma recv_table_rows:
  assumes "table_holds m cols rows res" "list_all (wf_type \<circ> snd) cols"
  shows "recv_result_sequence native m res (map snd cols) out = (None, out @ rows)"
  unfolding recv_result_sequence_def
  using recv_rows_all [OF recv_row_table [OF assms]] by (simp add: rows_of_table [OF assms(1)])

lemma recv_table_columns:
  assumes "table_holds m cols rows res" "length ts \<noteq> length cols" "rows \<noteq> []"
  shows "recv_result_sequence native m res ts out = (Some Range_error, out)"
proof -
  obtain p ps where "result_rows res = p # ps"
    using result_rows_table [OF assms(1)] assms(3) by (cases "result_rows res") auto
  then show ?thesis
    using assms(2) table_holdsD(1) [OF assms(1)] by (simp add: recv_result_sequence_def recv_row_sequence_def)
qed

text \<open>The range takes the rows if it is long enough, and keeps the elements behind them; a shorter one is written beyond its end.\<close>

lemma recv_rows_forward_all:
  assumes "\<And>r. r \<in> set rs \<Longrightarrow> recv_row r v = Inr (f r)"
  shows "recv_rows_forward recv_row rs (replicate n v) =
     (if length rs \<le> n then Some (Inr (map f rs @ replicate (n - length rs) v)) else None)"
  using assms
proof (induction rs arbitrary: n)
  case (Cons r rs)
  then show ?case by (cases n) auto
qed simp

lemma recv_result_forward_rows:
  assumes "table_holds m cols rows res" "list_all (wf_type \<circ> snd) cols"
  shows "recv_result_forward native m res (map snd cols) (replicate n (map default_value (map snd cols))) =
     (if length rows \<le> n then Some (Inr (rows @ replicate (n - length rows) (map default_value (map snd cols)))) else None)"
proof -
  have "length (result_rows res) = length rows" by (simp add: result_rows_table [OF assms(1)])
  then show ?thesis
    unfolding recv_result_forward_def
    using recv_rows_forward_all [of "result_rows res" "\<lambda>r v. recv_row_sequence native m res r (map snd cols) v",
        OF recv_row_table [OF assms]]
    by (simp add: rows_of_table [OF assms(1)])
qed


text \<open>A result as a server would send it: the array of the second column starts at index 1.\<close>

definition sample_array :: "byte list" where
  "sample_array = [0,0,0,1, 0,0,0,1, 0,0,0,23, 0,0,0,2, 0,0,0,1, 0,0,0,4, 0,0,0,5, 255,255,255,255]"

definition sample_table :: pg_table where
  "sample_table = \<lparr>t_names = [''id'', ''xs''], t_oids = [23, 1007],
     t_cells = [[Some [0,0,0,1], Some sample_array], [Some [0,0,0,2], None]]\<rparr>"

definition sample_cols :: "(string \<times> cpp_type) list" where
  "sample_cols = [(''id'', T_int4), (''xs'', T_nullable (T_vector (T_nullable T_int4)))]"

definition sample_rows :: "pg_value list list" where
  "sample_rows = [[V_int4 1, V_some (V_seq [V_some (V_int4 5), V_null])], [V_int4 2, V_null]]"

lemma sample_array_repr: "pg_repr [] (T_vector (T_nullable T_int4)) (V_seq [V_some (V_int4 5), V_null]) sample_array"
proof -
  have "pg_items [] (T_nullable T_int4) [V_some (V_int4 5), V_null]
      ((be_bytes (word_of_nat (length (be_bytes (5 :: 32 word))) :: 32 word) @ be_bytes (5 :: 32 word)) @
       be_bytes (- 1 :: 32 word) @ [])"
    by (intro items_cons items_nil frame_value frame_null repr_nullable repr_int4) simp
  from repr_array [OF disjI1 [OF refl] _ this, of 1 1] show ?thesis
    by (simp add: sample_array_def minus_one_bytes)
      (simp add: be_bytes_def le_bytes_def sizeof_def upt_rec type_oid_def definition_oid_def)
qed

lemma sample_table_holds: "table_holds [] sample_cols sample_rows sample_table" "list_all (wf_type \<circ> snd) sample_cols"
proof -
  have "pg_repr [] T_int4 (V_int4 1) [0,0,0,1]" "pg_repr [] T_int4 (V_int4 2) [0,0,0,2]"
    using repr_int4 [of "[]" 1] repr_int4 [of "[]" 2] by (simp_all add: be_bytes_def le_bytes_def sizeof_def upt_rec)
  then show "table_holds [] sample_cols sample_rows sample_table"
    using repr_nullable [OF sample_array_repr]
    by (simp add: table_holds_def sample_table_def sample_cols_def sample_rows_def cell_holds_def is_null_def type_oid_def
        definition_oid_def) (simp add: sample_array_def)
  show "list_all (wf_type \<circ> snd) sample_cols" by (simp add: sample_cols_def)
qed


section \<open>Columns by name\<close>

text \<open>What libpq documents of \<open>PQfnumber\<close>: the name is taken like an identifier in SQL, in lower case unless it is quoted, and
  the number is the one of the first column of this name, or \<open>-1\<close>. The names are those of C++ members: not empty, ASCII and without
  quotes.\<close>

definition down_case :: "string \<Rightarrow> string" where
  "down_case n = map (\<lambda>c. let k = of_char c :: nat in if 65 \<le> k \<and> k \<le> 90 then char_of (k + 32) else c) n"

definition member_name :: "string \<Rightarrow> bool" where
  "member_name n \<longleftrightarrow> n \<noteq> [] \<and> list_all (\<lambda>c. of_char c < (128 :: nat) \<and> of_char c \<noteq> (34 :: nat)) n"

definition column_number :: "string list \<Rightarrow> string \<Rightarrow> int" where
  "column_number ns n = (if n \<in> set ns then int (length (takeWhile (\<lambda>x. x \<noteq> n) ns)) else - 1)"

definition documented_fnumber :: "(string list \<Rightarrow> string \<Rightarrow> int) \<Rightarrow> bool" where
  "documented_fnumber PQfnumber \<longleftrightarrow> (\<forall>ns n. member_name n \<longrightarrow> PQfnumber ns n = column_number ns (down_case n))"

lemma column_number_map_of:
  "map_of cols n = Some t \<Longrightarrow> length vs = length cols \<Longrightarrow>
     \<exists>j < length cols. column_number (map fst cols) n = int j \<and> cols ! j = (n, t) \<and> map_of (zip (map fst cols) vs) n = Some (vs ! j)"
proof (induction cols arbitrary: vs)
  case (Cons c cols)
  then obtain v vs' where vs: "vs = v # vs'" by (cases vs) auto
  show ?case
  proof (cases "fst c = n")
    case True
    then show ?thesis using Cons.prems vs by (intro exI [of _ 0]) (cases c; simp add: column_number_def)
  next
    case False
    then obtain j where j: "j < length cols" "column_number (map fst cols) n = int j" "cols ! j = (n, t)"
        "map_of (zip (map fst cols) vs') n = Some (vs' ! j)"
      using Cons.IH [of vs'] Cons.prems vs by (cases c) auto
    with False vs show ?thesis by (intro exI [of _ "Suc j"]) (cases c; auto simp: column_number_def split: if_splits)
  qed
qed simp

lemma column_number_none: "map_of cols n = None \<Longrightarrow> column_number (map fst cols) n = - 1"
  by (auto simp: column_number_def map_of_eq_None_iff)

lemma recv_members_table:
  assumes "table_holds m cols rows res" "list_all (wf_type \<circ> snd) cols" "r < length rows" "documented_fnumber PQfnumber"
    and "\<forall>(n, t) \<in> set fs. member_name n \<and> map_of cols (down_case n) \<in> {Some t, None}"
  shows "recv_members PQfnumber native m res \<lparr>co_row = int r, co_col = 0\<rparr> fs (map (default_value \<circ> snd) fs) =
     (if \<forall>(n, t) \<in> set fs. map_of cols (down_case n) = Some t
      then Inr (map (\<lambda>(n, t). the (map_of (zip (map fst cols) (rows ! r)) (down_case n))) fs)
      else Inl Range_error)"
  using assms(5)
proof (induction fs)
  case (Cons f fs)
  obtain n t where f: "f = (n, t)" by (cases f)
  with Cons.prems have n: "member_name n" "map_of cols (down_case n) \<in> {Some t, None}" by auto
  note tab = table_holdsD [OF assms(1)]
  have find: "row_find PQfnumber res \<lparr>co_row = int r, co_col = 0\<rparr> n =
      (let i = column_number (map fst cols) (down_case n) in \<lparr>co_row = int r, co_col = if i = - 1 then int (length cols) else i\<rparr>)"
    using assms(4) n(1) tab(1,3)
    by (simp add: documented_fnumber_def row_find_def row_end_def row_advance_def row_begin_def Let_def)
  have e: "row_end res \<lparr>co_row = int r, co_col = 0\<rparr> = \<lparr>co_row = int r, co_col = int (length cols)\<rparr>"
    using tab(1) by (simp add: row_end_def row_advance_def row_begin_def)
  show ?case
  proof (cases "map_of cols (down_case n)")
    case None
    with find e f column_number_none [OF None] show ?thesis by (simp add: Let_def)
  next
    case (Some t')
    with n(2) have t: "map_of cols (down_case n) = Some t" by simp
    from column_number_map_of [OF t tab(4) [OF assms(3)]] obtain j where j: "j < length cols"
        "column_number (map fst cols) (down_case n) = int j" "cols ! j = (down_case n, t)"
        "map_of (zip (map fst cols) (rows ! r)) (down_case n) = Some (rows ! r ! j)" by blast
    have "recv_value native m res \<lparr>co_row = int r, co_col = int j\<rparr> t (default_value t) = Inr (rows ! r ! j)"
      using recv_table_cell [OF assms(1-3) j(1), of native] j(3) by simp
    then show ?thesis
      using Cons find e j f t by (simp add: Let_def)
  qed
qed simp

text \<open>C38: a structure takes every member from the column of the member's name in lower case, as \<open>PQfnumber\<close> documents it, whatever
  the order of the columns in the result. A structure with another number of members than the result has columns, and one
  with a member of which there is no such column (say \<open>userId\<close> for a column \<open>"userId"\<close>), throws \<open>range_error\<close> at the first row and
  leaves the container as it was.\<close>

theorem recv_result_by_name:
  assumes "table_holds m cols rows res" and "list_all (wf_type \<circ> snd) cols" and "documented_fnumber PQfnumber"
    and "\<forall>(n, t) \<in> set fs. member_name n \<and> map_of cols (down_case n) \<in> {Some t, None}"
  shows "recv_result_struct PQfnumber native m res fs out =
     (if rows = [] then (None, out)
      else if length fs = length cols \<and> (\<forall>(n, t) \<in> set fs. map_of cols (down_case n) = Some t)
        then (None, out @ map (\<lambda>vs. map (\<lambda>(n, t). the (map_of (zip (map fst cols) vs) (down_case n))) fs) rows)
      else (Some Range_error, out))"
proof -
  define ok where "ok \<longleftrightarrow> length fs = length cols \<and> (\<forall>(n, t) \<in> set fs. map_of cols (down_case n) = Some t)"
  let ?g = "\<lambda>vs. map (\<lambda>(n, t). the (map_of (zip (map fst cols) vs) (down_case n))) fs"
  note rr = result_rows_table [OF assms(1)]
  have row: "recv_row_struct PQfnumber native m res p fs (map (default_value \<circ> snd) fs) =
      (if ok then Inr (?g (rows ! nat (co_row p))) else Inl Range_error)" if "p \<in> set (result_rows res)" for p
  proof -
    from that obtain r where "r < length rows" "p = \<lparr>co_row = int r, co_col = 0\<rparr>" by (auto simp: rr)
    then show ?thesis
      using recv_members_table [OF assms(1,2) _ assms(3,4), of r native] table_holdsD(1) [OF assms(1)]
      by (simp add: recv_row_struct_def ok_def)
  qed
  have "recv_result_struct PQfnumber native m res fs out =
      (if rows = [] then (None, out) else if ok then (None, out @ map ?g rows) else (Some Range_error, out))"
  proof (cases ok)
    case True
    then have "recv_result_struct PQfnumber native m res fs out =
        (None, out @ map (\<lambda>p. ?g (rows ! nat (co_row p))) (result_rows res))"
      unfolding recv_result_struct_def using row by (intro recv_rows_all) simp
    moreover have "map (\<lambda>p. ?g (rows ! nat (co_row p))) (result_rows res) = map ?g rows"
      by (rule nth_equalityI) (simp_all add: rr)
    ultimately show ?thesis using True by simp
  next
    case False
    have "rows = [] \<longleftrightarrow> result_rows res = []" by (simp add: rr)
    with False row show ?thesis
      by (cases "result_rows res") (simp_all add: recv_result_struct_def)
  qed
  then show ?thesis by (simp only: ok_def)
qed

theorem recv_result_by_name_witness:
  "recv_result_struct (\<lambda>ns n. column_number ns (down_case n)) little [] sample_table
     [(''xs'', T_nullable (T_vector (T_nullable T_int4))), (''Id'', T_int4)] [] =
   (None, [[V_some (V_seq [V_some (V_int4 5), V_null]), V_int4 1], [V_null, V_int4 2]])"
proof -
  have "down_case ''Id'' = ''id''" "down_case ''xs'' = ''xs''" by code_simp+
  then show ?thesis
    using recv_result_by_name [OF sample_table_holds, of "\<lambda>ns n. column_number ns (down_case n)"
        "[(''xs'', T_nullable (T_vector (T_nullable T_int4))), (''Id'', T_int4)]" little "[]"]
    by (simp add: documented_fnumber_def member_name_def sample_cols_def sample_rows_def)
qed

text \<open>Access to rows and values by \<open>at\<close> stays inside the result: a position outside of it throws
  \<open>out_of_range\<close>, and a position inside gives the coordinates of an existing cell.\<close>

theorem result_at_in_range:
  assumes "list_all (\<lambda>r. length r = nfields res) (t_cells res)"
  shows "case sbind (result_at res i) (\<lambda>r. row_at res r j) of
     Inl e \<Rightarrow> e = Out_of_range \<and> (i < 0 \<or> int (ntuples res) \<le> i \<or> j < 0 \<or> int (nfields res) \<le> j)
   | Inr v \<Rightarrow> 0 \<le> i \<and> i < int (ntuples res) \<and> 0 \<le> j \<and> j < int (nfields res) \<and>
       nat (co_row v) < length (t_cells res) \<and> nat (co_col v) < length (t_cells res ! nat (co_row v)) \<and>
       cell res v = t_cells res ! nat i ! nat j"
  using assms
  by (auto simp: result_at_def row_at_def result_index_def result_begin_def row_index_def row_begin_def
      row_advance_def ntuples_def cell_def list_all_length split: if_splits)

theorem result_at_in_range_witness:
  "sbind (result_at sample_table 0) (\<lambda>r. row_at sample_table r 3) = Inl Out_of_range"
  using result_at_in_range [of sample_table 0 3]
  by (simp add: sample_table_def nfields_def ntuples_def result_at_def row_at_def)

end
