(* ===== verification/Bozo_Delivery.thy ===== *)
theory Bozo_Delivery
  imports Bozo_Result Bozo_Request
begin

text \<open>
  \<open>async_request_out_handler\<close> of \<open>impl/async_request.h\<close>: the output handler of a request receives the result of the query into the user's
  container, so that the end of a request (\<open>Bozo_Request\<close>) and the decoding of a result (\<open>Bozo_Result\<close>) meet. The cells of a
  \<open>PGresult\<close> are the argument \<open>table\<close>, the texts of exceptions the argument \<open>what\<close>.
\<close>

definition async_request_out_handler ::
  "endian \<Rightarrow> oid_map \<Rightarrow> (pg_result \<Rightarrow> pg_table) \<Rightarrow> cpp_type list \<Rightarrow> pg_result \<Rightarrow> pg_value list list \<Rightarrow> exn option \<times> pg_value list list" where
  "async_request_out_handler native m table ts r out = recv_result_sequence native m (table r) ts out"

text \<open>\<open>process_and_done\<close> and \<open>handle_result\<close> with the container the handler writes to: the state is the context and the container.\<close>

definition process_and_done_out ::
  "(exn \<Rightarrow> string) \<Rightarrow> (pg_result \<Rightarrow> 'out \<Rightarrow> exn option \<times> 'out) \<Rightarrow> pg_result \<Rightarrow> 's request_context \<times> 'out \<Rightarrow> 's request_context \<times> 'out" where
  "process_and_done_out what process r = (\<lambda>(ctx, out).
     case process r out of
       (Some e, out') \<Rightarrow> (result_done_error (ctx\<lparr>error_context := what e\<rparr>) (make_error_code bad_result_process), out')
     | (None, out') \<Rightarrow> (result_done_ok ctx, out'))"

definition handle_result_out ::
  "(exn \<Rightarrow> string) \<Rightarrow> (pg_result \<Rightarrow> 'out \<Rightarrow> exn option \<times> 'out) \<Rightarrow> pg_result \<Rightarrow> 's request_context \<times> 'out \<Rightarrow> 's request_context \<times> 'out" where
  "handle_result_out what process r = (\<lambda>(ctx, out).
     case res_status r of
       PGRES_SINGLE_TUPLE \<Rightarrow> process_and_done_out what process r (ctx, out)
     | PGRES_TUPLES_OK \<Rightarrow> process_and_done_out what process r (ctx, out)
     | PGRES_COMMAND_OK \<Rightarrow> process_and_done_out what process r (ctx, out)
     | PGRES_BAD_RESPONSE \<Rightarrow> (result_done_error ctx (make_error_code result_status_bad_response), out)
     | PGRES_EMPTY_QUERY \<Rightarrow> (result_done_error ctx (make_error_code result_status_empty_query), out)
     | PGRES_FATAL_ERROR \<Rightarrow> (result_done_error ctx (result_error (res_sqlstate r)), out)
     | _ \<Rightarrow> (result_done_error (ctx\<lparr>error_context := get_result_status_name (res_status r)\<rparr>)
             (make_error_code result_status_unexpected), out))"

text \<open>Without the container it is the \<open>handle_result\<close> of \<open>Bozo_Request\<close>.\<close>

lemma handle_result_out_fst:
  "fst (handle_result_out what process r (ctx, out)) = handle_result (\<lambda>r. map_option what (fst (process r out))) r ctx"
  by (cases "res_status r")
    (simp_all add: handle_result_out_def handle_result_def process_and_done_out_def process_and_done_def split: prod.split option.split)

definition has_rows :: "exec_status \<Rightarrow> bool" where
  "has_rows status \<longleftrightarrow> status \<in> {PGRES_SINGLE_TUPLE, PGRES_TUPLES_OK, PGRES_COMMAND_OK}"

lemma status_name_nonempty: "get_result_status_name s \<noteq> []"
  by (cases s) simp_all

lemma result_done_error_context:
  "error_context (result_done_error ctx ec) = (if error_context ctx = [] then ''error while get request result'' else error_context ctx)"
  by (simp add: result_done_error_def done_error_def)

text \<open>What is in the container after \<open>recv_result\<close>: the rows received until the first that throws.\<close>

lemma recv_rows_prefix:
  "\<exists>vs. recv_rows recv_row rs out = (e, out @ vs) \<and> list_all2 (\<lambda>p v. recv_row p = Inr v) (take (length vs) rs) vs \<and>
     (case e of None \<Rightarrow> length vs = length rs
      | Some x \<Rightarrow> length vs < length rs \<and> recv_row (rs ! length vs) = Inl x)" if "e = fst (recv_rows recv_row rs out)"
  using that
proof (induction rs arbitrary: out)
  case (Cons r rs)
  show ?case
  proof (cases "recv_row r")
    case (Inl x)
    with Cons.prems show ?thesis by (intro exI [of _ "[]"]) simp
  next
    case (Inr v)
    from Cons.IH [of "out @ [v]"] Cons.prems Inr obtain vs where
      "recv_rows recv_row rs (out @ [v]) = (e, (out @ [v]) @ vs)" "list_all2 (\<lambda>p v. recv_row p = Inr v) (take (length vs) rs) vs"
      "case e of None \<Rightarrow> length vs = length rs | Some x \<Rightarrow> length vs < length rs \<and> recv_row (rs ! length vs) = Inl x"
      by auto
    with Inr show ?thesis by (intro exI [of _ "v # vs"]) (auto split: option.split)
  qed
qed simp

text \<open>A result without rows: the handler gets an error, unless the server reports a fatal error of state \<open>00000\<close>.\<close>

definition success_state :: "pg_result \<Rightarrow> bool" where
  "success_state r \<longleftrightarrow> res_status r = PGRES_FATAL_ERROR \<and> (\<exists>t. res_sqlstate r = Some t \<and> to_int32 (strtol36 t) = 0)"

lemma make_error_code_is_error: "is_error (make_error_code e) \<longleftrightarrow> e \<noteq> err_ok"
  by (cases e) (simp_all add: is_error_def make_error_code_def)

lemma handle_result_no_rows:
  assumes "\<not> has_rows (res_status r)"
  shows "\<exists>ctx' ec. handle_result_out what process r (ctx, out) = (ctx', out) \<and> handler_calls ctx' = handler_calls ctx @ [ec] \<and>
     (is_error ec \<longleftrightarrow> \<not> success_state r) \<and> q_state ctx' = qs_error \<and> cancel_calls ctx' = cancel_calls ctx + 1 \<and> error_context ctx' \<noteq> []"
  using assms make_error_code_is_error
  by (cases "res_status r"; cases "res_sqlstate r")
    (auto simp: handle_result_out_def has_rows_def result_done_error_context status_name_nonempty success_state_def result_error_def
      sqlstate_make_error_code_def is_error_def)

text \<open>The values of a row of a result as a tuple of fresh objects gets them, or the exception.\<close>

definition row_values :: "endian \<Rightarrow> oid_map \<Rightarrow> pg_table \<Rightarrow> cpp_type list \<Rightarrow> coordinates \<Rightarrow> exn + pg_value list" where
  "row_values native m res ts p = recv_row_sequence native m res p ts (map default_value ts)"



end
