(* ===== verification/Bozo_Failover.thy ===== *)
theory Bozo_Failover
  imports Bozo_Error Bozo_Provider Bozo_Options
begin

text \<open>
  \<open>failover/strategy.h\<close>, \<open>failover/retry.h\<close> and \<open>failover/role_based.h\<close>: an operation is tried,
  and while it fails the strategy may supply a next try. The operation is an argument: what the \<open>n\<close>-th
  attempt, made with a given try, completes with. The loop of continuations is a partial function, and a
  locale states what makes it end; both strategies of the library are interpretations of it. The strategies and their tries carry the
  option maps of \<open>Bozo_Options\<close>, the handlers get the connections of \<open>Bozo_Provider\<close>.
\<close>

section \<open>The loop of tries\<close>

text \<open>The guard of a try, \<open>defer_close_connection(armed ? std::addressof(conn) : nullptr)\<close>, at the end of its scope; on a
  well-formed connection it is always defined (\<open>close_guard_connection\<close>).\<close>

definition close_guard :: "bool \<Rightarrow> conn_ref \<Rightarrow> conn_ref" where
  "close_guard armed conn =
     (case defer_close_connection (if armed then Some conn else None) of Some (Some conn') \<Rightarrow> conn' | _ \<Rightarrow> conn)"

lemma close_guard_connection:
  assumes "wf_conn r"
  shows "close_guard False r = r" "is_null_recursive r \<Longrightarrow> close_guard True r = r"
    and "defer_close_connection (Some r) = Some (Some (close_guard True r))"
    and "unwrap_connection r = Some c \<Longrightarrow> \<exists>c'. unwrap_connection (close_guard True r) = Some c' \<and> \<not> conn_is_open c'"
proof -
  have null: "is_null_recursive r \<Longrightarrow> defer_close_connection (Some r) = Some (Some r)"
    by (simp add: defer_close_connection_def)
  show "close_guard False r = r" "is_null_recursive r \<Longrightarrow> close_guard True r = r"
    using null by (simp_all add: close_guard_def defer_close_connection_def)
  show "defer_close_connection (Some r) = Some (Some (close_guard True r))"
  proof (cases "unwrap_connection r")
    case None
    then show ?thesis using null unwrap_connection_null [OF assms] by (simp add: close_guard_def)
  next
    case (Some c)
    then show ?thesis using defer_close_closes [OF assms Some, of "\<lambda>_. True"] by (auto simp: close_guard_def)
  qed
  assume "unwrap_connection r = Some c"
  from defer_close_closes [OF assms this, of "\<lambda>_. True"]
  show "\<exists>c'. unwrap_connection (close_guard True r) = Some c' \<and> \<not> conn_is_open c'"
    by (auto simp: close_guard_def conn_is_open_def)
qed

text \<open>\<open>continuation::operator()\<close>: the result is what the user's handler is called with, and the tries made.\<close>

partial_function (option) run_tries ::
  "('t \<Rightarrow> error_code \<Rightarrow> conn_ref \<Rightarrow> 't option \<times> conn_ref) \<Rightarrow> (nat \<Rightarrow> 't \<Rightarrow> error_code \<times> conn_ref) \<Rightarrow>
   nat \<Rightarrow> 't \<Rightarrow> (error_code \<times> conn_ref \<times> 't list) option" where
  "run_tries next_try op n t =
     (case op n t of (ec, conn) \<Rightarrow>
        if is_error ec
        then (case next_try t ec conn of
                (Some t', conn') \<Rightarrow>
                  Option.bind (run_tries next_try op (Suc n) t') (\<lambda>(e, c, ts). Some (e, c, t # ts))
              | (None, conn') \<Rightarrow> Some (ec, conn', [t]))
        else Some (ec, conn, [t]))"

locale failover_strategy =
  fixes next_try :: "'t \<Rightarrow> error_code \<Rightarrow> conn_ref \<Rightarrow> 't option \<times> conn_ref"
    and tries_after :: "'t \<Rightarrow> nat"
  assumes progress: "next_try t ec c = (Some t', c') \<Longrightarrow> tries_after t' < tries_after t"
begin

lemma run_returns: "\<exists>ec c ts. run_tries next_try op n t = Some (ec, c, ts) \<and> length ts \<le> Suc (tries_after t)"
proof (induction "tries_after t" arbitrary: n t rule: less_induct)
  case less
  obtain ec conn where o: "op n t = (ec, conn)" by (cases "op n t")
  show ?case
  proof (cases "is_error ec")
    case True
    obtain mt conn' where nx: "next_try t ec conn = (mt, conn')" by (cases "next_try t ec conn")
    show ?thesis
    proof (cases mt)
      case None
      then show ?thesis using o True nx by (subst run_tries.simps) simp
    next
      case (Some t')
      then have lt: "tries_after t' < tries_after t" using progress nx by simp
      from less [OF lt, of "Suc n"] obtain e c ts where
        "run_tries next_try op (Suc n) t' = Some (e, c, ts)" "length ts \<le> Suc (tries_after t')" by blast
      then show ?thesis using o True nx Some lt by (subst run_tries.simps) simp
    qed
  next
    case False
    then show ?thesis using o by (subst run_tries.simps) simp
  qed
qed

text \<open>The tries made are a chain: each but the first is what the strategy supplied for the failure of the
  one before; the last one succeeded, or its failure is final.\<close>

lemma run_chain:
  assumes "run_tries next_try op n t = Some (ec, c, ts)"
  shows "ts \<noteq> [] \<and> ts ! 0 = t \<and>
     (\<forall>i. Suc i < length ts \<longrightarrow> is_error (fst (op (n + i) (ts ! i))) \<and>
        fst (next_try (ts ! i) (fst (op (n + i) (ts ! i))) (snd (op (n + i) (ts ! i)))) = Some (ts ! Suc i)) \<and>
     fst (op (n + (length ts - 1)) (last ts)) = ec \<and>
     (if is_error ec
      then next_try (last ts) ec (snd (op (n + (length ts - 1)) (last ts))) = (None, c)
      else c = snd (op (n + (length ts - 1)) (last ts)))"
  using assms
proof (induction "tries_after t" arbitrary: n t ts rule: less_induct)
  case less
  obtain e0 c0 where o: "op n t = (e0, c0)" by (cases "op n t")
  show ?case
  proof (cases "is_error e0")
    case True
    obtain mt c' where nx: "next_try t e0 c0 = (mt, c')" by (cases "next_try t e0 c0")
    show ?thesis
    proof (cases mt)
      case None
      then show ?thesis using less.prems o True nx by (subst (asm) run_tries.simps) auto
    next
      case (Some t')
      obtain ts' where ts': "run_tries next_try op (Suc n) t' = Some (ec, c, ts')" "ts = t # ts'"
        using less.prems o True nx Some
        by (subst (asm) run_tries.simps) (auto split: Option.bind_splits)
      note IH = less.hyps [OF progress [OF nx [unfolded Some]] ts'(1)]
      from IH have ne: "ts' \<noteq> []" "ts' ! 0 = t'" by auto
      have "is_error (fst (op (n + i) (ts ! i))) \<and>
          fst (next_try (ts ! i) (fst (op (n + i) (ts ! i))) (snd (op (n + i) (ts ! i)))) = Some (ts ! Suc i)"
        if "Suc i < length ts" for i
        using that IH ts'(2) o True nx Some ne by (cases i) auto
      moreover obtain k where "length ts' = Suc k" using ne(1) by (cases ts') auto
      ultimately show ?thesis using IH ts'(2) ne by auto
    qed
  next
    case False
    then show ?thesis using less.prems o by (subst (asm) run_tries.simps) auto
  qed
qed

end

section \<open>Time of a try\<close>

definition get_try_time_constraint :: "time_constraint \<Rightarrow> int \<Rightarrow> int \<Rightarrow> time_constraint option" where
  "get_try_time_constraint t n_tries now =
     (case t of
        No_time \<Rightarrow> Some No_time
      | Until tp \<Rightarrow> (if n_tries > 0 then map_option (\<lambda>l. Within (l sdiv n_tries)) (time_left tp now) else Some (Within 0))
      | Within d \<Rightarrow> Some (Within (if n_tries > 0 then d sdiv n_tries else 0)))"

text \<open>The time given to a try is its share of what is left: with \<open>n\<close> tries remaining, all of them
  together stay within the deadline, the share is not negative, and it is zero once the deadline is
  reached.\<close>

theorem try_time_within_deadline:
  assumes "0 \<le> now" and "now \<le> int64_max" and "0 \<le> tp" and "tp \<le> int64_max" and "0 < n"
  shows "\<exists>share. get_try_time_constraint (Until tp) n now = Some (Within share) \<and> 0 \<le> share \<and>
     n * share \<le> max 0 (tp - now) \<and> (tp \<le> now \<longrightarrow> share = 0)"
proof -
  define l where "l = max 0 (tp - now)"
  have "time_left tp now = Some l"
    using assms by (auto simp: time_left_def l_def checked64_def int64_min_def int64_max_def)
  moreover have "l sdiv n = l div n" using assms(5) by (cases "tp \<le> now") (simp_all add: l_def signed_divide_int_def)
  moreover have "n * (l div n) \<le> l" using mult_div_mod_eq [of n l] pos_mod_sign [OF assms(5), of l] by linarith
  moreover have "0 \<le> l div n" using assms(5) by (simp add: l_def pos_imp_zdiv_nonneg_iff)
  ultimately show ?thesis
    using assms(5) by (simp add: get_try_time_constraint_def l_def)
qed

theorem try_time_within_deadline_witness:
  "\<exists>share. get_try_time_constraint (Until 1000) 3 100 = Some (Within share) \<and> 0 \<le> share \<and> 3 * share \<le> max 0 (1000 - 100) \<and>
     ((1000 :: int) \<le> 100 \<longrightarrow> share = 0)"
  by (rule try_time_within_deadline) (simp_all add: int64_max_def)

section \<open>Retry\<close>

text \<open>\<open>retry_options\<close> with the types of their values, and the strategy, which is a map of them: \<open>retry\<close>, and \<open>tries\<close> for \<open>retry_strategy::tries\<close> and
  its operators \<open>*\<close>, on a temporary strategy as in \<open>retry(...)*k\<close> (for a named one see \<open>set_options\<close>).\<close>

datatype retry_key = op_on_retry | op_close_connection | op_tries | op_conditions

datatype retry_value = On_retry | Close_connection bool | Tries int | Conditions "errc_enum list"

type_synonym retry_options = "(retry_key, retry_value) options"

definition retry :: "errc_enum list \<Rightarrow> retry_options" where
  "retry ec = (if ec \<noteq> [] then set_option1 (\<lambda>_ v. v) [] (op_conditions, Conditions ec) else [])"

definition tries :: "int \<Rightarrow> retry_options \<Rightarrow> retry_options" where
  "tries n s = set_option1 (\<lambda>_ v. v) s (op_tries, Tries n)"

text \<open>\<open>basic_try\<close>: the options it carries and the time constraint of its context; \<open>rt_events\<close> records the calls of the \<open>on_retry\<close>
  handler.\<close>

record retry_try =
  rt_options :: retry_options
  rt_time :: time_constraint
  rt_events :: "(error_code \<times> conn_ref) list"

definition retry_first_try :: "retry_options \<Rightarrow> time_constraint \<Rightarrow> int \<Rightarrow> retry_try option" where
  "retry_first_try s t now =
     (if has_option s op_tries then map_option (\<lambda>dl. \<lparr>rt_options = s, rt_time = dl, rt_events = []\<rparr>) (deadline_of t now) else None)"

definition tries_remain :: "retry_try \<Rightarrow> int" where
  "tries_remain t = (case get_option (rt_options t) op_tries of Some (Tries n) \<Rightarrow> n | _ \<Rightarrow> 0)"

definition get_conditions :: "retry_try \<Rightarrow> errc_enum list" where
  "get_conditions t =
     (case get_option_default (rt_options t) op_conditions (Conditions []) of Conditions ecs \<Rightarrow> ecs | _ \<Rightarrow> [])"

definition retry_close_policy :: "retry_try \<Rightarrow> bool" where
  "retry_close_policy t =
     (case get_option_default (rt_options t) op_close_connection (Close_connection True) of Close_connection b \<Rightarrow> b | _ \<Rightarrow> True)"

definition adjust_tries_remain :: "retry_try \<Rightarrow> retry_try" where
  "adjust_tries_remain t =
     t\<lparr>rt_options := assign_option (\<lambda>_ v. v) op_tries (Tries (max 0 (tries_remain t - 1))) (rt_options t)\<rparr>"

definition can_retry :: "sys_errors \<Rightarrow> retry_try \<Rightarrow> error_code \<Rightarrow> bool" where
  "can_retry sys t ec =
     (if tries_remain t < 1 then False
      else if get_conditions t = [] then True else match_code sys (get_conditions t) ec)"

definition retry_next_try :: "sys_errors \<Rightarrow> retry_try \<Rightarrow> error_code \<Rightarrow> conn_ref \<Rightarrow> retry_try option \<times> conn_ref" where
  "retry_next_try sys t ec conn =
     (let t1 = adjust_tries_remain t
      in (if can_retry sys t1 ec
          then Some (if has_option (rt_options t1) op_on_retry then t1\<lparr>rt_events := rt_events t1 @ [(ec, conn)]\<rparr> else t1)
          else None,
          close_guard (retry_close_policy t) conn))"

definition retry_time_constraint :: "retry_try \<Rightarrow> int \<Rightarrow> time_constraint option" where
  "retry_time_constraint t now = get_try_time_constraint (rt_time t) (tries_remain t) now"

text \<open>Counting a try down touches no other option.\<close>

lemma retry_events [simp]:
  "tries_remain (t\<lparr>rt_events := es\<rparr>) = tries_remain t" "get_conditions (t\<lparr>rt_events := es\<rparr>) = get_conditions t"
  "retry_close_policy (t\<lparr>rt_events := es\<rparr>) = retry_close_policy t"
  by (simp_all add: tries_remain_def get_conditions_def retry_close_policy_def)

lemma adjust_tries_remain_options [simp]:
  "tries_remain (adjust_tries_remain t) = max 0 (tries_remain t - 1)"
  "get_conditions (adjust_tries_remain t) = get_conditions t"
  "retry_close_policy (adjust_tries_remain t) = retry_close_policy t"
  "rt_time (adjust_tries_remain t) = rt_time t"
  by (simp_all add: adjust_tries_remain_def tries_remain_def get_conditions_def retry_close_policy_def get_option_default_read
      get_option_map_of map_of_assign_option split: option.split)

lemma retry_strategy_options:
  assumes "retry_first_try (set_option1 (\<lambda>_ v. v) (tries k (retry conds)) (op_close_connection, Close_connection close)) t now = Some t0"
  shows "tries_remain t0 = k" "get_conditions t0 = conds" "retry_close_policy t0 = close"
  using assms
  by (auto simp: retry_first_try_def tries_def retry_def set_option1_def has_option_def tries_remain_def
      get_conditions_def retry_close_policy_def get_option_default_read get_option_map_of split: if_splits)

interpretation retry_strategy: failover_strategy "retry_next_try sys" "\<lambda>t. nat (tries_remain t - 1)" for sys
  by unfold_locales (auto simp: retry_next_try_def can_retry_def Let_def split: if_splits)

lemma retry_next_try_Some:
  assumes "fst (retry_next_try sys t ec conn) = Some t'"
  shows "tries_remain t' = tries_remain t - 1" "1 < tries_remain t" "get_conditions t' = get_conditions t"
    and "retry_close_policy t' = retry_close_policy t" "rt_time t' = rt_time t"
    and "get_conditions t = [] \<or> match_code sys (get_conditions t) ec"
  using assms by (auto simp: retry_next_try_def can_retry_def Let_def split: if_splits)

lemma retry_next_try_None:
  assumes "retry_next_try sys t ec conn = (None, c)"
  shows "tries_remain t \<le> 1 \<or> (get_conditions t \<noteq> [] \<and> \<not> match_code sys (get_conditions t) ec)"
    and "c = close_guard (retry_close_policy t) conn"
  using assms by (auto simp: retry_next_try_def can_retry_def Let_def split: if_splits)

lemma retry_chain:
  assumes "run_tries (retry_next_try sys) op n t = Some (ec, c, ts)" "i < length ts"
  shows "tries_remain (ts ! i) = tries_remain t - int i \<and> get_conditions (ts ! i) = get_conditions t \<and>
     retry_close_policy (ts ! i) = retry_close_policy t"
  using assms(2)
proof (induction i)
  case 0
  then show ?case using retry_strategy.run_chain [OF assms(1)] by simp
next
  case (Suc i)
  then have "fst (retry_next_try sys (ts ! i) (fst (op (n + i) (ts ! i))) (snd (op (n + i) (ts ! i)))) = Some (ts ! Suc i)"
    using retry_strategy.run_chain [OF assms(1)] by blast
  from retry_next_try_Some [OF this] Suc show ?case by simp
qed

text \<open>C5: \<open>retry(conditions)*k\<close> with any close policy ends after at most \<open>k\<close> attempts with one call of the handler: with the first
  success, or with the error of the last attempt, and then all \<open>k\<close> attempts were made or that error is none
  of the conditions. Every attempt before the last failed with an error to be retried, and the \<open>i\<close>-th one
  runs with \<open>k - i\<close> tries remaining.\<close>

theorem retry_attempts:
  assumes "1 \<le> k"
    and "retry_first_try (set_option1 (\<lambda>_ v. v) (tries k (retry conds)) (op_close_connection, Close_connection close)) t now = Some t0"
  shows "\<exists>ec c ts. run_tries (retry_next_try sys) op 0 t0 = Some (ec, c, ts) \<and>
     1 \<le> length ts \<and> int (length ts) \<le> k \<and>
     fst (op (length ts - 1) (last ts)) = ec \<and>
     (is_error ec \<longrightarrow> int (length ts) = k \<or> (conds \<noteq> [] \<and> \<not> match_code sys conds ec)) \<and>
     (\<forall>i < length ts. tries_remain (ts ! i) = k - int i \<and>
        (i < length ts - 1 \<longrightarrow> is_error (fst (op i (ts ! i))) \<and>
           (conds = [] \<or> match_code sys conds (fst (op i (ts ! i))))))"
proof -
  obtain ec c ts where r: "run_tries (retry_next_try sys) op 0 t0 = Some (ec, c, ts)"
    and len: "length ts \<le> Suc (nat (tries_remain t0 - 1))" using retry_strategy.run_returns by blast
  note chain = retry_strategy.run_chain [OF r] and tries = retry_chain [OF r]
  have ne: "ts \<noteq> []" using chain by blast
  then have last: "last ts = ts ! (length ts - 1)" by (rule last_conv_nth)
  note t0 = retry_strategy_options [OF assms(2)]
  have le: "1 \<le> length ts" "int (length ts) \<le> k" using ne len assms t0 by (cases ts; simp)+
  have final: "int (length ts) = k \<or> (conds \<noteq> [] \<and> \<not> match_code sys conds ec)" if "is_error ec"
  proof -
    have "retry_next_try sys (last ts) ec (snd (op (length ts - 1) (last ts))) = (None, c)"
      using chain that by simp
    from retry_next_try_None(1) [OF this] show ?thesis
      using tries [of "length ts - 1"] ne le t0 last by auto
  qed
  have before: "is_error (fst (op i (ts ! i))) \<and> (conds = [] \<or> match_code sys conds (fst (op i (ts ! i))))"
    if "i < length ts - 1" for i
  proof -
    have "is_error (fst (op (0 + i) (ts ! i)))"
      "fst (retry_next_try sys (ts ! i) (fst (op (0 + i) (ts ! i))) (snd (op (0 + i) (ts ! i)))) = Some (ts ! Suc i)"
      using chain that by auto
    with retry_next_try_Some(6) [OF this(2)] tries [of i] that t0 show ?thesis by simp
  qed
  show ?thesis using r le chain final before tries t0 by auto
qed

text \<open>An operation that fails with a lost connection twice and then succeeds.\<close>

definition flaky :: "nat \<Rightarrow> 't \<Rightarrow> error_code \<times> conn_ref" where
  "flaky n t = (if n < 2 then make_error_code pg_flush_failed else no_error, Plain sample_connection)"

definition five_tries :: retry_try where
  "five_tries =
     \<lparr>rt_options = [(op_conditions, Conditions [connection_error]), (op_tries, Tries 5), (op_close_connection, Close_connection True)],
      rt_time = No_time, rt_events = []\<rparr>"

lemma five_tries_first:
  "retry_first_try (set_option1 (\<lambda>_ v. v) (tries 5 (retry [connection_error])) (op_close_connection, Close_connection True)) No_time 0 =
     Some five_tries"
  by (simp add: retry_first_try_def tries_def retry_def set_option1_def has_option_def deadline_of_def five_tries_def)

theorem retry_attempts_witness:
  "\<exists>ec c ts. run_tries (retry_next_try sample_sys) flaky 0 five_tries = Some (ec, c, ts) \<and>
     1 \<le> length ts \<and> int (length ts) \<le> 5"
  using retry_attempts [OF _ five_tries_first, of sample_sys flaky] by auto

section \<open>Fallback between roles\<close>

text \<open>The roles of the library, and roles of the user (by a name) whose \<open>can_recover_impl\<close> matches error conditions of their own.\<close>

datatype role = master | replica | User_role string "errc_enum list"

fun recover_conditions :: "role \<Rightarrow> errc_enum list" where
  "recover_conditions master = [connection_error, type_mismatch, protocol_error, database_readonly]"
| "recover_conditions replica = [connection_error, type_mismatch, protocol_error]"
| "recover_conditions (User_role name conditions) = conditions"

definition can_recover :: "sys_errors \<Rightarrow> role \<Rightarrow> error_code \<Rightarrow> bool" where
  "can_recover sys r ec = match_code sys (recover_conditions r) ec"

text \<open>\<open>role_based_connection_source\<close> and its provider: one source per role, and the role in use.\<close>

record 'src role_based_source =
  rs_sources :: "role \<Rightarrow> 'src option"
  rs_role :: role

definition rebind_role :: "'src role_based_source \<Rightarrow> role \<Rightarrow> 'src role_based_source option" where
  "rebind_role s r = (if rs_sources s r \<noteq> None then Some (s\<lparr>rs_role := r\<rparr>) else None)"

definition make_role_based_connection_source :: "(role \<times> 'src) list \<Rightarrow> 'src role_based_source" where
  "make_role_based_connection_source ps = \<lparr>rs_sources = map_of ps, rs_role = fst (hd ps)\<rparr>"

definition role_source :: "'src role_based_source \<Rightarrow> 'src option" where
  "role_source s = rs_sources s (rs_role s)"

text \<open>\<open>role_based_options\<close>, the strategy \<open>role_based(roles...)\<close>, and \<open>role_based_try\<close>: its options and the index of the role in use;
  \<open>rb_events\<close> records the calls of \<open>on_fallback\<close>.\<close>

datatype role_key = opt_on_fallback | opt_close_connection | opt_roles

datatype role_value = On_fallback | Role_close bool | Roles "role list"

type_synonym role_options = "(role_key, role_value) options"

definition role_based :: "role list \<Rightarrow> role_options" where
  "role_based roles = (if roles \<noteq> [] then [(opt_roles, Roles roles)] else [])"

record role_try =
  rb_options :: role_options
  rb_idx :: nat
  rb_time :: time_constraint
  rb_events :: "(error_code \<times> conn_ref) list"

definition roles_seq :: "role_try \<Rightarrow> role list" where
  "roles_seq t = (case get_option (rb_options t) opt_roles of Some (Roles rs) \<Rightarrow> rs | _ \<Rightarrow> [])"

definition role_close_policy :: "role_try \<Rightarrow> bool" where
  "role_close_policy t =
     (case get_option_default (rb_options t) opt_close_connection (Role_close True) of Role_close b \<Rightarrow> b | _ \<Rightarrow> True)"

definition role_first_try :: "role_options \<Rightarrow> time_constraint \<Rightarrow> int \<Rightarrow> role_try option" where
  "role_first_try s t now =
     (if get_option s opt_roles \<in> {None, Some (Roles [])} then None
      else map_option (\<lambda>dl. \<lparr>rb_options = s, rb_idx = 0, rb_time = dl, rb_events = []\<rparr>) (deadline_of t now))"

definition try_role :: "role_try \<Rightarrow> role" where
  "try_role t = roles_seq t ! rb_idx t"

definition tries_left :: "role_try \<Rightarrow> nat" where
  "tries_left t = length (roles_seq t) - rb_idx t"

text \<open>The options stay as they are from try to try.\<close>

lemma role_try_update [simp]:
  "roles_seq (t\<lparr>rb_idx := i\<rparr>) = roles_seq t" "roles_seq (t\<lparr>rb_events := es\<rparr>) = roles_seq t"
  "role_close_policy (t\<lparr>rb_idx := i\<rparr>) = role_close_policy t" "role_close_policy (t\<lparr>rb_events := es\<rparr>) = role_close_policy t"
  by (simp_all add: roles_seq_def role_close_policy_def)

lemma role_based_options:
  assumes "role_first_try (set_option1 (\<lambda>_ v. v) (role_based roles) (opt_close_connection, Role_close close)) t now = Some t0"
  shows "roles_seq t0 = roles" "role_close_policy t0 = close" "rb_idx t0 = 0" "roles \<noteq> []"
  using assms
  by (auto simp: role_first_try_def role_based_def set_option1_def has_option_def roles_seq_def
      role_close_policy_def get_option_default_read get_option_map_of split: if_splits)

definition role_time_constraint :: "role_try \<Rightarrow> int \<Rightarrow> time_constraint option" where
  "role_time_constraint t now = get_try_time_constraint (rb_time t) (int (tries_left t)) now"

text \<open>\<open>initiate_next_try\<close>: a role that cannot recover the error is skipped, and its guard released.\<close>

function role_next_try :: "sys_errors \<Rightarrow> role_try \<Rightarrow> error_code \<Rightarrow> conn_ref \<Rightarrow> role_try option \<times> conn_ref" where
  "role_next_try sys t ec conn =
     (if 1 < tries_left t
      then let fallback = t\<lparr>rb_idx := rb_idx t + 1\<rparr>
           in if can_recover sys (try_role fallback) ec
              then (Some (if has_option (rb_options fallback) opt_on_fallback
                          then fallback\<lparr>rb_events := rb_events fallback @ [(ec, conn)]\<rparr> else fallback),
                    close_guard (role_close_policy t) conn)
              else role_next_try sys fallback ec conn
      else (None, close_guard (role_close_policy t) conn))"
  by pat_completeness auto
termination
  by (relation "measure (\<lambda>(_, t, _, _). tries_left t)") (auto simp: tries_left_def)

declare role_next_try.simps [simp del]

lemma role_next_try_Some:
  assumes "fst (role_next_try sys t ec conn) = Some t'"
  shows "roles_seq t' = roles_seq t \<and> role_close_policy t' = role_close_policy t \<and> rb_time t' = rb_time t \<and>
     rb_idx t < rb_idx t' \<and> rb_idx t' < length (roles_seq t) \<and>
     can_recover sys (try_role t') ec \<and> (\<forall>j. rb_idx t < j \<and> j < rb_idx t' \<longrightarrow> \<not> can_recover sys (roles_seq t ! j) ec)"
  using assms
proof (induction sys t ec conn rule: role_next_try.induct)
  case (1 sys t ec conn)
  let ?f = "t\<lparr>rb_idx := rb_idx t + 1\<rparr>"
  have left: "1 < tries_left t" using "1.prems" by (subst (asm) role_next_try.simps) (auto split: if_splits)
  show ?case
  proof (cases "can_recover sys (try_role ?f) ec")
    case True
    then show ?thesis
      using "1.prems" left by (subst (asm) role_next_try.simps) (auto simp: tries_left_def try_role_def Let_def split: if_splits)
  next
    case False
    then have "fst (role_next_try sys ?f ec conn) = Some t'"
      using "1.prems" left by (subst (asm) role_next_try.simps) simp
    note IH = "1.IH" [OF left refl False this]
    have "\<not> can_recover sys (roles_seq t ! j) ec" if "rb_idx t < j" "j < rb_idx t'" for j
      using IH False that by (cases "j = Suc (rb_idx t)") (auto simp: try_role_def)
    then show ?thesis using IH by auto
  qed
qed

lemma role_next_try_None:
  assumes "role_next_try sys t ec conn = (None, c)"
  shows "c = close_guard (role_close_policy t) conn \<and>
     (\<forall>j. rb_idx t < j \<and> j < length (roles_seq t) \<longrightarrow> \<not> can_recover sys (roles_seq t ! j) ec)"
  using assms
proof (induction sys t ec conn rule: role_next_try.induct)
  case (1 sys t ec conn)
  let ?f = "t\<lparr>rb_idx := rb_idx t + 1\<rparr>"
  show ?case
  proof (cases "1 < tries_left t")
    case True
    have "(if can_recover sys (try_role ?f) ec
        then (Some (if has_option (rb_options ?f) opt_on_fallback then ?f\<lparr>rb_events := rb_events ?f @ [(ec, conn)]\<rparr> else ?f),
              close_guard (role_close_policy t) conn)
        else role_next_try sys ?f ec conn) = (None, c)"
      using "1.prems" True unfolding role_next_try.simps [of sys t] by (simp only: if_True Let_def)
    then have nr: "\<not> can_recover sys (try_role ?f) ec" "role_next_try sys ?f ec conn = (None, c)"
      by (auto split: if_splits)
    note IH = "1.IH" [OF True refl nr]
    have "\<not> can_recover sys (roles_seq t ! j) ec" if "rb_idx t < j" "j < length (roles_seq t)" for j
      using IH nr(1) that by (cases "j = Suc (rb_idx t)") (auto simp: try_role_def)
    then show ?thesis using IH by auto
  next
    case False
    then show ?thesis
      using "1.prems" by (subst (asm) role_next_try.simps) (auto simp: tries_left_def)
  qed
qed

interpretation role_based: failover_strategy "role_next_try sys" "\<lambda>t. tries_left t - 1" for sys
proof
  fix t ec c t' c' assume "role_next_try sys t ec c = (Some t', c')"
  then have "fst (role_next_try sys t ec c) = Some t'" by simp
  from role_next_try_Some [OF this] show "tries_left t' - 1 < tries_left t - 1" by (auto simp: tries_left_def)
qed

lemma role_chain:
  assumes "run_tries (role_next_try sys) op n t = Some (ec, c, ts)" "i < length ts"
  shows "roles_seq (ts ! i) = roles_seq t \<and> role_close_policy (ts ! i) = role_close_policy t"
  using assms(2)
proof (induction i)
  case 0
  then show ?case using role_based.run_chain [OF assms(1)] by simp
next
  case (Suc i)
  then have "fst (role_next_try sys (ts ! i) (fst (op (n + i) (ts ! i))) (snd (op (n + i) (ts ! i)))) = Some (ts ! Suc i)"
    using role_based.run_chain [OF assms(1)] by blast
  from role_next_try_Some [OF this] Suc show ?case by simp
qed

text \<open>C21: a role-based fallback over \<open>n\<close> roles ends after at most \<open>n\<close> attempts. The first attempt uses the first
  role; each later one uses the next role in the sequence that can recover the error before it, the roles
  in between cannot; and the handler gets the first success, or an error that none of the roles left can
  recover.\<close>

theorem role_based_attempts:
  assumes "role_first_try (set_option1 (\<lambda>_ v. v) (role_based roles) (opt_close_connection, Role_close close)) t now = Some t0"
  shows "\<exists>ec c ts. run_tries (role_next_try sys) op 0 t0 = Some (ec, c, ts) \<and>
     1 \<le> length ts \<and> length ts \<le> length roles \<and> rb_idx (ts ! 0) = 0 \<and>
     fst (op (length ts - 1) (last ts)) = ec \<and>
     (is_error ec \<longrightarrow> (\<forall>j. rb_idx (last ts) < j \<and> j < length roles \<longrightarrow> \<not> can_recover sys (roles ! j) ec)) \<and>
     (\<forall>i. Suc i < length ts \<longrightarrow>
        is_error (fst (op i (ts ! i))) \<and> rb_idx (ts ! i) < rb_idx (ts ! Suc i) \<and> rb_idx (ts ! Suc i) < length roles \<and>
        can_recover sys (roles ! rb_idx (ts ! Suc i)) (fst (op i (ts ! i))) \<and>
        (\<forall>j. rb_idx (ts ! i) < j \<and> j < rb_idx (ts ! Suc i) \<longrightarrow> \<not> can_recover sys (roles ! j) (fst (op i (ts ! i)))))"
proof -
  obtain ec c ts where r: "run_tries (role_next_try sys) op 0 t0 = Some (ec, c, ts)"
    and len: "length ts \<le> Suc (tries_left t0 - 1)" using role_based.run_returns by blast
  note chain = role_based.run_chain [OF r] and roles = role_chain [OF r]
  note t0 = role_based_options(1,3) [OF assms]
  have ne: "ts \<noteq> []" using chain by blast
  then have last: "last ts = ts ! (length ts - 1)" "length ts - 1 < length ts" by (simp_all add: last_conv_nth)
  have le: "length ts \<le> length roles" using len role_based_options(4) [OF assms] t0 by (cases roles) (simp_all add: tries_left_def)
  have final: "\<forall>j. rb_idx (last ts) < j \<and> j < length roles \<longrightarrow> \<not> can_recover sys (roles ! j) ec" if "is_error ec"
  proof -
    have "role_next_try sys (last ts) ec (snd (op (0 + (length ts - 1)) (last ts))) = (None, c)"
      using chain that by simp
    from role_next_try_None [OF this] show ?thesis using roles [OF last(2)] t0(1) last(1) by simp
  qed
  have step: "is_error (fst (op i (ts ! i))) \<and> rb_idx (ts ! i) < rb_idx (ts ! Suc i) \<and> rb_idx (ts ! Suc i) < length roles \<and>
      can_recover sys (roles ! rb_idx (ts ! Suc i)) (fst (op i (ts ! i))) \<and>
      (\<forall>j. rb_idx (ts ! i) < j \<and> j < rb_idx (ts ! Suc i) \<longrightarrow> \<not> can_recover sys (roles ! j) (fst (op i (ts ! i))))"
    if "Suc i < length ts" for i
  proof -
    have "is_error (fst (op i (ts ! i)))"
      "fst (role_next_try sys (ts ! i) (fst (op i (ts ! i))) (snd (op i (ts ! i)))) = Some (ts ! Suc i)"
      using chain that by auto
    with role_next_try_Some [OF this(2)] roles [of i] roles [of "Suc i"] that t0(1) show ?thesis
      by (auto simp: try_role_def)
  qed
  have "rb_idx (ts ! 0) = 0" "1 \<le> length ts" using chain t0(2) ne by (auto simp: Suc_le_eq)
  then show ?thesis using r le chain final step by auto
qed

definition three_roles :: role_try where
  "three_roles =
     \<lparr>rb_options = [(opt_roles, Roles [master, replica, replica]), (opt_close_connection, Role_close True)],
      rb_idx = 0, rb_time = No_time, rb_events = []\<rparr>"

lemma three_roles_first:
  "role_first_try (set_option1 (\<lambda>_ v. v) (role_based [master, replica, replica]) (opt_close_connection, Role_close True)) No_time 0 =
     Some three_roles"
  by (simp add: role_first_try_def role_based_def set_option1_def has_option_def get_option_def deadline_of_def
      three_roles_def)

theorem role_based_attempts_witness:
  "\<exists>ec c ts. run_tries (role_next_try sample_sys) flaky 0 three_roles = Some (ec, c, ts) \<and> 1 \<le> length ts \<and> length ts \<le> 3"
  using role_based_attempts [OF three_roles_first, of sample_sys flaky] by auto

text \<open>The connection that was in use when the last try failed.\<close>

lemma retry_failed_closes:
  assumes "retry_first_try (tries k (retry conds)) t now = Some t0"
    and "run_tries (retry_next_try sys) op 0 t0 = Some (ec, c, ts)" and "is_error ec"
  shows "c = close_guard True (snd (op (length ts - 1) (last ts)))"
proof -
  note chain = retry_strategy.run_chain [OF assms(2)]
  have "retry_close_policy t0"
    using assms(1)
    by (auto simp: retry_first_try_def tries_def retry_def set_option1_def has_option_def
        retry_close_policy_def get_option_default_read get_option_map_of split: if_splits)
  moreover have "ts \<noteq> []" using chain by blast
  ultimately have "retry_close_policy (last ts)"
    using retry_chain [OF assms(2), of "length ts - 1"] by (simp add: last_conv_nth)
  moreover have "retry_next_try sys (last ts) ec (snd (op (length ts - 1) (last ts))) = (None, c)"
    using chain assms(3) by simp
  ultimately show ?thesis by (auto dest: retry_next_try_None(2))
qed

lemma fallback_failed_closes:
  assumes "role_first_try (role_based roles) t now = Some t0"
    and "run_tries (role_next_try sys) op 0 t0 = Some (ec, c, ts)" and "is_error ec"
  shows "c = close_guard True (snd (op (length ts - 1) (last ts)))"
proof -
  note chain = role_based.run_chain [OF assms(2)]
  have "role_close_policy t0"
    using assms(1) by (auto simp: role_first_try_def role_based_def role_close_policy_def get_option_default_read get_option_map_of split: if_splits)
  moreover have "ts \<noteq> []" using chain by blast
  ultimately have "role_close_policy (last ts)"
    using role_chain [OF assms(2), of "length ts - 1"] by (simp add: last_conv_nth)
  moreover have "role_next_try sys (last ts) ec (snd (op (length ts - 1) (last ts))) = (None, c)"
    using chain assms(3) by simp
  ultimately show ?thesis by (auto dest: role_next_try_None)
qed

text \<open>C40: with the default close policy, of both \<open>retry\<close> and the fallback between roles, the connection is closed also when no further try is
  made: the handler of the failed operation gets the connection of the last try, and it is not open.\<close>

theorem failed_operation_closes_connection:
  assumes "retry_first_try (tries k (retry conds)) t now = Some t0 \<and> run_tries (retry_next_try sys) op 0 t0 = Some (ec, c, ts) \<and>
        r = snd (op (length ts - 1) (last ts)) \<or>
      role_first_try (role_based roles) t now = Some t0' \<and> run_tries (role_next_try sys) op' 0 t0' = Some (ec, c, ts') \<and>
        r = snd (op' (length ts' - 1) (last ts'))"
    and "is_error ec" and "wf_conn r" and "unwrap_connection r = Some conn"
  shows "defer_close_connection (Some r) = Some (Some c) \<and> (\<exists>conn'. unwrap_connection c = Some conn' \<and> \<not> conn_is_open conn')"
proof -
  have "c = close_guard True r"
    using assms(1,2) retry_failed_closes [of k conds t now t0 sys op ec c ts] fallback_failed_closes [of roles t now t0' sys op' ec c ts']
    by blast
  with close_guard_connection(3) [OF assms(3)] close_guard_connection(4) [OF assms(3,4)] show ?thesis by simp
qed

definition one_try :: retry_try where
  "one_try = \<lparr>rt_options = [(op_tries, Tries 1)], rt_time = No_time, rt_events = []\<rparr>"

theorem failed_operation_closes_connection_witness:
  "\<exists>c ts conn'. run_tries (retry_next_try sample_sys) flaky 0 one_try = Some (make_error_code pg_flush_failed, c, ts) \<and>
     unwrap_connection c = Some conn' \<and> \<not> conn_is_open conn'"
proof -
  have first: "retry_first_try (tries 1 (retry [])) No_time 0 = Some one_try"
    by (simp add: retry_first_try_def tries_def retry_def set_option1_def has_option_def deadline_of_def one_try_def)
  have err: "is_error (make_error_code pg_flush_failed)" by (simp add: is_error_def make_error_code_def)
  have "tries_remain one_try = 1" by (simp add: tries_remain_def one_try_def get_option_map_of)
  then have "retry_next_try sample_sys one_try ec conn = (None, close_guard (retry_close_policy one_try) conn)" for ec conn
    by (simp add: retry_next_try_def can_retry_def)
  then have r: "run_tries (retry_next_try sample_sys) flaky 0 one_try =
      Some (make_error_code pg_flush_failed, close_guard (retry_close_policy one_try) (Plain sample_connection), [one_try])"
    by (subst run_tries.simps) (simp add: flaky_def err)
  let ?c = "close_guard (retry_close_policy one_try) (Plain sample_connection)"
  have last: "Plain sample_connection = snd (flaky (length [one_try] - 1) (last [one_try]))" by (simp add: flaky_def)
  have "\<exists>conn'. unwrap_connection ?c = Some conn' \<and> \<not> conn_is_open conn'"
    using failed_operation_closes_connection [OF disjI1 [OF conjI [OF first conjI [OF r last]]] err] by simp
  with r show ?thesis by blast
qed

end
