(* ===== verification/Bozo_Failover_Time.thy ===== *)
theory Bozo_Failover_Time
  imports Bozo_Failover
begin

text \<open>
  The time of an operation under a failover strategy (\<open>failover/retry.h\<close>, \<open>failover/role_based.h\<close>): every try gets its share of
  what the tries before it have left. The locale \<open>timed_strategy\<close> extends \<open>failover_strategy\<close> by what the shares rely on, and
  both strategies interpret it.
\<close>

section \<open>Shares of a deadline\<close>

lemma try_time_share:
  assumes "0 \<le> now" "now \<le> tp" "tp \<le> int64_max" "0 < n"
  shows "get_try_time_constraint (Until tp) n now = Some (Within ((tp - now) div n))"
proof -
  have "time_left tp now = Some (tp - now)"
    using assms by (auto simp: time_left_def checked64_def int64_min_def int64_max_def)
  moreover have "(tp - now) sdiv n = (tp - now) div n"
    using assms by (cases "now = tp") (simp_all add: signed_divide_int_def)
  ultimately show ?thesis using assms(4) by (simp add: get_try_time_constraint_def)
qed

text \<open>A try that keeps to its share leaves at least as much to each of the tries after it.\<close>

lemma share_grows:
  fixes l n n' used :: int
  assumes "0 \<le> l" "0 \<le> used" "used \<le> l div n" "1 \<le> n'" "n' < n"
  shows "l div n \<le> (l - used) div n'"
proof -
  let ?s = "l div n"
  have s: "0 \<le> ?s" using assms by (simp add: pos_imp_zdiv_nonneg_iff)
  have "n * ?s \<le> l" using mult_div_mod_eq [of n l] pos_mod_sign [of n l] assms by linarith
  moreover have "(n' + 1) * ?s \<le> n * ?s" using s assms by (intro mult_right_mono) auto
  ultimately have "?s * n' \<le> l - used" using assms(3) by (simp add: algebra_simps)
  then have "?s * n' div n' \<le> (l - used) div n'" using assms(4) by (intro zdiv_mono1) auto
  then show ?thesis using assms(4) by simp
qed

lemma share_at_most:
  fixes l n :: int
  assumes "0 \<le> l" "1 \<le> n"
  shows "0 \<le> l div n" "l div n \<le> l"
proof -
  show "0 \<le> l div n" using assms by (simp add: pos_imp_zdiv_nonneg_iff)
  have "l div n \<le> l div 1" using assms by (intro zdiv_mono2) auto
  then show "l div n \<le> l" by simp
qed

section \<open>Strategies that divide their time\<close>

text \<open>The \<open>i\<close>-th try starts at \<open>clock i\<close> and is over at \<open>clock (i + 1)\<close>, within the time it was given.\<close>

definition keeps_time :: "('t \<Rightarrow> int \<Rightarrow> time_constraint option) \<Rightarrow> (nat \<Rightarrow> int) \<Rightarrow> 't list \<Rightarrow> bool" where
  "keeps_time try_time clock ts \<longleftrightarrow>
     (\<forall>i < length ts. clock i \<le> clock (Suc i) \<and>
        (case try_time (ts ! i) (clock i) of Some (Within d) \<Rightarrow> clock (Suc i) \<le> clock i + d | _ \<Rightarrow> True))"

lemma keeps_timeD:
  assumes "keeps_time try_time clock ts" "i < length ts"
  shows "clock i \<le> clock (Suc i)" "try_time (ts ! i) (clock i) = Some (Within d) \<Longrightarrow> clock (Suc i) \<le> clock i + d"
  using assms by (auto simp: keeps_time_def split: option.splits time_constraint.splits)

locale timed_strategy = failover_strategy next_try tries_after
  for next_try :: "'t \<Rightarrow> error_code \<Rightarrow> conn_ref \<Rightarrow> 't option \<times> conn_ref" and tries_after :: "'t \<Rightarrow> nat" +
  fixes tries_of :: "'t \<Rightarrow> int" and time_of :: "'t \<Rightarrow> time_constraint" and try_time :: "'t \<Rightarrow> int \<Rightarrow> time_constraint option"
  assumes try_time: "try_time t now = get_try_time_constraint (time_of t) (tries_of t) now"
    and next_tries: "fst (next_try t ec c) = Some t' \<Longrightarrow> 1 \<le> tries_of t' \<and> tries_of t' < tries_of t \<and> time_of t' = time_of t"
begin

lemma run_time:
  assumes run: "run_tries next_try op 0 t = Some (ec, c, ts)" and t: "time_of t = Until tp" "1 \<le> tries_of t"
    and clock: "0 \<le> clock 0" "clock 0 \<le> tp" "tp \<le> int64_max" "keeps_time try_time clock ts"
    and i: "i < length ts"
  shows "time_of (ts ! i) = Until tp \<and> 1 \<le> tries_of (ts ! i) \<and> 0 \<le> clock i \<and> clock (Suc i) \<le> tp \<and> clock i \<le> tp \<and>
     (tp - clock 0) div tries_of t \<le> (tp - clock i) div tries_of (ts ! i)"
  using i
proof (induction i)
  case 0
  have t0: "ts ! 0 = t" using run_chain [OF run] by simp
  have "try_time t (clock 0) = Some (Within ((tp - clock 0) div tries_of t))"
    unfolding try_time t using clock t(2) by (intro try_time_share) auto
  then have "clock (Suc 0) \<le> clock 0 + (tp - clock 0) div tries_of t" using keeps_timeD(2) [OF clock(4) 0] t0 by simp
  with share_at_most [of "tp - clock 0" "tries_of t"] show ?case using t t0 clock by auto
next
  case (Suc i)
  then have IH: "time_of (ts ! i) = Until tp" "1 \<le> tries_of (ts ! i)" "0 \<le> clock i" "clock (Suc i) \<le> tp" "clock i \<le> tp"
      "(tp - clock 0) div tries_of t \<le> (tp - clock i) div tries_of (ts ! i)" and i: "i < length ts" by auto
  let ?n = "tries_of (ts ! Suc i)"
  have "fst (next_try (ts ! i) (fst (op (0 + i) (ts ! i))) (snd (op (0 + i) (ts ! i)))) = Some (ts ! Suc i)"
    using run_chain [OF run] Suc.prems by blast
  from next_tries [OF this] IH have n: "1 \<le> ?n" "?n < tries_of (ts ! i)" "time_of (ts ! Suc i) = Until tp" by auto
  note le = keeps_timeD(1) [OF clock(4) i] keeps_timeD(1) [OF clock(4) Suc.prems]
  have "try_time (ts ! i) (clock i) = Some (Within ((tp - clock i) div tries_of (ts ! i)))"
    unfolding try_time IH(1) using IH clock by (intro try_time_share) auto
  from keeps_timeD(2) [OF clock(4) i this]
  have "(tp - clock 0) div tries_of t \<le> (tp - clock (Suc i)) div ?n"
    using share_grows [of "tp - clock i" "clock (Suc i) - clock i" "tries_of (ts ! i)" ?n] IH n le by simp
  moreover have "try_time (ts ! Suc i) (clock (Suc i)) = Some (Within ((tp - clock (Suc i)) div ?n))"
    unfolding try_time n(3) using IH n le clock by (intro try_time_share) auto
  from keeps_timeD(2) [OF clock(4) Suc.prems this]
  have "clock (Suc (Suc i)) \<le> clock (Suc i) + (tp - clock (Suc i)) div ?n" .
  ultimately show ?case using share_at_most [of "tp - clock (Suc i)" ?n] IH n le by auto
qed

text \<open>All tries together keep to the deadline, and none of them gets less than an equal share of the whole time.\<close>

lemma run_within_deadline:
  assumes run: "run_tries next_try op 0 t = Some (ec, c, ts)" and t: "time_of t = Until tp" "1 \<le> tries_of t"
    and clock: "0 \<le> clock 0" "clock 0 \<le> tp" "tp \<le> int64_max" "keeps_time try_time clock ts"
  shows "clock (length ts) \<le> tp \<and>
     (\<forall>i < length ts. \<exists>d. try_time (ts ! i) (clock i) = Some (Within d) \<and>
        (tp - clock 0) div tries_of t \<le> d \<and> clock i + d \<le> tp)"
proof -
  note time = run_time [OF assms]
  have "ts \<noteq> []" using run_chain [OF run] by blast
  then obtain k where "length ts = Suc k" by (cases ts) auto
  then have "clock (length ts) \<le> tp" using time [of k] by simp
  moreover have "\<exists>d. try_time (ts ! i) (clock i) = Some (Within d) \<and>
        (tp - clock 0) div tries_of t \<le> d \<and> clock i + d \<le> tp" if "i < length ts" for i
    using time [OF that] share_at_most [of "tp - clock i" "tries_of (ts ! i)"] clock(3) try_time_share [of "clock i" tp "tries_of (ts ! i)"]
    by (auto simp: try_time)
  ultimately show ?thesis by blast
qed

end

section \<open>The strategies of the library\<close>

interpretation retry_time: timed_strategy "retry_next_try sys" "\<lambda>t. nat (tries_remain t - 1)" tries_remain rt_time retry_time_constraint for sys
proof
  fix t ec c t' assume "fst (retry_next_try sys t ec c) = Some t'"
  from retry_next_try_Some [OF this]
  show "1 \<le> tries_remain t' \<and> tries_remain t' < tries_remain t \<and> rt_time t' = rt_time t" by simp
qed (simp add: retry_time_constraint_def)

interpretation role_time: timed_strategy "role_next_try sys" "\<lambda>t. tries_left t - 1" "\<lambda>t. int (tries_left t)" rb_time role_time_constraint for sys
proof
  fix t ec c t' assume "fst (role_next_try sys t ec c) = Some t'"
  from role_next_try_Some [OF this]
  show "1 \<le> int (tries_left t') \<and> int (tries_left t') < int (tries_left t) \<and> rb_time t' = rb_time t" by (auto simp: tries_left_def)
qed (simp add: role_time_constraint_def)

text \<open>An operation with a time constraint under \<open>retry(conditions)*k\<close> keeps to its deadline as long as every try keeps to the time it was
  given: it returns, the last try is over by the deadline, every try gets a share that is not negative and ends by the deadline, and no
  try gets less than the \<open>k\<close>-th part of the whole time, however long the tries before it took.\<close>

theorem retry_keeps_deadline:
  assumes "1 \<le> k" and "retry_first_try (tries k (retry conds)) t now = Some t0" and "deadline_of t now = Some (Until tp)"
    and "0 \<le> clock 0" and "clock 0 \<le> tp" and "tp \<le> int64_max"
  shows "\<exists>ec c ts. run_tries (retry_next_try sys) op 0 t0 = Some (ec, c, ts) \<and>
     (keeps_time retry_time_constraint clock ts \<longrightarrow>
        clock (length ts) \<le> tp \<and>
        (\<forall>i < length ts. \<exists>d. retry_time_constraint (ts ! i) (clock i) = Some (Within d) \<and>
           0 \<le> d \<and> (tp - clock 0) div k \<le> d \<and> clock i + d \<le> tp))"
proof -
  have t0: "tries_remain t0 = k" "rt_time t0 = Until tp"
    using assms(2,3)
    by (auto simp: retry_first_try_def tries_def retry_def set_option1_def has_option_def tries_remain_def
        get_option_map_of split: if_splits)
  obtain ec c ts where run: "run_tries (retry_next_try sys) op 0 t0 = Some (ec, c, ts)"
    using retry_strategy.run_returns by blast
  have "0 \<le> (tp - clock 0) div k" using share_at_most(1) assms(1,5) by simp
  with retry_time.run_within_deadline [OF run t0(2), of clock] assms(1,4-6) t0(1) run show ?thesis by fastforce
qed

definition twice_sample :: retry_try where
  "twice_sample = \<lparr>rt_options = [(op_tries, Tries 2)], rt_time = Until 1000, rt_events = []\<rparr>"

definition sample_clock :: "nat \<Rightarrow> int" where
  "sample_clock i = (if i = 0 then 100 else if i = 1 then 500 else 1000)"

lemma twice_sample_run:
  "run_tries (retry_next_try sample_sys) flaky 0 twice_sample =
     Some (make_error_code pg_flush_failed, close_guard True (Plain sample_connection), [twice_sample, adjust_tries_remain twice_sample])"
proof -
  have err: "is_error (make_error_code pg_flush_failed)" by (simp add: is_error_def make_error_code_def)
  have rem: "tries_remain twice_sample = 2" "get_conditions twice_sample = []" "retry_close_policy twice_sample"
    by (simp_all add: twice_sample_def tries_remain_def get_conditions_def retry_close_policy_def get_option_default_read get_option_map_of)
  then have "retry_next_try sample_sys twice_sample ec c = (Some (adjust_tries_remain twice_sample), close_guard True c)"
    and "retry_next_try sample_sys (adjust_tries_remain twice_sample) ec c = (None, close_guard True c)" for ec c
    by (simp_all add: retry_next_try_def can_retry_def has_option_def) (simp add: adjust_tries_remain_def twice_sample_def)
  then show ?thesis
    by (subst run_tries.simps, subst run_tries.simps) (simp add: flaky_def err)
qed

theorem retry_keeps_deadline_witness:
  "sample_clock 2 \<le> 1000 \<and> (\<exists>d. retry_time_constraint twice_sample (sample_clock 0) = Some (Within d) \<and> 450 \<le> d)"
proof -
  have first: "retry_first_try (tries 2 (retry [])) (Until 1000) 0 = Some twice_sample" "deadline_of (Until 1000) 0 = Some (Until 1000)"
    by (simp_all add: retry_first_try_def tries_def retry_def set_option1_def has_option_def deadline_of_def twice_sample_def)
  have rem: "tries_remain twice_sample = 2" "rt_time twice_sample = Until 1000"
    by (simp_all add: twice_sample_def tries_remain_def get_option_map_of)
  have "retry_time_constraint twice_sample 100 = Some (Within 450)"
    "retry_time_constraint (adjust_tries_remain twice_sample) 500 = Some (Within 500)"
    using try_time_share [of 100 1000 2] try_time_share [of 500 1000 1] by (simp_all add: retry_time_constraint_def rem int64_max_def)
  then have kept: "keeps_time retry_time_constraint sample_clock [twice_sample, adjust_tries_remain twice_sample]"
    by (simp add: keeps_time_def sample_clock_def less_Suc_eq numeral_2_eq_2 all_conj_distrib)
  have "\<exists>ec c ts. run_tries (retry_next_try sample_sys) flaky 0 twice_sample = Some (ec, c, ts) \<and>
     (keeps_time retry_time_constraint sample_clock ts \<longrightarrow>
        sample_clock (length ts) \<le> 1000 \<and>
        (\<forall>i < length ts. \<exists>d. retry_time_constraint (ts ! i) (sample_clock i) = Some (Within d) \<and>
           0 \<le> d \<and> (1000 - sample_clock 0) div 2 \<le> d \<and> sample_clock i + d \<le> 1000))"
    by (rule retry_keeps_deadline [OF _ first]) (simp_all add: sample_clock_def int64_max_def)
  then have "sample_clock 2 \<le> 1000 \<and> (\<exists>d. retry_time_constraint twice_sample (sample_clock 0) = Some (Within d) \<and>
      (1000 - sample_clock 0) div 2 \<le> d)"
    using kept by (auto simp: twice_sample_run numeral_2_eq_2)
  then show ?thesis by (simp add: sample_clock_def)
qed

text \<open>The same for a fallback between roles: skipped roles leave their share to the ones that are tried.\<close>

lemma role_based_keeps_deadline:
  assumes "role_first_try (role_based roles) t now = Some t0" and "deadline_of t now = Some (Until tp)"
    and "0 \<le> clock 0" and "clock 0 \<le> tp" and "tp \<le> int64_max"
  shows "\<exists>ec c ts. run_tries (role_next_try sys) op 0 t0 = Some (ec, c, ts) \<and>
     (keeps_time role_time_constraint clock ts \<longrightarrow>
        clock (length ts) \<le> tp \<and>
        (\<forall>i < length ts. \<exists>d. role_time_constraint (ts ! i) (clock i) = Some (Within d) \<and>
           (tp - clock 0) div int (length roles) \<le> d \<and> clock i + d \<le> tp))"
proof -
  have t0: "tries_left t0 = length roles" "rb_time t0 = Until tp" "1 \<le> int (tries_left t0)"
    using assms(1,2)
    by (cases roles; auto simp: role_first_try_def role_based_def has_option_def tries_left_def roles_seq_def get_option_map_of
        split: if_splits)+
  obtain ec c ts where run: "run_tries (role_next_try sys) op 0 t0 = Some (ec, c, ts)"
    using role_based.run_returns by blast
  with role_time.run_within_deadline [OF run t0(2,3), of clock] assms(3-5) t0(1) show ?thesis by auto
qed

end
