(* ===== verification/Bozo_Failover_Execute.thy ===== *)
theory Bozo_Failover_Execute
  imports Bozo_Failover_Time Bozo_Transaction
begin

text \<open>
  \<open>execute[strategy](provider, query, t)\<close>: the failover framework of \<open>failover/strategy.h\<close> around the execution of a statement, for \<open>retry\<close> and for the
  fallback between roles. Every try asks the provider of its context again, within the time it was given. What the event loop
  brings, and the readings of the clock, are those of the try: \<open>w n\<close>, \<open>clock n\<close> when the try is made, \<open>asked n\<close> for the two deadlines of the
  execution, both of which the call that makes the try computes, before anything is awaited. The locale \<open>executed_strategy\<close> extends \<open>timed_strategy\<close> by the contexts of the tries.
\<close>

section \<open>The operation and its tries\<close>

text \<open>The arguments of the operation: \<open>basic_try::get_context\<close> of \<open>retry\<close>, and \<open>role_based_try::get_context\<close>, which rebinds the provider to the role of
  the try; the provider calls the source of that role.\<close>

type_synonym 'src try_context = "'src provider \<times> time_constraint \<times> string"

definition retry_context :: "'src provider \<Rightarrow> string \<Rightarrow> retry_try \<Rightarrow> int \<Rightarrow> 'src try_context option" where
  "retry_context p q t now = map_option (\<lambda>tc. (p, tc, q)) (retry_time_constraint t now)"

definition role_based_connection_provider :: "'src role_based_source \<Rightarrow> 'src provider option" where
  "role_based_connection_provider s = map_option Connection_provider (role_source s)"

definition role_context :: "'src role_based_source \<Rightarrow> string \<Rightarrow> role_try \<Rightarrow> int \<Rightarrow> 'src try_context option" where
  "role_context s q t now =
     Option.bind (Option.bind (rebind_role s (try_role t)) role_based_connection_provider)
       (\<lambda>p. map_option (\<lambda>tc. (p, tc, q)) (role_time_constraint t now))"

definition initiate_operation ::
  "('t \<Rightarrow> int \<Rightarrow> 'src try_context option) \<Rightarrow> 'src world \<Rightarrow> 't \<Rightarrow> int \<Rightarrow> int \<times> int \<Rightarrow> (error_code \<times> conn_ref) option" where
  "initiate_operation get_try_context w t now readings =
     Option.bind (get_try_context t now) (\<lambda>(p, tc, q). execute_statement w p q tc readings)"

text \<open>What the continuation of a try is called with. An execution that is undefined is given some completion here, and shown not to
  occur.\<close>

definition try_completion ::
  "('t \<Rightarrow> int \<Rightarrow> 'src try_context option) \<Rightarrow> (nat \<Rightarrow> 'src world) \<Rightarrow> (nat \<Rightarrow> int) \<Rightarrow> (nat \<Rightarrow> int \<times> int) \<Rightarrow> nat \<Rightarrow> 't \<Rightarrow> error_code \<times> conn_ref" where
  "try_completion get_try_context w clock asked n t =
     (case initiate_operation get_try_context (w n) t (clock n) (asked n) of Some r \<Rightarrow> r | None \<Rightarrow> (no_error, Ptr None))"

definition operation_initiator ::
  "'t option \<Rightarrow> ('t \<Rightarrow> error_code \<Rightarrow> conn_ref \<Rightarrow> 't option \<times> conn_ref) \<Rightarrow> ('t \<Rightarrow> int \<Rightarrow> 'src try_context option) \<Rightarrow>
   (nat \<Rightarrow> 'src world) \<Rightarrow> (nat \<Rightarrow> int) \<Rightarrow> (nat \<Rightarrow> int \<times> int) \<Rightarrow> (error_code \<times> conn_ref \<times> 't list) option" where
  "operation_initiator first_try next_try get_try_context w clock asked =
     Option.bind first_try (\<lambda>t0. run_tries next_try (try_completion get_try_context w clock asked) 0 t0)"

section \<open>Strategies that execute\<close>

lemma retry_first_tries:
  assumes "deadline_of t now = Some dl"
  shows "\<exists>t0. retry_first_try (tries k (retry conds)) t now = Some t0 \<and> tries_remain t0 = k \<and> rt_time t0 = dl"
  using assms
  by (simp add: retry_first_try_def tries_def retry_def set_option1_def has_option_def tries_remain_def get_option_map_of)

lemma role_first_tries:
  assumes "deadline_of t now = Some dl" "roles \<noteq> []"
  shows "\<exists>t0. role_first_try (role_based roles) t now = Some t0 \<and> roles_seq t0 = roles \<and> rb_idx t0 = 0 \<and> rb_time t0 = dl"
  using assms by (simp add: role_first_try_def role_based_def roles_seq_def get_option_map_of)

text \<open>The documented contract of a source: without an error there is a connection.\<close>

definition source_ok :: "'src world \<Rightarrow> 'src \<Rightarrow> bool" where
  "source_ok w src \<longleftrightarrow> (\<forall>t. is_error (fst (w_source w src t)) \<or> unwrap_connection (snd (w_source w src t)) \<noteq> None)"

text \<open>A try asks the source with the deadline \<open>dl\<close>, and executes the statement once with the deadline \<open>dl'\<close>, if it got a connection.\<close>

definition executed_within :: "'src world \<Rightarrow> 'src \<Rightarrow> string \<Rightarrow> int \<Rightarrow> int \<Rightarrow> error_code \<times> conn_ref \<Rightarrow> bool" where
  "executed_within w src q dl dl' outcome \<longleftrightarrow>
     (case w_source w src (Until dl) of (ec, r) \<Rightarrow>
        if is_error ec then outcome = (ec, r)
        else \<exists>c c'. unwrap_connection r = Some c \<and> w_request w q (Until dl') c = (fst outcome, c') \<and>
               snd outcome = update_connection (\<lambda>_. c') r)"

text \<open>Both readings of the clock for the deadlines are made in the call that makes the try, which takes at most \<open>e\<close>.\<close>

definition read_at_start :: "int \<Rightarrow> int \<Rightarrow> int \<times> int \<Rightarrow> bool" where
  "read_at_start e now readings \<longleftrightarrow> fst readings \<in> {now..now + e} \<and> snd readings \<in> {now..now + e}"

lemma deadline_exact: "0 \<le> now \<Longrightarrow> 0 \<le> d \<Longrightarrow> now + d \<le> int64_max \<Longrightarrow> deadline d now = Some (now + d)"
  by (simp add: deadline_def checked64_def int64_min_def int64_max_def)

lemma initiate_operation_executes:
  assumes "source_ok w src" "get_try_context t now = Some (Connection_provider src, Within d, q)" "read_at_start e now readings"
    and "0 \<le> now" "0 \<le> d" "now + d + e \<le> int64_max"
  shows "\<exists>dl dl' outcome. initiate_operation get_try_context w t now readings = Some outcome \<and>
     executed_within w src q dl dl' outcome \<and> dl \<in> {now + d..now + d + e} \<and> dl' \<in> {now + d..now + d + e}"
proof -
  have dl: "deadline d (fst readings) = Some (fst readings + d)" "deadline d (snd readings) = Some (snd readings + d)"
    using assms(3-6) by (auto simp: read_at_start_def intro!: deadline_exact)
  obtain ec r where src: "w_source w src (Until (fst readings + d)) = (ec, r)" by fastforce
  have "is_error ec \<or> (\<exists>c. unwrap_connection r = Some c)"
    using assms(1) src by (metis source_ok_def fst_conv snd_conv not_None_eq)
  then have "\<exists>outcome. initiate_operation get_try_context w t now readings = Some outcome \<and>
      executed_within w src q (fst readings + d) (snd readings + d) outcome"
    using assms(2) dl src
    by (auto simp: initiate_operation_def execute_statement_def get_connection_def deadline_of_def
        executed_within_def split: prod.splits)
  then show ?thesis using assms(3) by (fastforce simp: read_at_start_def)
qed

text \<open>The tries of a run whose contexts lead to sources, each try to its own.\<close>

locale executed_strategy = timed_strategy next_try tries_after tries_of time_of try_time
  for next_try :: "'t \<Rightarrow> error_code \<Rightarrow> conn_ref \<Rightarrow> 't option \<times> conn_ref" and tries_after :: "'t \<Rightarrow> nat"
    and tries_of :: "'t \<Rightarrow> int" and time_of :: "'t \<Rightarrow> time_constraint" and try_time :: "'t \<Rightarrow> int \<Rightarrow> time_constraint option" +
  fixes get_try_context :: "'t \<Rightarrow> int \<Rightarrow> 'src try_context option" and supported :: "'t \<Rightarrow> bool" and source_of :: "'t \<Rightarrow> 'src" and q :: string
  assumes try_context: "supported t \<Longrightarrow> get_try_context t now = map_option (\<lambda>tc. (Connection_provider (source_of t), tc, q)) (try_time t now)"
    and next_supported: "supported t \<Longrightarrow> fst (next_try t ec c) = Some t' \<Longrightarrow> supported t'"
begin

lemma run_supported:
  assumes "run_tries next_try op 0 t = Some (ec, c, ts)" "supported t" "i < length ts"
  shows "supported (ts ! i)"
  using assms(3)
proof (induction i)
  case 0
  then show ?case using run_chain [OF assms(1)] assms(2) by simp
next
  case (Suc i)
  then show ?case using run_chain [OF assms(1)] next_supported by (metis Suc_lessD add_0)
qed

lemma run_executes:
  assumes "first_try = Some t" and t: "time_of t = Until tp" "1 \<le> tries_of t" "supported t"
    and clock: "0 \<le> clock 0" "clock 0 \<le> tp" "0 \<le> e" "tp + e \<le> int64_max" "\<forall>n. read_at_start e (clock n) (asked n)"
    and sources: "\<forall>n t. supported t \<longrightarrow> source_ok (w n) (source_of t)"
  shows "\<exists>ec c ts. operation_initiator first_try next_try get_try_context w clock asked = Some (ec, c, ts) \<and>
     ts \<noteq> [] \<and> length ts \<le> Suc (tries_after t) \<and>
     ec = fst (try_completion get_try_context w clock asked (length ts - 1) (last ts)) \<and>
     (keeps_time try_time clock ts \<longrightarrow>
        (\<forall>i < length ts. \<exists>dl dl' outcome.
           initiate_operation get_try_context (w i) (ts ! i) (clock i) (asked i) = Some outcome \<and>
           executed_within (w i) (source_of (ts ! i)) q dl dl' outcome \<and>
           dl \<in> {clock i + (tp - clock 0) div tries_of t..tp + e} \<and> dl' \<in> {clock i + (tp - clock 0) div tries_of t..tp + e}))"
proof -
  let ?op = "try_completion get_try_context w clock asked" and ?share = "(tp - clock 0) div tries_of t"
  obtain ec c ts where run: "run_tries next_try ?op 0 t = Some (ec, c, ts)" and len: "length ts \<le> Suc (tries_after t)"
    using run_returns by blast
  have "\<exists>dl dl' outcome. initiate_operation get_try_context (w i) (ts ! i) (clock i) (asked i) = Some outcome \<and>
      executed_within (w i) (source_of (ts ! i)) q dl dl' outcome \<and>
      dl \<in> {clock i + ?share..tp + e} \<and> dl' \<in> {clock i + ?share..tp + e}"
    if "keeps_time try_time clock ts" "i < length ts" for i
  proof -
    have sup: "supported (ts ! i)" by (rule run_supported [OF run t(3) that(2)])
    have tp: "tp \<le> int64_max" using clock(3,4) by simp
    have pos: "0 \<le> clock i" "0 \<le> ?share"
      using run_time [OF run t(1,2) clock(1,2) tp that] share_at_most(1) [of "tp - clock 0" "tries_of t"] clock(2) t(2) by auto
    from run_within_deadline [OF run t(1,2) clock(1,2) tp that(1)] that(2)
    obtain d where d: "try_time (ts ! i) (clock i) = Some (Within d)" "?share \<le> d" "clock i + d \<le> tp" by blast
    have ctx: "get_try_context (ts ! i) (clock i) = Some (Connection_provider (source_of (ts ! i)), Within d, q)"
      using try_context [OF sup] d(1) by simp
    have r: "0 \<le> d" "clock i + d + e \<le> int64_max" using pos d clock(4) by linarith+
    obtain dl dl' outcome where o: "initiate_operation get_try_context (w i) (ts ! i) (clock i) (asked i) = Some outcome"
        "executed_within (w i) (source_of (ts ! i)) q dl dl' outcome" "dl \<in> {clock i + d..clock i + d + e}" "dl' \<in> {clock i + d..clock i + d + e}"
      using initiate_operation_executes [of "w i" "source_of (ts ! i)" get_try_context, OF _ ctx _ pos(1) r, of "asked i"]
        sup sources clock(5) by blast
    have "clock i + ?share \<le> dl" "dl \<le> tp + e" "clock i + ?share \<le> dl'" "dl' \<le> tp + e" using o(3,4) d by auto
    with o(1,2) show ?thesis by (intro exI [of _ dl] exI [of _ dl'] exI [of _ outcome]) simp
  qed
  moreover have "ts \<noteq> []" "ec = fst (?op (length ts - 1) (last ts))" using run_chain [OF run] by simp_all
  ultimately show ?thesis using run len assms(1) by (auto simp: operation_initiator_def)
qed

end

interpretation retry_execute: executed_strategy "retry_next_try sys" "\<lambda>t. nat (tries_remain t - 1)" tries_remain rt_time retry_time_constraint
    "retry_context (Connection_provider src) q" "\<lambda>_. True" "\<lambda>_. src" q for sys src q
  by unfold_locales (simp_all add: retry_context_def)

definition roles_supported :: "'src role_based_source \<Rightarrow> role list \<Rightarrow> role_try \<Rightarrow> bool" where
  "roles_supported s roles t \<longleftrightarrow> roles_seq t = roles \<and> rb_idx t < length roles \<and> (\<forall>r \<in> set roles. rs_sources s r \<noteq> None)"

lemma roles_supported_role:
  "roles_supported s roles t \<Longrightarrow> try_role t \<in> set roles \<and> rs_sources s (try_role t) \<noteq> None"
  by (auto simp: roles_supported_def try_role_def)

interpretation role_execute: executed_strategy "role_next_try sys" "\<lambda>t. tries_left t - 1" "\<lambda>t. int (tries_left t)" rb_time role_time_constraint
    "role_context s q" "roles_supported s roles" "\<lambda>t. the (rs_sources s (try_role t))" q for sys s roles q
proof
  fix t now assume "roles_supported s roles t"
  from roles_supported_role [OF this] show "role_context s q t now =
      map_option (\<lambda>tc. (Connection_provider (the (rs_sources s (try_role t))), tc, q)) (role_time_constraint t now)"
    by (auto simp: role_context_def role_based_connection_provider_def rebind_role_def role_source_def)
next
  fix t ec c t' assume "roles_supported s roles t" "fst (role_next_try sys t ec c) = Some t'"
  with role_next_try_Some [OF this(2)] show "roles_supported s roles t'" by (simp add: roles_supported_def)
qed

section \<open>Correctness\<close>

text \<open>C16: a statement executed under \<open>retry(conditions)*k\<close> with a time constraint: the operation completes after at most \<open>k\<close> tries, with the
  outcome of the last one. If the tries keep to the time they are given, then every one of them asked the source for a connection of its own and
  executed the statement once on it, or failed with the error of the source. The deadline it gave to the source and the one it gave to
  the statement both leave it at least the \<open>k\<close>-th part of the whole time, and are both over by the deadline \<open>tp\<close> of the operation, but for the
  time \<open>e\<close> that the call which makes a try takes to compute them.\<close>

theorem execute_under_retry:
  assumes "1 \<le> k" and "deadline_of t now = Some (Until tp)" and "0 \<le> clock 0" and "clock 0 \<le> tp" and "0 \<le> e" and "tp + e \<le> int64_max"
    and "\<forall>n. source_ok (w n) src" and "\<forall>n. read_at_start e (clock n) (asked n)"
  shows "\<exists>ec c ts. operation_initiator (retry_first_try (tries k (retry conds)) t now) (retry_next_try sys)
       (retry_context (Connection_provider src) q) w clock asked = Some (ec, c, ts) \<and>
     ts \<noteq> [] \<and> int (length ts) \<le> k \<and>
     ec = fst (try_completion (retry_context (Connection_provider src) q) w clock asked (length ts - 1) (last ts)) \<and>
     (keeps_time retry_time_constraint clock ts \<longrightarrow>
        (\<forall>i < length ts. \<exists>dl dl' outcome.
           initiate_operation (retry_context (Connection_provider src) q) (w i) (ts ! i) (clock i) (asked i) = Some outcome \<and>
           executed_within (w i) src q dl dl' outcome \<and>
           dl \<in> {clock i + (tp - clock 0) div k..tp + e} \<and> dl' \<in> {clock i + (tp - clock 0) div k..tp + e}))"
proof -
  obtain t0 where t0: "retry_first_try (tries k (retry conds)) t now = Some t0" "tries_remain t0 = k" "rt_time t0 = Until tp"
    using retry_first_tries [OF assms(2)] by blast
  have "1 \<le> tries_remain t0" "\<forall>n t. True \<longrightarrow> source_ok (w n) src" using assms(1,7) t0(2) by simp_all
  note run = retry_execute.run_executes [OF t0(1,3) this(1) TrueI assms(3-6,8) this(2), of sys q, unfolded t0(2)]
  have "Suc (nat (k - 1)) = nat k" "0 \<le> k" using assms(1) by simp_all
  with run show ?thesis by (simp add: le_nat_iff)
qed

lemma sample_reads: "read_at_start 5 (sample_clock n) (sample_clock n + 1, sample_clock n + 2)"
  by (simp add: read_at_start_def)

lemma sample_times: "deadline_of (Until 1000) 0 = Some (Until 1000)" "0 \<le> sample_clock 0" "sample_clock 0 \<le> 1000" "(0::int) \<le> 5"
    "1000 + 5 \<le> int64_max"
  by (simp_all add: deadline_of_def sample_clock_def int64_max_def)

lemma sample_source: "source_ok sample_world ''db''"
  by (simp add: source_ok_def sample_world_def)

theorem execute_under_retry_witness:
  "\<exists>ec c ts. operation_initiator (retry_first_try (tries 2 (retry [])) (Until 1000) 0) (retry_next_try sample_sys)
     (retry_context (Connection_provider ''db'') ''SELECT 1'') (\<lambda>_. sample_world) sample_clock (\<lambda>n. (sample_clock n + 1, sample_clock n + 2)) =
     Some (ec, c, ts) \<and> ts \<noteq> [] \<and> int (length ts) \<le> 2"
  using execute_under_retry [where k = 2 and clock = sample_clock, OF _ sample_times, of "\<lambda>_. sample_world" "''db''"
      "\<lambda>n. (sample_clock n + 1, sample_clock n + 2)" "[]" sample_sys "''SELECT 1''"] sample_reads sample_source
  by auto

text \<open>C17: a statement executed with a fallback over \<open>n\<close> roles, all of which the role based source knows, and with a time constraint: the operation completes after at
  most \<open>n\<close> tries, with the outcome of the last one. If the tries keep to the time they are given, then every one of them executed the
  statement once on a connection from the source of its own role, or failed with the error of that source. The deadline it gave to the source and
  the one it gave to the statement both leave it at least the \<open>n\<close>-th part of the whole time, and are both over by the deadline \<open>tp\<close> of the operation, but
  for the time \<open>e\<close> that the call which makes a try takes to compute them.\<close>

theorem execute_under_fallback:
  assumes "roles \<noteq> []" and "\<forall>r \<in> set roles. \<exists>src. rs_sources s r = Some src \<and> (\<forall>n. source_ok (w n) src)"
    and "deadline_of t now = Some (Until tp)" and "0 \<le> clock 0" and "clock 0 \<le> tp" and "0 \<le> e" and "tp + e \<le> int64_max"
    and "\<forall>n. read_at_start e (clock n) (asked n)"
  shows "\<exists>ec c ts. operation_initiator (role_first_try (role_based roles) t now) (role_next_try sys) (role_context s q) w clock asked =
       Some (ec, c, ts) \<and>
     ts \<noteq> [] \<and> length ts \<le> length roles \<and> ec = fst (try_completion (role_context s q) w clock asked (length ts - 1) (last ts)) \<and>
     (keeps_time role_time_constraint clock ts \<longrightarrow>
        (\<forall>i < length ts. \<exists>dl dl' outcome src. try_role (ts ! i) \<in> set roles \<and> rs_sources s (try_role (ts ! i)) = Some src \<and>
           initiate_operation (role_context s q) (w i) (ts ! i) (clock i) (asked i) = Some outcome \<and>
           executed_within (w i) src q dl dl' outcome \<and>
           dl \<in> {clock i + (tp - clock 0) div int (length roles)..tp + e} \<and>
           dl' \<in> {clock i + (tp - clock 0) div int (length roles)..tp + e}))"
proof -
  obtain t0 where t0: "role_first_try (role_based roles) t now = Some t0" "roles_seq t0 = roles" "rb_idx t0 = 0" "rb_time t0 = Until tp"
    using role_first_tries [OF assms(3,1)] by blast
  have sup: "roles_supported s roles t0" using t0 assms(1,2) by (auto simp: roles_supported_def)
  have len: "tries_left t0 = length roles" "0 < length roles" using t0 assms(1) by (simp_all add: tries_left_def)
  have "source_ok (w n) (the (rs_sources s (try_role t)))" if "roles_supported s roles t" for n t
    using roles_supported_role [OF that] assms(2) by force
  then have src: "\<forall>n t. roles_supported s roles t \<longrightarrow> source_ok (w n) (the (rs_sources s (try_role t)))" by blast
  have "1 \<le> int (tries_left t0)" "Suc (tries_left t0 - 1) = length roles" using len by linarith+
  from role_execute.run_executes [OF t0(1,4) this(1) sup assms(4-8) src, of sys q, unfolded this(2), unfolded len(1)]
  obtain ec c ts where r: "operation_initiator (role_first_try (role_based roles) t now) (role_next_try sys) (role_context s q) w clock asked =
       Some (ec, c, ts)" "ts \<noteq> []" "length ts \<le> length roles" "ec = fst (try_completion (role_context s q) w clock asked (length ts - 1) (last ts))"
    "keeps_time role_time_constraint clock ts \<Longrightarrow> \<forall>i < length ts. \<exists>dl dl' outcome.
           initiate_operation (role_context s q) (w i) (ts ! i) (clock i) (asked i) = Some outcome \<and>
           executed_within (w i) (the (rs_sources s (try_role (ts ! i)))) q dl dl' outcome \<and>
           dl \<in> {clock i + (tp - clock 0) div int (length roles)..tp + e} \<and>
           dl' \<in> {clock i + (tp - clock 0) div int (length roles)..tp + e}"
    by blast
  have "run_tries (role_next_try sys) (try_completion (role_context s q) w clock asked) 0 t0 = Some (ec, c, ts)"
    using r(1) t0(1) by (simp add: operation_initiator_def)
  from role_execute.run_supported [OF this sup] roles_supported_role
  have "try_role (ts ! i) \<in> set roles \<and> (\<exists>src. rs_sources s (try_role (ts ! i)) = Some src)" if "i < length ts" for i
    using that by blast
  with r show ?thesis by (metis option.sel)
qed

theorem execute_under_fallback_witness:
  "\<exists>ec c ts. operation_initiator (role_first_try (role_based [master, replica]) (Until 1000) 0) (role_next_try sample_sys)
     (role_context \<lparr>rs_sources = \<lambda>_. Some ''db'', rs_role = master\<rparr> ''SELECT 1'') (\<lambda>_. sample_world) sample_clock
     (\<lambda>n. (sample_clock n + 1, sample_clock n + 2)) = Some (ec, c, ts) \<and> ts \<noteq> [] \<and> length ts \<le> 2"
  using execute_under_fallback [of "[master, replica]" "\<lparr>rs_sources = \<lambda>_. Some ''db'', rs_role = master\<rparr>" "\<lambda>_. sample_world"
      _ _ _ sample_clock, OF _ _ sample_times, of "\<lambda>n. (sample_clock n + 1, sample_clock n + 2)" sample_sys "''SELECT 1''"] sample_reads sample_source
  by auto

end
