(* ===== verification/Bozo_Wire_Safety.thy ===== *)
theory Bozo_Wire_Safety
  imports Bozo_Wire "HOL-Library.Sublist"
begin

text \<open>
  What receiving does with data that is not what \<open>send\<close> wrote: a truncated representation is
  reported as \<open>unexpected_eof\<close> at whatever byte it was cut, and whatever is accepted is a value of
  the type, read from a prefix of the data.
\<close>

section \<open>Truncated data\<close>

abbreviation eof_error :: exn where
  "eof_error \<equiv> System_error unexpected_eof"

lemma is_buf_make [simp]: "is_buf (make_istream bs) = bs"
  by (simp add: make_istream_def)

lemma read_word_cut:
  assumes "8 dvd LENGTH('a)"
  shows "checked (istream_read_int native (make_istream (take k (be_bytes (w :: 'a::len word) @ rest)))) =
     (if k < sizeof w then Inl eof_error else Inr (w, make_istream (take (k - sizeof w) rest)))"
proof (cases "k < sizeof w")
  case True
  have "sizeof w = sizeof (0 :: 'a word)" by (simp add: sizeof_def)
  with True show ?thesis
    using fixed_codec.checked_read_short [OF fixed_codec_int [OF assms refl, of native],
        of "make_istream (take k (be_bytes w @ rest))"]
    by simp
next
  case False
  then show ?thesis using read_word_make [OF assms, of native w "take (k - sizeof w) rest"] by simp
qed

lemma read_int32_cut:
  assumes "- (2 ^ 31) \<le> n" "n < 2 ^ 31"
  shows "read_int32 native (make_istream (take k (be_bytes (word_of_int n :: 32 word) @ rest))) =
     (if k < 4 then Inl eof_error else Inr (n, make_istream (take (k - 4) rest)))"
  using to_int32_id [OF assms] by (simp add: read_int32_def read_word_cut to_int32_def del: take_append)

lemma read_int32_cut_nat:
  "n < 2 ^ 31 \<Longrightarrow> read_int32 native (make_istream (take k (be_bytes (word_of_nat n :: 32 word) @ rest))) =
     (if k < 4 then Inl eof_error else Inr (int n, make_istream (take (k - 4) rest)))"
  using read_int32_cut [of "int n" native k rest] by (simp del: take_append)

lemma read_int32_cut_numerals:
  "read_int32 native (make_istream (take k (be_bytes (0 :: 32 word) @ rest))) =
     (if k < 4 then Inl eof_error else Inr (0, make_istream (take (k - 4) rest)))"
  "read_int32 native (make_istream (take k (be_bytes (1 :: 32 word) @ rest))) =
     (if k < 4 then Inl eof_error else Inr (1, make_istream (take (k - 4) rest)))"
  using read_int32_cut [of 0 native k rest] read_int32_cut [of 1 native k rest] by (simp_all del: take_append)

lemma read_oid_cut:
  "read_oid native (make_istream (take k (be_bytes w @ rest))) =
     (if k < 4 then Inl eof_error else Inr (w, make_istream (take (k - 4) rest)))"
  by (simp add: read_oid_def read_word_cut del: take_append)

lemmas read_cuts = read_int32_cut read_int32_cut_nat read_int32_cut_numerals read_oid_cut

lemma read_raw_cut: "length bs < length old \<Longrightarrow> checked (istream_read old (make_istream bs)) = Inl eof_error"
  using istream_read_short [of "make_istream bs" old] by (simp add: checked_def)

lemma recv_string_cut: "k < length bs \<Longrightarrow> recv_string (int (length bs)) [] (make_istream (take k bs)) = Inl eof_error"
  by (simp add: recv_string_def resize_string_def read_raw_cut)

lemma recv_versioned_cut:
  "k < Suc (length bs) \<Longrightarrow> recv_versioned (int (length bs) + 1) [] (make_istream (take k (1 # bs))) = Inl eof_error"
proof (cases k)
  case 0
  then show ?thesis using char.checked_read_short [of "make_istream []"] by (simp add: recv_versioned_def)
next
  case (Suc j)
  assume "k < Suc (length bs)"
  with Suc show ?thesis
    using char.checked_read_make [of 1 "take j bs"]
    by (simp add: recv_versioned_def ostream_put_def recv_string_cut)
qed

lemma recv_interval_cut:
  "k < 16 \<Longrightarrow> recv_interval native' (make_istream (take k (write_pg_interval native [] (from_chrono_duration us)))) = Inl eof_error"
  using from_chrono_duration_range [of us]
    read_int32_cut [where rest = "[]"] read_int32_cut_numerals(1) [where rest = "[]"]
  by (simp add: recv_interval_def read_pg_interval_def io_simps ostream_write_int_be read_word_cut read_cuts
      del: take_append)

lemma length_write_pg_interval: "length (write_pg_interval native [] iv) = 16"
  by (simp add: io_simps ostream_write_int_be)

lemma read_word_cut0:
  "8 dvd LENGTH('a) \<Longrightarrow> k < sizeof (w :: 'a::len word) \<Longrightarrow>
     checked (istream_read_int native (make_istream (take k (be_bytes w))) :: 'a word \<times> istream) = Inl eof_error"
  using read_word_cut [of native k w "[]"] by simp

lemma recv_time_point_cut:
  assumes "clock_ok ticks" "time_point_ok ticks tp" "k < 8"
  shows "recv_time_point ticks native' (make_istream (take k (case send_time_point ticks native [] tp of None \<Rightarrow> [] | Some out \<Rightarrow> out))) =
     Inl eof_error"
  using assms(3) by (simp add: send_time_point_defined [OF assms(1,2)] recv_time_point_def ostream_write_int_be read_word_cut0)

lemma recv_scalar_cut:
  assumes "is_scalar t" "has_type t v" "k < length (send_scalar native [] v)"
  shows "recv_scalar native' (size_of t v) t (default_value t) (make_istream (take k (send_scalar native [] v))) =
           Inl eof_error"
  using assms char.checked_read_short [of "make_istream []"] bool.checked_read_short [of "make_istream []"]
  by (cases t rule: is_scalar.cases)
    (auto simp: recv_scalar_def send_scalar_def mapv_def check_size_def ostream_write_int_be
      recv_string_cut recv_versioned_cut recv_interval_cut read_raw_cut read_word_cut0 length_write_pg_interval
      recv_time_point_cut length_send_time_point
      ostream_write_raw_def send_versioned_def ostream_put_def ostream_write_bool_def)

definition fails_when_cut :: "endian \<Rightarrow> endian \<Rightarrow> oid_map \<Rightarrow> cpp_type \<Rightarrow> pg_value \<Rightarrow> bool" where
  "fails_when_cut native native' m t v \<longleftrightarrow>
     (\<forall>oid k. oid \<in> {None, Some (type_oid m t)} \<longrightarrow> k < length (wire native m t v) \<longrightarrow>
        recv native' m oid (size_of t v) t (default_value t) (make_istream (take k (wire native m t v))) =
          Inl eof_error)"

lemma recv_data_frame_cut:
  assumes "wf_type t" "has_type t v" "fits t v" "fails_when_cut native native' m t v"
    and "oid \<in> {None, Some (type_oid m t)}" "k < length (data_frame_wire native m t v)"
  shows "recv_data_frame native' m oid t (default_value t) (make_istream (take k (data_frame_wire native m t v))) =
           Inl eof_error"
  using read_int32_cut size_of_range [OF assms(1-3)] assms(4-6)
  by (auto simp: data_frame_wire_def fails_when_cut_def simp del: take_append)

lemma recv_frame_cut:
  assumes "wf_type t" "has_type t v" "fits t v" "fails_when_cut native native' m t v"
    and "k < length (frame_wire native m t v)"
  shows "recv_frame native' m t (default_value t) (make_istream (take k (frame_wire native m t v))) = Inl eof_error"
  using recv_data_frame_cut [OF assms(1-4), of "Some (type_oid m t)" "k - 4"] assms(5)
  by (simp add: frame_wire_def read_oid_cut del: take_append recv_data_frame.simps)

lemma recv_items_cut:
  assumes "wf_type t" "\<And>x. x \<in> set vs \<Longrightarrow> has_type t x \<and> fits t x \<and> fails_when_cut native native' m t x"
    and "k < length (concat (map (data_frame_wire native m t) vs))"
  shows "recv_items native' m t (replicate (length vs) (default_value t))
           (make_istream (take k (concat (map (data_frame_wire native m t) vs)))) = Inl eof_error"
  using assms(2,3)
proof (induction vs arbitrary: k)
  case (Cons v vs)
  then have v: "has_type t v" "fits t v" "fails_when_cut native native' m t v" by simp_all
  show ?case
  proof (cases "k < length (data_frame_wire native m t v)")
    case True
    then show ?thesis
      using recv_data_frame_cut [OF assms(1) v, of None k] by (simp del: recv_data_frame.simps)
  next
    case False
    then show ?thesis
      using Cons.prems Cons.IH [of "k - length (data_frame_wire native m t v)"]
        recv_data_frame_wire [OF assms(1) v(1,2) goes_through [OF assms(1) v(1,2)], of None]
      by (simp del: recv_data_frame.simps)
  qed
qed simp

lemma recv_fields_cut:
  assumes "\<And>t x. (t, x) \<in> set (zip ts vs) \<Longrightarrow> wf_type t \<and> has_type t x \<and> fits t x \<and> fails_when_cut native native' m t x"
    and "length ts = length vs" "k < length (concat (map2 (frame_wire native m) ts vs))"
  shows "recv_fields native' m ts (map default_value ts)
           (make_istream (take k (concat (map2 (frame_wire native m) ts vs)))) = Inl eof_error"
  using assms
proof (induction ts arbitrary: vs k)
  case (Cons t ts)
  then obtain v vs' where vs: "vs = v # vs'" by (cases vs) auto
  then have f: "wf_type t" "has_type t v" "fits t v" "fails_when_cut native native' m t v"
    using Cons.prems(1) [of t v] by simp_all
  show ?case
  proof (cases "k < length (frame_wire native m t v)")
    case True
    then show ?thesis using recv_frame_cut [OF f] vs by (simp del: recv_frame.simps)
  next
    case False
    have "recv_fields native' m ts (map default_value ts) (make_istream
        (take (k - length (frame_wire native m t v)) (concat (map2 (frame_wire native m) ts vs')))) = Inl eof_error"
      using Cons.prems vs False by (intro Cons.IH) auto
    then show ?thesis
      using False recv_frame_wire [OF f(1-3) goes_through [OF f(1-3)]] vs by (simp del: recv_frame.simps)
  qed
qed simp

lemma recv_array_header_cut:
  assumes "wf_type t" "n < 2 ^ 31"
  shows "recv_array_header native m t (make_istream (take k (be_bytes (1 :: 32 word) @ be_bytes (0 :: 32 word) @
           be_bytes (type_oid m t) @ be_bytes (word_of_nat n :: 32 word) @ be_bytes (0 :: 32 word) @ rest))) =
         (if k < 20 then Inl eof_error else Inr (if n = 0 then None else Some (int n), make_istream (take (k - 20) rest)))"
  using assms
  by (simp add: recv_array_header_def read_pg_array_def read_pg_array_dimension_def accepts_oid_def read_cuts
      del: take_append) auto

lemma recv_impl_array_cut:
  assumes "wf_type t" "length vs < 2 ^ 31" "t' = T_vector t \<or> (\<exists>n. t' = T_std_array t n \<and> length vs = n)"
    and "\<And>x. x \<in> set vs \<Longrightarrow> has_type t x \<and> fits t x \<and> fails_when_cut native native' m t x"
    and "k < length (wire native m t' (V_seq vs))"
  shows "recv_impl native' m sz t' (default_value t') (make_istream (take k (wire native m t' (V_seq vs)))) =
           Inl eof_error"
proof -
  have "vs = [] \<Longrightarrow> k < 20" using assms(3,5) by (auto simp: wire_simps)
  moreover have "\<not> k < 20 \<Longrightarrow> k - 20 < length (concat (map (data_frame_wire native m t) vs))"
    using assms(3,5) by (auto simp: wire_simps)
  ultimately show ?thesis
    using assms(3) recv_items_cut [OF assms(1,4), of vs "k - 20"] recv_array_header_cut [OF assms(1,2)]
    by (auto simp: recv_impl.simps wire_simps fit_array_size_def mapv_def simp del: take_append)
qed

lemma recv_impl_fields_cut:
  assumes "length ts < 2 ^ 31" "length ts = length vs" "t' = T_record ts \<or> t' = T_composite nm ts"
    and "\<And>t x. (t, x) \<in> set (zip ts vs) \<Longrightarrow> wf_type t \<and> has_type t x \<and> fits t x \<and> fails_when_cut native native' m t x"
    and "k < length (wire native m t' (V_fields vs))"
  shows "recv_impl native' m sz t' (default_value t') (make_istream (take k (wire native m t' (V_fields vs)))) =
           Inl eof_error"
proof -
  have "\<not> k < 4 \<Longrightarrow> k - 4 < length (concat (map2 (frame_wire native m) ts vs))"
    using assms(3,5) by (auto simp: wire_simps)
  then show ?thesis
    using assms(3) recv_fields_cut [OF assms(4,2), of "k - 4"] assms(1)
    by (auto simp: recv_impl.simps wire_simps read_and_verify_header_def mapv_def read_cuts simp del: take_append)
qed

lemma fails_when_cutI:
  assumes "\<not> is_nullable t" "size_of t v \<noteq> null_state_size"
    and "\<And>k. k < length (wire native m t v) \<Longrightarrow>
      recv_impl native' m (size_of t v) t (default_value t) (make_istream (take k (wire native m t v))) = Inl eof_error"
  shows "fails_when_cut native native' m t v"
  using assms by (cases t) (auto simp: fails_when_cut_def recv.simps)

lemma fails_when_cut_nullable:
  assumes "\<not> is_nullable t" "fails_when_cut native native' m t x" "size_of t x \<noteq> null_state_size"
  shows "fails_when_cut native native' m (T_nullable t) (V_some x)"
proof -
  have "recv_impl native' m (size_of t x) t (default_value t) (make_istream (take k (wire native m t x))) =
      Inl eof_error" if "k < length (wire native m t x)" for k
    using assms that by (cases t) (auto simp: fails_when_cut_def recv.simps)
  moreover have "accepts_oid m (T_nullable t) (type_oid m (T_nullable t))" by (rule accepts_type_oid)
  ultimately show ?thesis
    using assms(3) by (auto simp: fails_when_cut_def recv.simps wire_simps init_nullable_def mapv_def)
qed

lemma fails_when_cut: "wf_type t \<Longrightarrow> has_type t v \<Longrightarrow> fits t v \<Longrightarrow> fails_when_cut native native' m t v"
proof (induction rule: wire_value_induct)
  case (null t)
  show ?case by (simp add: fails_when_cut_def wire_simps)
next
  case (some t x)
  then show ?case by (intro fails_when_cut_nullable)
next
  case (array t t' vs)
  then show ?case
    by (intro fails_when_cutI recv_impl_array_cut [of t vs]) auto
next
  case (fields ts nm t' vs)
  then show ?case
    by (intro fails_when_cutI recv_impl_fields_cut [of ts vs _ nm]) auto
next
  case (scalar t v)
  then show ?case
    using recv_scalar_cut [of t v _ native native']
    by (intro fails_when_cutI; cases t) (simp_all add: recv_impl.simps wire_scalar)
qed

text \<open>C30: a representation cut at any byte is never taken for a value: receiving it reports
  \<open>unexpected_eof\<close>.\<close>

theorem recv_truncated:
  assumes "wf_type t" and "has_type t v" and "fits t v" and "k < length (send native m t [] v)"
  shows "recv native' m (Some (type_oid m t)) (size_of t v) t (default_value t)
           (make_istream (take k (send native m t [] v))) = Inl (System_error unexpected_eof)"
  using fails_when_cut [OF assms(1-3), of native native' m] assms(4)
  by (simp add: fails_when_cut_def wire_def)

theorem recv_truncated_witness:
  "recv big [] (Some 25) 2 (T_string text_kind) (V_string [])
     (make_istream (take 1 (send little [] (T_string text_kind) [] (V_string [104, 105])))) =
   Inl (System_error unexpected_eof)"
  using recv_truncated [of "T_string text_kind" "V_string [104, 105]" 1 little "[]" big]
  by (simp add: type_oid_def definition_oid_def fits_def send.simps send_scalar_def ostream_write_raw_def)

section \<open>Whatever is accepted is a value of the type\<close>

text \<open>The types in which there is a duration or a time point, the only ones whose conversion computes with what was received.\<close>

fun has_times :: "cpp_type \<Rightarrow> bool" where
  "has_times T_interval = True"
| "has_times (T_time_point ticks) = True"
| "has_times (T_nullable t) = has_times t"
| "has_times (T_vector t) = has_times t"
| "has_times (T_std_array t n) = has_times t"
| "has_times (T_record ts) = list_ex has_times ts"
| "has_times (T_composite nm ts) = list_ex has_times ts"
| "has_times _ = False"

text \<open>A successful read returns a value with the property \<open>T\<close> and only moves forward in the data; a signed overflow
  comes up only where \<open>ub\<close> allows it.\<close>

definition sound :: "bool \<Rightarrow> ('a \<Rightarrow> bool) \<Rightarrow> istream \<Rightarrow> 'a recv_result \<Rightarrow> bool" where
  "sound ub T s r \<longleftrightarrow> (\<forall>x s'. r = Inr (x, s') \<longrightarrow> T x \<and> suffix (is_buf s') (is_buf s)) \<and>
     (r = Inl Undefined_behaviour \<longrightarrow> ub)"

lemma sound_Inl [simp]: "sound ub T s (Inl e) \<longleftrightarrow> (e = Undefined_behaviour \<longrightarrow> ub)"
  by (simp add: sound_def)

lemma sound_Inr [simp]: "sound ub T s (Inr (x, s')) \<longleftrightarrow> T x \<and> suffix (is_buf s') (is_buf s)"
  by (auto simp: sound_def)

lemma sound_sbind:
  assumes "sound ub T s r" "\<And>x s'. T x \<Longrightarrow> sound ub U s' (f x s')"
  shows "sound ub U s (sbind r (\<lambda>(x, s'). f x s'))"
proof (cases r)
  case (Inr a)
  then obtain x s' where r: "r = Inr (x, s')" by (cases a) auto
  with assms(1) have "T x" and suf: "suffix (is_buf s') (is_buf s)" by simp_all
  with assms(2) have "sound ub U s' (f x s')" by blast
  with r suf show ?thesis by (auto simp: sound_def intro: suffix_order.order_trans)
qed (use assms(1) in simp)

lemma sound_mapv: "sound ub T s r \<Longrightarrow> (\<And>x. T x \<Longrightarrow> U (g x)) \<Longrightarrow> sound ub U s (mapv g r)"
  unfolding mapv_def by (rule sound_sbind [where T = T]) auto

lemma sound_mono: "sound ub T s r \<Longrightarrow> (\<And>x. T x \<Longrightarrow> U x) \<Longrightarrow> sound ub U s r"
  by (auto simp: sound_def)

lemma is_buf_istream_read: "is_buf (snd (istream_read old s)) = drop (length old) (is_buf s)"
  by (simp add: istream_read_def istreambuf_read_def)

lemma length_istream_read: "istream_ok (snd (istream_read old s)) \<Longrightarrow> length (fst (istream_read old s)) = length old"
  by (auto simp: istream_read_def istreambuf_read_def istream_ok_def split: if_splits)

lemma sound_checked: "suffix (is_buf (snd r)) (is_buf s) \<Longrightarrow> (istream_ok (snd r) \<Longrightarrow> T (fst r)) \<Longrightarrow> sound ub T s (checked r)"
  by (cases r) (simp add: checked_def)

lemma sound_read_raw: "sound ub (\<lambda>bs. length bs = length old) s (checked (istream_read old s))"
  by (rule sound_checked) (simp_all add: is_buf_istream_read suffix_drop length_istream_read)

lemma sound_read_int: "sound ub (\<lambda>_. True) s (checked (istream_read_int native s))"
  by (rule sound_checked) (simp_all add: istream_read_int_def case_prod_beta is_buf_istream_read suffix_drop)

lemma sound_read_byte: "sound ub (\<lambda>_. True) s (checked (istream_read_byte s))"
  by (rule sound_checked) (simp_all add: istream_read_byte_flag is_buf_istream_read suffix_drop)

lemma sound_read_bool: "sound ub (\<lambda>_. True) s (checked (istream_read_bool s))"
  by (rule sound_checked)
    (simp_all add: istream_read_bool_def case_prod_beta istream_read_byte_flag is_buf_istream_read suffix_drop)

lemma sound_read_int32: "sound ub (\<lambda>n. n < 2 ^ 31) s (read_int32 native s)"
  unfolding read_int32_def
  by (rule sound_sbind [OF sound_read_int]) (use sint_less [where 'a = 32] in simp)

lemma sound_read_oid: "sound ub (\<lambda>_. True) s (read_oid native s)"
  unfolding read_oid_def by (rule sound_read_int)

lemma sound_recv_string: "sound ub (\<lambda>bs. int (length bs) = sz) s (recv_string sz old s)"
proof (cases "sz < 0")
  case False
  let ?buf = "take (nat sz) old @ replicate (nat sz - length old) 0"
  have "sound ub (\<lambda>bs. length bs = length ?buf) s (checked (istream_read ?buf s))" by (rule sound_read_raw)
  then have "sound ub (\<lambda>bs. int (length bs) = sz) s (checked (istream_read ?buf s))"
    by (rule sound_mono) (use False in auto)
  with False show ?thesis by (simp add: recv_string_def resize_string_def)
qed (simp add: recv_string_def resize_string_def)

lemma sound_recv_versioned: "sound ub (\<lambda>bs. int (length bs) + 1 = sz) s (recv_versioned sz old s)"
  by (cases "sz < 1")
    (auto simp: recv_versioned_def intro!: sound_sbind [OF sound_read_byte] sound_mono [OF sound_recv_string])

lemma to_chrono_duration_range: "to_chrono_duration iv = Some us \<Longrightarrow> int64_min \<le> us \<and> us \<le> int64_max"
  by (auto simp: to_chrono_duration_eq int64_min_def int64_max_def split: if_splits)

lemma sound_recv_interval: "ub \<Longrightarrow> sound ub (\<lambda>us. int64_min \<le> us \<and> us \<le> int64_max) s (recv_interval native s)"
  unfolding recv_interval_def read_pg_interval_def
  by (intro sound_sbind [where T = "\<lambda>_. True"] sound_read_int sound_mono [OF sound_read_int32])
    (auto split: option.split dest: to_chrono_duration_range)

lemma sound_recv_time_point:
  assumes "clock_ok ticks" "ub"
  shows "sound ub (time_point_ok ticks) s (recv_time_point ticks native s)"
  unfolding recv_time_point_def
  by (intro sound_sbind [where T = "\<lambda>_. True"] sound_read_int)
    (auto simp: assms(2) time_point_of_pg_def checked64_def time_point_ok_def bind_eq_Some_conv split: option.split if_splits)

lemma sound_check_size: "sound ub T s r \<Longrightarrow> sound ub T s (check_size sz n r)"
  by (simp add: check_size_def)

lemma sound_recv_scalar:
  assumes "is_scalar t" "has_type t out" "sz < 2 ^ 31" "has_times t \<longrightarrow> ub"
  shows "sound ub (has_type t) s (recv_scalar native sz t out s)"
  using assms
  by (cases t rule: is_scalar.cases)
    (auto simp: recv_scalar_def intro!: sound_check_size sound_mapv [OF sound_read_int]
      sound_mapv [OF sound_read_byte] sound_mapv [OF sound_read_bool] sound_mapv [OF sound_recv_string]
      sound_mapv [OF sound_recv_versioned] sound_mapv [OF sound_recv_interval] sound_mapv [OF sound_read_raw]
      sound_mapv [OF sound_recv_time_point])

text \<open>Soundness of receiving a type into any object of the type.\<close>

definition recv_sound :: "bool \<Rightarrow> endian \<Rightarrow> oid_map \<Rightarrow> cpp_type \<Rightarrow> bool" where
  "recv_sound ub native m t \<longleftrightarrow>
     (\<forall>oid sz out s. has_type t out \<longrightarrow> sz < 2 ^ 31 \<longrightarrow> sound ub (has_type t) s (recv native m oid sz t out s))"

lemma sound_recv_data_frame:
  "recv_sound ub native m t \<Longrightarrow> has_type t out \<Longrightarrow> sound ub (has_type t) s (recv_data_frame native m oid t out s)"
  by (auto simp: recv_sound_def intro!: sound_sbind [OF sound_read_int32])

lemma sound_recv_frame:
  "recv_sound ub native m t \<Longrightarrow> has_type t out \<Longrightarrow> sound ub (has_type t) s (recv_frame native m t out s)"
  by (auto simp del: recv_data_frame.simps intro!: sound_sbind [OF sound_read_oid] sound_recv_data_frame)

lemma sound_recv_items:
  "recv_sound ub native m t \<Longrightarrow> list_all (has_type t) vs \<Longrightarrow>
     sound ub (\<lambda>xs. list_all (has_type t) xs \<and> length xs = length vs) s (recv_items native m t vs s)"
proof (induction vs arbitrary: s)
  case (Cons v vs)
  show ?case
    unfolding recv_items.simps
    by (rule sound_sbind [OF sound_recv_data_frame], use Cons.prems in simp, use Cons.prems in simp,
        rule sound_sbind [OF Cons.IH]) (use Cons.prems in simp_all)
qed simp

lemma sound_recv_fields:
  "(\<And>t. t \<in> set ts \<Longrightarrow> recv_sound ub native m t) \<Longrightarrow> list_all2 has_type ts vs \<Longrightarrow>
     sound ub (list_all2 has_type ts) s (recv_fields native m ts vs s)"
proof (induction ts arbitrary: vs s)
  case (Cons t ts)
  then obtain v vs' where vs: "vs = v # vs'" "has_type t v" "list_all2 has_type ts vs'"
    by (cases vs) auto
  show ?case
    unfolding vs(1) recv_fields.simps
    by (rule sound_sbind [OF sound_recv_frame], use Cons.prems in simp, rule vs(2),
        rule sound_sbind [OF Cons.IH [OF _ vs(3)]]) (use Cons.prems in simp_all)
qed simp

lemma sound_recv_array_header:
  "sound ub (\<lambda>c. \<forall>n. c = Some n \<longrightarrow> n < 2 ^ 31) s (recv_array_header native m u s)"
proof -
  have h: "sound ub (\<lambda>_. True) s (read_pg_array native s)" for s
    unfolding read_pg_array_def
    by (intro sound_sbind [where T = "\<lambda>_. True"] sound_read_oid sound_mono [OF sound_read_int32]) auto
  have d: "sound ub (\<lambda>(n, _). n < 2 ^ 31) s (read_pg_array_dimension native s)" for s
    unfolding read_pg_array_dimension_def
    by (rule sound_sbind [OF sound_read_int32], rule sound_sbind [OF sound_read_int32]) auto
  show ?thesis
    unfolding recv_array_header_def
    by (rule sound_sbind [OF h]) (auto intro!: sound_sbind [OF d])
qed

lemma fit_array_size_has_type:
  assumes "t' = T_vector t \<or> t' = T_std_array t k" "wf_type t'" "has_type t' (V_seq vs)" "n < 2 ^ 31"
    and "fit_array_size t' vs n = Inr ws"
  shows "list_all (has_type t) ws \<and> length ws < 2 ^ 31 \<and> (t' = T_std_array t k \<longrightarrow> length ws = k)"
  using assms default_has_type [of t]
  by (auto simp: fit_array_size_def list_all_iff split: if_splits dest!: in_set_takeD)

lemma sound_recv_array:
  assumes "t' = T_vector t \<or> t' = T_std_array t k" "wf_type t'" "has_type t' out" "recv_sound ub native m t"
  shows "sound ub (has_type t') s (recv_impl native m sz t' out s)"
proof -
  let ?body = "\<lambda>count s. case (count, out) of
      (Some n, V_seq vs) \<Rightarrow> sbind (fit_array_size t' vs n) (\<lambda>vs. mapv V_seq (recv_items native m t vs s))
    | _ \<Rightarrow> Inr (out, s)"
  have eq: "recv_impl native m sz t' out s = sbind (recv_array_header native m t s) (\<lambda>(count, s). ?body count s)"
    using assms(1) by (auto simp: recv_impl.simps)
  have "sound ub (has_type t') s (?body count s)" if "\<forall>n. count = Some n \<longrightarrow> n < 2 ^ 31" for count s
  proof -
    obtain vs where vs: "out = V_seq vs" using assms(1,3) by auto
    have "sound ub (has_type t') s (mapv V_seq (recv_items native m t ws s))"
      if "n < 2 ^ 31" "fit_array_size t' vs n = Inr ws" for n ws
      using fit_array_size_has_type [OF assms(1,2) _ that] assms(1,3) vs
      by (intro sound_mapv [OF sound_recv_items [OF assms(4)]]) auto
    moreover have "fit_array_size t' vs n \<noteq> Inl Undefined_behaviour" for n
      using assms(1) by (auto simp: fit_array_size_def split: if_splits)
    ultimately show ?thesis
      using that assms(3) vs by (cases count) (auto simp: sbind_def split: sum.split)
  qed
  then show ?thesis unfolding eq by (rule sound_sbind [OF sound_recv_array_header])
qed

lemma sound_recv_composite:
  assumes "t' = T_record ts \<or> t' = T_composite nm ts" "has_type t' out" "\<And>t. t \<in> set ts \<Longrightarrow> recv_sound ub native m t"
  shows "sound ub (has_type t') s (recv_impl native m sz t' out s)"
proof -
  obtain vs where vs: "out = V_fields vs" "list_all2 has_type ts vs" using assms(1,2) by auto
  have "recv_impl native m sz t' out s = sbind (read_int32 native s) (\<lambda>(count, s).
      if count \<noteq> int (length ts) then Inl (System_error bad_composite_size)
      else mapv V_fields (recv_fields native m ts vs s))"
    using assms(1) vs(1) by (auto simp: recv_impl.simps read_and_verify_header_def sbind_def split: sum.split)
  moreover have "sound ub (has_type t') s (mapv V_fields (recv_fields native m ts vs s))" for s
    by (rule sound_mapv [OF sound_recv_fields [OF assms(3) vs(2)]]) (use assms(1) in auto)
  ultimately show ?thesis by (auto intro!: sound_sbind [OF sound_read_int32])
qed

lemma recv_soundI:
  assumes "\<not> is_nullable t" "\<And>sz out s. has_type t out \<Longrightarrow> sz < 2 ^ 31 \<Longrightarrow> sound ub (has_type t) s (recv_impl native m sz t out s)"
  shows "recv_sound ub native m t"
  using assms by (cases t) (auto simp: recv_sound_def recv.simps split: option.split)

lemma recv_sound_nullable:
  assumes "wf_type t" "\<not> is_nullable t" "recv_sound ub native m t"
  shows "recv_sound ub native m (T_nullable t)"
proof -
  have "sound ub (has_type t) s (recv_impl native m sz t out s)" if "has_type t out" "sz < 2 ^ 31" "sz \<noteq> null_state_size" for sz out s
    using assms(2,3) that unfolding recv_sound_def
    by (elim allE [of _ None] allE [of _ sz] allE [of _ out] allE [of _ s]) (cases t; simp add: recv.simps)
  then have "sound ub (has_type (T_nullable t)) s (mapv V_some (recv_impl native m sz t (init_nullable t out) s))"
    if "has_type (T_nullable t) out" "sz < 2 ^ 31" "sz \<noteq> null_state_size" for sz out s
    using that default_has_type [OF assms(1)]
    by (intro sound_mapv [where T = "has_type t"]) (auto simp: init_nullable_def)
  then show ?thesis by (auto simp: recv_sound_def recv.simps split: option.split)
qed

lemma recv_sound: "wf_type t \<Longrightarrow> (has_times t \<longrightarrow> ub) \<Longrightarrow> recv_sound ub native m t"
proof (induction t)
  case (T_nullable t)
  then show ?case by (auto intro: recv_sound_nullable)
next
  case (T_vector t)
  show ?case by (rule recv_soundI, simp, rule sound_recv_array [of _ t 0]) (use T_vector in auto)
next
  case (T_std_array t n)
  show ?case by (rule recv_soundI, simp, rule sound_recv_array [of _ t n]) (use T_std_array in auto)
next
  case (T_record ts)
  show ?case
    by (rule recv_soundI, simp, rule sound_recv_composite [of _ ts "[]"])
      (use T_record in \<open>auto simp: list_all_iff list_ex_iff\<close>)
next
  case (T_composite nm ts)
  show ?case
    by (rule recv_soundI, simp, rule sound_recv_composite [of _ ts nm])
      (use T_composite in \<open>auto simp: list_all_iff list_ex_iff\<close>)
qed (rule recv_soundI, simp, simp add: recv_impl.simps sound_recv_scalar del: has_type.simps)+

text \<open>C2: whatever bytes arrive, with whatever oid and size, receiving into an object of a type either throws, or leaves a
  value of that type there (the elements, fields and lengths included) and stays inside the data: what is left is a suffix of
  what there was. The third outcome, a signed overflow and with it undefined behaviour, does not come up for a type without
  durations and time points; for those it does (\<open>to_chrono_duration_overflows\<close>, \<open>time_point_infinity_overflows\<close>).\<close>

theorem recv_type_safe:
  assumes "wf_type t" and "has_type t out" and "sz < 2 ^ 31"
  shows "case recv native m oid sz t out s of
           Inr (v, s') \<Rightarrow> has_type t v \<and> suffix (is_buf s') (is_buf s)
         | Inl e \<Rightarrow> e = Undefined_behaviour \<longrightarrow> has_times t"
  using recv_sound [OF assms(1), of "has_times t" native m] assms(2-3)
  by (auto simp: recv_sound_def sound_def split: sum.split)

theorem recv_type_safe_witness:
  "has_type (T_string text_kind) (V_string [104]) \<and> suffix [105] [104, 105 :: byte]"
proof -
  have "recv little [] None 1 (T_string text_kind) (V_string [1, 2]) (make_istream [104, 105]) =
      Inr (V_string [104], make_istream [105])"
    by (simp add: recv.simps recv_impl.simps recv_scalar_def recv_string_def resize_string_def mapv_def
        null_state_size_def checked_def istream_read_def istreambuf_read_def make_istream_def istream_ok_def)
  then show ?thesis
    using recv_type_safe [where native = little and m = "[]" and oid = None and t = "T_string text_kind" and sz = 1
        and out = "V_string [1, 2]" and s = "make_istream [104, 105]"]
    by simp
qed

end
