(* ===== verification/Bozo_Query_Conf.thy ===== *)
theory Bozo_Query_Conf
  imports Bozo_Query_Builder
begin

text \<open>
  \<open>query_conf.h\<close>: queries kept in a text. A line \<open>-- name: q\<close> opens the query \<open>q\<close>, the lines up to the
  next header are its text, in which \<open>:p\<close> refers to a parameter. The three Spirit X3 grammars of the file are
  written as functions from the input to what a rule matches and the rest of the input, with the meaning Spirit
  documents for its operators: alternatives are tried in order, repetition takes as much as it can,
  \<open>phrase_parse\<close> with the skipper \<open>char_('\0')\<close> drops NUL characters before every terminal and before every
  \<open>lexeme\<close>, and no character is dropped inside a \<open>lexeme\<close>.
\<close>

section \<open>Lines\<close>

datatype query_line = Query_line_comment string | Query_line_text string

definition not_nul :: "char \<Rightarrow> bool" where
  "not_nul ch \<longleftrightarrow> ch \<noteq> CHR 0x00"

definition skip_nul :: "string \<Rightarrow> string" where
  "skip_nul s = dropWhile (\<lambda>ch. \<not> not_nul ch) s"

definition is_eol :: "char \<Rightarrow> bool" where
  "is_eol ch \<longleftrightarrow> ch = CHR 0x0D \<or> ch = CHR 0x0A"

definition parse_end :: "string \<Rightarrow> (string \<times> string) option" where
  "parse_end s =
     (if take 2 s = [CHR 0x0D, CHR 0x0A] then Some ([CHR 0x0D, CHR 0x0A], drop 2 s)
      else if take 1 s = [CHR 0x0D] then Some ([CHR 0x0D], drop 1 s)
      else if take 1 s = [CHR 0x0A] then Some ([CHR 0x0A], drop 1 s)
      else None)"

text \<open>The three alternatives of \<open>line\<close>: a comment, a text with its line end, a text at the end of the
  input.\<close>

definition comment_line :: "string \<Rightarrow> (query_line \<times> string) option" where
  "comment_line s0 =
     (let s = skip_nul s0
      in if take 2 s = ''--'' then
           let body = takeWhile (\<lambda>ch. \<not> is_eol ch) (drop 2 s); rest = dropWhile (\<lambda>ch. \<not> is_eol ch) (drop 2 s)
           in case parse_end rest of
                Some (e, r) \<Rightarrow> Some (Query_line_comment (''--'' @ body @ e), r)
              | None \<Rightarrow> (if rest = [] then Some (Query_line_comment (''--'' @ body), rest) else None)
         else None)"

definition text_line :: "string \<Rightarrow> (query_line \<times> string) option" where
  "text_line s0 =
     (let s = skip_nul s0
      in case parse_end (dropWhile (\<lambda>ch. \<not> is_eol ch) s) of
           Some (e, r) \<Rightarrow> Some (Query_line_text (takeWhile (\<lambda>ch. \<not> is_eol ch) s @ e), r)
         | None \<Rightarrow> None)"

definition last_line :: "string \<Rightarrow> (query_line \<times> string) option" where
  "last_line s0 =
     (let s = skip_nul s0; body = takeWhile (\<lambda>ch. \<not> is_eol ch) s; rest = dropWhile (\<lambda>ch. \<not> is_eol ch) s
      in if body \<noteq> [] \<and> skip_nul rest = [] then Some (Query_line_text body, skip_nul rest) else None)"

definition parse_line :: "string \<Rightarrow> (query_line \<times> string) option" where
  "parse_line s =
     (case comment_line s of Some x \<Rightarrow> Some x | None \<Rightarrow> (case text_line s of Some x \<Rightarrow> Some x | None \<Rightarrow> last_line s))"

fun line_value :: "query_line \<Rightarrow> string" where
  "line_value (Query_line_comment v) = v"
| "line_value (Query_line_text v) = v"

lemma parse_end_split: "parse_end s = Some (e, r) \<Longrightarrow> s = e @ r \<and> e \<noteq> []"
  by (auto simp: parse_end_def split: if_splits)

lemma parse_end_None: "parse_end s = None \<longleftrightarrow> s = [] \<or> \<not> is_eol (hd s)"
  by (cases s) (auto simp: parse_end_def is_eol_def)

lemma after_body: "parse_end (dropWhile (\<lambda>ch. \<not> is_eol ch) s) = None \<longleftrightarrow> dropWhile (\<lambda>ch. \<not> is_eol ch) s = []"
  using parse_end_None hd_dropWhile by blast

lemma comment_line_split:
  assumes "comment_line s = Some (l, r)"
  shows "skip_nul s = line_value l @ r \<and> line_value l \<noteq> []"
proof -
  let ?t = "drop 2 (skip_nul s)"
  have p: "take 2 (skip_nul s) = ''--''" using assms by (auto simp: comment_line_def Let_def split: if_splits)
  then have s: "skip_nul s = ''--'' @ takeWhile (\<lambda>ch. \<not> is_eol ch) ?t @ dropWhile (\<lambda>ch. \<not> is_eol ch) ?t"
    by (metis append_take_drop_id takeWhile_dropWhile_id)
  show ?thesis
  proof (cases "parse_end (dropWhile (\<lambda>ch. \<not> is_eol ch) ?t)")
    case None
    then have "dropWhile (\<lambda>ch. \<not> is_eol ch) ?t = []" by (simp add: after_body)
    then show ?thesis using assms None p s by (simp add: comment_line_def Let_def) (metis line_value.simps(1) append_Nil2 append_Cons append_Nil list.distinct(1))
  next
    case (Some x)
    then obtain e where e: "x = (e, r)" "l = Query_line_comment (''--'' @ takeWhile (\<lambda>ch. \<not> is_eol ch) ?t @ e)"
      using assms p by (cases x) (simp add: comment_line_def Let_def)
    then show ?thesis using parse_end_split [of _ e r] Some s by simp
  qed
qed

lemma text_line_split:
  assumes "text_line s = Some (l, r)"
  shows "skip_nul s = line_value l @ r \<and> line_value l \<noteq> []"
proof -
  obtain e where e: "parse_end (dropWhile (\<lambda>ch. \<not> is_eol ch) (skip_nul s)) = Some (e, r)"
      "l = Query_line_text (takeWhile (\<lambda>ch. \<not> is_eol ch) (skip_nul s) @ e)"
    using assms by (auto simp: text_line_def Let_def split: option.splits)
  then show ?thesis using parse_end_split [OF e(1)] takeWhile_dropWhile_id [of _ "skip_nul s"] by (metis append.assoc append_is_Nil_conv line_value.simps(2))
qed

lemma last_line_split:
  "last_line s = Some (l, r) \<Longrightarrow> r = [] \<and> (\<exists>t. skip_nul s = line_value l @ t \<and> skip_nul t = []) \<and> line_value l \<noteq> []"
  by (auto simp: last_line_def Let_def split: if_splits) (metis takeWhile_dropWhile_id)

lemma length_skip_nul: "length (skip_nul s) \<le> length s"
  by (simp add: skip_nul_def length_dropWhile_le)

lemma parse_line_split:
  assumes "parse_line s = Some (l, r)"
  obtains t where "skip_nul s = line_value l @ t" "line_value l \<noteq> []" "t = r \<or> r = [] \<and> skip_nul t = []"
  using assms comment_line_split [of s l r] text_line_split [of s l r] last_line_split [of s l r]
  by (auto simp: parse_line_def split: option.splits)

lemma parse_line_shorter:
  assumes "parse_line s = Some (l, r)"
  shows "length r < length s"
proof -
  obtain t where t: "skip_nul s = line_value l @ t" "line_value l \<noteq> []" "t = r \<or> r = [] \<and> skip_nul t = []"
    using assms by (rule parse_line_split)
  from t(2) have "0 < length (line_value l)" by simp
  moreover have "length (line_value l @ t) \<le> length s" using length_skip_nul [of s] t(1) by simp
  moreover have "length r \<le> length t" using t(3) by auto
  ultimately show ?thesis unfolding length_append by linarith
qed

text \<open>\<open>*line\<close>, and \<open>conf\<close>.\<close>

function parse_lines :: "string \<Rightarrow> query_line list \<times> string" where
  "parse_lines s =
     (case parse_line s of None \<Rightarrow> ([], s) | Some (l, r) \<Rightarrow> (let (ls, r') = parse_lines r in (l # ls, r')))"
  by pat_completeness auto
termination
  by (relation "measure length") (auto dest: parse_line_shorter)

declare parse_lines.simps [simp del]

definition parse_query_conf_lines :: "string \<Rightarrow> exn + query_line list" where
  "parse_query_conf_lines s =
     (let (ls, r) = parse_lines s in if skip_nul r = [] then Inr ls else Inl Invalid_argument)"

text \<open>What a line is: its text has a line end at most at its end, and it is a comment if and only if it starts
  with two dashes.\<close>

definition line_ok :: "query_line \<Rightarrow> bool" where
  "line_ok l \<longleftrightarrow>
     (let v = line_value l; e = dropWhile (\<lambda>ch. \<not> is_eol ch) v in
        v \<noteq> [] \<and> (e = [] \<or> parse_end e = Some (e, [])) \<and>
        (case l of Query_line_comment _ \<Rightarrow> take 2 v = ''--'' | Query_line_text _ \<Rightarrow> take 2 v \<noteq> ''--''))"

lemma skip_nul_empty [simp]: "skip_nul [] = []"
  by (simp add: skip_nul_def)

lemma filter_skip_nul: "filter not_nul (skip_nul s) = filter not_nul s"
  by (induction s) (auto simp: skip_nul_def)

lemma skip_nul_Nil: "skip_nul s = [] \<longleftrightarrow> filter not_nul s = []"
  by (induction s) (auto simp: skip_nul_def)

lemma parse_line_None: "parse_line s = None \<longleftrightarrow> skip_nul s = []"
proof
  assume n: "parse_line s = None"
  then have t: "text_line s = None" and l: "last_line s = None" by (auto simp: parse_line_def split: option.splits)
  from t have "parse_end (dropWhile (\<lambda>ch. \<not> is_eol ch) (skip_nul s)) = None"
    by (auto simp: text_line_def Let_def split: option.splits)
  then have d: "dropWhile (\<lambda>ch. \<not> is_eol ch) (skip_nul s) = []" by (simp only: after_body)
  moreover from d l have "takeWhile (\<lambda>ch. \<not> is_eol ch) (skip_nul s) = []"
    unfolding last_line_def Let_def d skip_nul_empty by (auto split: if_splits)
  ultimately show "skip_nul s = []" by (metis append_Nil takeWhile_dropWhile_id)
qed (simp add: parse_line_def comment_line_def text_line_def last_line_def parse_end_def)

lemma parse_end_whole:
  assumes "parse_end s = Some (e, r)"
  shows "parse_end e = Some (e, []) \<and> is_eol (hd e) \<and> e \<noteq> []"
proof -
  have "e = [CHR 0x0D, CHR 0x0A] \<or> e = [CHR 0x0D] \<or> e = [CHR 0x0A]"
    using assms unfolding parse_end_def by (metis (no_types) Pair_inject option.distinct(1) option.inject)
  then show ?thesis by (elim disjE) (simp_all add: parse_end_def is_eol_def)
qed

lemma dropWhile_body:
  assumes "parse_end s = Some (e, r)"
  shows "dropWhile (\<lambda>ch. \<not> is_eol ch) (takeWhile (\<lambda>ch. \<not> is_eol ch) b @ e) = e"
proof -
  have "dropWhile (\<lambda>ch. \<not> is_eol ch) (takeWhile (\<lambda>ch. \<not> is_eol ch) b) = []"
    using set_takeWhileD by (fastforce simp: dropWhile_eq_Nil_conv)
  moreover have "dropWhile (\<lambda>ch. \<not> is_eol ch) e = e"
    using parse_end_whole [OF assms] by (cases e) auto
  ultimately show ?thesis
    by (metis append_Nil dropWhile_append dropWhile_append1 dropWhile_append2 dropWhile_eq_Nil_conv)
qed

lemma line_ok_comment:
  assumes "comment_line s = Some (l, r)"
  shows "line_ok l"
proof -
  let ?t = "drop 2 (skip_nul s)" and ?b = "takeWhile (\<lambda>ch. \<not> is_eol ch) (drop 2 (skip_nul s))"
  have p: "take 2 (skip_nul s) = ''--''" using assms by (auto simp: comment_line_def Let_def split: if_splits)
  have dash: "\<not> is_eol CHR ''-''" by (simp add: is_eol_def)
  show ?thesis
  proof (cases "parse_end (dropWhile (\<lambda>ch. \<not> is_eol ch) ?t)")
    case None
    then have "l = Query_line_comment (''--'' @ ?b)"
      using assms p by (auto simp: comment_line_def Let_def split: if_splits)
    moreover have "dropWhile (\<lambda>ch. \<not> is_eol ch) ?b = []"
      using set_takeWhileD by (fastforce simp: dropWhile_eq_Nil_conv)
    ultimately show ?thesis using dash by (simp add: line_ok_def)
  next
    case (Some x)
    then obtain e where e: "x = (e, r)" "l = Query_line_comment (''--'' @ ?b @ e)"
      using assms p by (cases x) (simp add: comment_line_def Let_def)
    then show ?thesis
      using dropWhile_body [OF Some [unfolded e(1)]] parse_end_whole [OF Some [unfolded e(1)]] dash by (simp add: line_ok_def)
  qed
qed

lemma not_comment: "comment_line s = None \<Longrightarrow> take 2 (skip_nul s) \<noteq> ''--''"
  by (auto simp: comment_line_def Let_def after_body split: option.splits if_splits)

lemma take_2_prefix: "take 2 (v :: string) = ''--'' \<Longrightarrow> take 2 (v @ t) = ''--''"
  by (cases v; cases "tl v") auto

lemma line_ok_text:
  assumes "comment_line s = None" "text_line s = Some (l, r)"
  shows "line_ok l"
proof -
  obtain e where e: "parse_end (dropWhile (\<lambda>ch. \<not> is_eol ch) (skip_nul s)) = Some (e, r)"
      "l = Query_line_text (takeWhile (\<lambda>ch. \<not> is_eol ch) (skip_nul s) @ e)"
    using assms(2) by (auto simp: text_line_def Let_def split: option.splits)
  have "take 2 (line_value l) \<noteq> ''--''"
    using text_line_split [OF assms(2)] not_comment [OF assms(1)] take_2_prefix by metis
  then show ?thesis using e(2) dropWhile_body [OF e(1)] parse_end_whole [OF e(1)] by (simp add: line_ok_def)
qed

lemma line_ok_last:
  assumes "comment_line s = None" "last_line s = Some (l, r)"
  shows "line_ok l"
proof -
  have l: "l = Query_line_text (takeWhile (\<lambda>ch. \<not> is_eol ch) (skip_nul s))"
    using assms(2) by (auto simp: last_line_def Let_def split: if_splits)
  have "dropWhile (\<lambda>ch. \<not> is_eol ch) (line_value l) = []"
    using set_takeWhileD by (fastforce simp: dropWhile_eq_Nil_conv l)
  moreover have "take 2 (line_value l) \<noteq> ''--''" "line_value l \<noteq> []"
    using last_line_split [OF assms(2)] not_comment [OF assms(1)] take_2_prefix by metis+
  ultimately show ?thesis using l by (simp add: line_ok_def)
qed

lemma parse_line_ok: "parse_line s = Some (l, r) \<Longrightarrow> line_ok l"
  by (auto simp: parse_line_def line_ok_comment line_ok_text line_ok_last split: option.splits)

lemma parse_lines_ok:
  "skip_nul (snd (parse_lines s)) = [] \<and> list_all line_ok (fst (parse_lines s)) \<and>
   filter not_nul (concat (map line_value (fst (parse_lines s)))) = filter not_nul s"
proof (induction s rule: parse_lines.induct)
  case (1 s)
  show ?case
  proof (cases "parse_line s")
    case None
    then have "parse_lines s = ([], s)" by (simp add: parse_lines.simps [of s])
    then show ?thesis using None by (simp add: parse_line_None skip_nul_Nil)
  next
    case (Some x)
    then obtain l r where x: "parse_line s = Some (l, r)" by (cases x) simp
    obtain t where t: "skip_nul s = line_value l @ t" "t = r \<or> r = [] \<and> skip_nul t = []"
      using x by (rule parse_line_split)
    from t(2) have "filter not_nul t = filter not_nul r" by (auto simp: skip_nul_Nil)
    then have "filter not_nul s = filter not_nul (line_value l) @ filter not_nul r"
      using filter_skip_nul [of s] t(1) by simp
    moreover have "parse_lines s = (l # fst (parse_lines r), snd (parse_lines r))"
      using x by (simp add: parse_lines.simps [of s] case_prod_beta Let_def)
    ultimately show ?thesis using 1 [OF x refl] parse_line_ok [OF x] by simp
  qed
qed

text \<open>Every text is split into lines, so a query configuration never fails at this stage. The lines put one
  after the other are the text again, NUL characters apart (a literal passed as a \<open>char\<close> array ends with one).
  A line is not empty and has a line end at most at its end; it is a comment exactly if it starts with two
  dashes.\<close>

theorem query_conf_lines_lossless:
  "\<exists>ls. parse_query_conf_lines s = Inr ls \<and> list_all line_ok ls \<and>
     filter not_nul (concat (map line_value ls)) = filter not_nul s"
  using parse_lines_ok [of s] by (simp add: parse_query_conf_lines_def case_prod_beta Let_def)

section \<open>Headers\<close>

text \<open>A literal outside a \<open>lexeme\<close>, and \<open>*space\<close>, which drops the skipped characters as well.\<close>

definition parse_lit :: "string \<Rightarrow> string \<Rightarrow> string option" where
  "parse_lit l s = (let t = skip_nul s in if take (length l) t = l then Some (drop (length l) t) else None)"

definition skip_spaces :: "string \<Rightarrow> string" where
  "skip_spaces s = dropWhile (\<lambda>ch. is_space ch \<or> \<not> not_nul ch) s"

definition parse_name :: "string \<Rightarrow> (string \<times> string) option" where
  "parse_name s0 =
     (let s = skip_nul s0; name = takeWhile (\<lambda>ch. \<not> is_eol ch) s
      in if name = [] then None else Some (name, dropWhile (\<lambda>ch. \<not> is_eol ch) s))"

definition parse_opt_eol :: "string \<Rightarrow> string" where
  "parse_opt_eol s = (case parse_end (skip_nul s) of Some (_, r) \<Rightarrow> r | None \<Rightarrow> s)"

definition parse_header :: "string \<Rightarrow> string option" where
  "parse_header s =
     Option.bind (parse_lit ''--'' s) (\<lambda>s1.
     Option.bind (parse_lit ''name'' (skip_spaces s1)) (\<lambda>s2.
     Option.bind (parse_lit '':'' (skip_spaces s2)) (\<lambda>s3.
     Option.bind (parse_name (skip_spaces s3)) (\<lambda>(name, s4).
     if skip_nul (parse_opt_eol s4) = [] then Some name else None))))"

section \<open>Query text\<close>

datatype query_text_element = Query_text_part string | Query_parameter_name string

definition is_name_char :: "char \<Rightarrow> bool" where
  "is_name_char ch \<longleftrightarrow>
     (let c = of_char ch :: nat
      in ch = CHR ''_'' \<or> 48 \<le> c \<and> c \<le> 57 \<or> 65 \<le> c \<and> c \<le> 90 \<or> 97 \<le> c \<and> c \<le> 122)"

text \<open>One repetition of \<open>text_part\<close>, \<open>text_part\<close> and \<open>parameter_name\<close>.\<close>

definition text_piece :: "string \<Rightarrow> (string \<times> string) option" where
  "text_piece s0 =
     (let s = skip_nul s0
      in if take 2 s = ''::'' then Some (''::'', drop 2 s)
         else if take 2 s = '':='' then Some ('':='', drop 2 s)
         else let t = takeWhile (\<lambda>ch. ch \<noteq> CHR '':'' \<and> not_nul ch) s
              in if t = [] then None else Some (t, dropWhile (\<lambda>ch. ch \<noteq> CHR '':'' \<and> not_nul ch) s))"

lemma text_piece_split: "text_piece s = Some (t, r) \<Longrightarrow> skip_nul s = t @ r \<and> t \<noteq> []"
  by (auto simp: text_piece_def Let_def split: if_splits intro: takeWhile_dropWhile_id [symmetric])

lemma text_piece_shorter:
  assumes "text_piece s = Some (t, r)"
  shows "length r < length s"
proof -
  have "length (t @ r) \<le> length s" "0 < length t"
    using text_piece_split [OF assms] length_skip_nul [of s] by auto
  then show ?thesis unfolding length_append by linarith
qed

function text_pieces :: "string \<Rightarrow> string \<times> string" where
  "text_pieces s =
     (case text_piece s of None \<Rightarrow> ([], s) | Some (t, r) \<Rightarrow> (let (ts, r') = text_pieces r in (t @ ts, r')))"
  by pat_completeness auto
termination
  by (relation "measure length") (auto dest: text_piece_shorter)

declare text_pieces.simps [simp del]

definition text_part :: "string \<Rightarrow> (string \<times> string) option" where
  "text_part s = (if text_piece s = None then None else Some (text_pieces s))"

definition parameter_name :: "string \<Rightarrow> (string \<times> string) option" where
  "parameter_name s =
     Option.bind (parse_lit '':'' s) (\<lambda>s1.
       let s2 = skip_nul s1; name = takeWhile is_name_char s2
       in if name = [] then None else Some (name, dropWhile is_name_char s2))"

definition text_element :: "string \<Rightarrow> (query_text_element \<times> string) option" where
  "text_element s =
     (case parameter_name s of
        Some (n, r) \<Rightarrow> Some (Query_parameter_name n, r)
      | None \<Rightarrow> (case text_part s of Some (t, r) \<Rightarrow> Some (Query_text_part t, r) | None \<Rightarrow> None))"

lemma text_pieces_rest: "length (snd (text_pieces s)) \<le> length s \<and> text_piece (snd (text_pieces s)) = None"
proof (induction s rule: text_pieces.induct)
  case (1 s)
  show ?case
  proof (cases "text_piece s")
    case None
    then show ?thesis by (simp add: text_pieces.simps [of s])
  next
    case (Some x)
    then obtain t r where x: "text_piece s = Some (t, r)" by (cases x) simp
    then have "text_pieces s = (t @ fst (text_pieces r), snd (text_pieces r))"
      by (simp add: text_pieces.simps [of s] case_prod_beta Let_def)
    with 1 [OF x refl] text_piece_shorter [OF x] show ?thesis by simp
  qed
qed

lemma text_part_shorter: "text_part s = Some (t, r) \<Longrightarrow> length r < length s"
proof -
  assume a: "text_part s = Some (t, r)"
  then obtain u v where x: "text_piece s = Some (u, v)" by (auto simp: text_part_def split: if_splits)
  then have "r = snd (text_pieces v)"
    using a by (simp add: text_part_def text_pieces.simps [of s] case_prod_beta Let_def)
  with text_pieces_rest [of v] text_piece_shorter [OF x] show ?thesis by simp
qed

lemma parse_lit_shorter:
  assumes "parse_lit l s = Some r"
  shows "length r + length l \<le> length s"
proof -
  from assms have t: "take (length l) (skip_nul s) = l" and r: "r = drop (length l) (skip_nul s)"
    by (auto simp: parse_lit_def Let_def split: if_splits)
  from arg_cong [OF t, of length] have "length l \<le> length (skip_nul s)" by (simp only: length_take)
  then show ?thesis using r length_skip_nul [of s] by simp
qed

lemma parameter_name_shorter: "parameter_name s = Some (n, r) \<Longrightarrow> length r < length s"
proof -
  assume "parameter_name s = Some (n, r)"
  then obtain u where u: "parse_lit '':'' s = Some u" "r = dropWhile is_name_char (skip_nul u)"
    by (auto simp: parameter_name_def Let_def bind_eq_Some_conv split: if_splits)
  show ?thesis
    using parse_lit_shorter [OF u(1)] length_skip_nul [of u] length_dropWhile_le [of is_name_char "skip_nul u"] u(2) by simp
qed

lemma text_element_shorter: "text_element s = Some (e, r) \<Longrightarrow> length r < length s"
  by (auto simp: text_element_def dest: parameter_name_shorter text_part_shorter split: option.splits)

function text_elements :: "string \<Rightarrow> query_text_element list \<times> string" where
  "text_elements s =
     (case text_element s of None \<Rightarrow> ([], s) | Some (e, r) \<Rightarrow> (let (es, r') = text_elements r in (e # es, r')))"
  by pat_completeness auto
termination
  by (relation "measure length") (auto dest: text_element_shorter)

declare text_elements.simps [simp del]

definition parse_text :: "string \<Rightarrow> exn + query_text_element list" where
  "parse_text s = (let (es, r) = text_elements s in if skip_nul r = [] then Inr es else Inl Invalid_argument)"

text \<open>The text of an element, and the element lists that parsing gives: a text part has colons only in \<open>::\<close>
  and \<open>:=\<close> and is as long as it can be, and so is a parameter name.\<close>

fun elem_text :: "query_text_element \<Rightarrow> string" where
  "elem_text (Query_text_part t) = t"
| "elem_text (Query_parameter_name n) = CHR '':'' # n"

fun plain_text :: "string \<Rightarrow> bool" where
  "plain_text [] = True"
| "plain_text [c] = (c \<noteq> CHR '':'' \<and> not_nul c)"
| "plain_text (c # d # cs) =
     (if c = CHR '':'' then (d = CHR '':'' \<or> d = CHR ''='') \<and> plain_text cs else not_nul c \<and> plain_text (d # cs))"

fun canonical :: "query_text_element list \<Rightarrow> bool" where
  "canonical [] = True"
| "canonical (Query_parameter_name n # es) =
     (n \<noteq> [] \<and> list_all is_name_char n \<and> canonical es \<and>
      (case es of Query_text_part t # _ \<Rightarrow> \<not> is_name_char (hd t) | _ \<Rightarrow> True))"
| "canonical (Query_text_part t # es) =
     (t \<noteq> [] \<and> plain_text t \<and> canonical es \<and> (case es of Query_text_part _ # _ \<Rightarrow> False | _ \<Rightarrow> True))"

lemma skip_nul_Cons [simp]: "not_nul c \<Longrightarrow> skip_nul (c # s) = c # s"
  by (simp add: skip_nul_def)

lemma not_nul_literal [simp]: "not_nul CHR '':''" "not_nul CHR ''=''"
  by (simp_all add: not_nul_def)

lemma is_name_char_nul: "is_name_char c \<Longrightarrow> not_nul c \<and> c \<noteq> CHR '':'' \<and> c \<noteq> CHR ''=''"
  by (auto simp: is_name_char_def not_nul_def Let_def)

lemma text_piece_colon:
  "text_piece (CHR '':'' # s) =
     (case s of d # r \<Rightarrow> (if d = CHR '':'' \<or> d = CHR ''='' then Some ([CHR '':'', d], r) else None) | [] \<Rightarrow> None)"
  by (cases s) (auto simp: text_piece_def)

lemma text_piece_plain:
  assumes "c \<noteq> CHR '':''" "not_nul c"
  shows "text_piece (c # s) =
    Some (c # takeWhile (\<lambda>ch. ch \<noteq> CHR '':'' \<and> not_nul ch) s, dropWhile (\<lambda>ch. ch \<noteq> CHR '':'' \<and> not_nul ch) s)"
  using assms by (simp add: text_piece_def Let_def)

lemma text_pieces_step:
  "text_piece s = Some (t, r) \<Longrightarrow> text_pieces s = (t @ fst (text_pieces r), snd (text_pieces r))"
  by (simp add: text_pieces.simps [of s] case_prod_beta Let_def)

lemma text_pieces_stop: "text_piece s = None \<Longrightarrow> text_pieces s = ([], s)"
  by (simp add: text_pieces.simps [of s])

lemma text_piece_Nil [simp]: "text_piece [] = None"
  by (simp add: text_piece_def)

lemma text_pieces_plain:
  assumes "c \<noteq> CHR '':''" "not_nul c"
  shows "text_pieces (c # s) = (c # fst (text_pieces s), snd (text_pieces s))"
proof (cases "\<exists>d s'. s = d # s' \<and> d \<noteq> CHR '':'' \<and> not_nul d")
  case True
  then obtain d s' where s: "s = d # s'" "d \<noteq> CHR '':''" "not_nul d" by blast
  then show ?thesis
    using text_pieces_step [OF text_piece_plain [OF assms, of s]] text_pieces_step [OF text_piece_plain [of d s']] by simp
next
  case False
  then have "takeWhile (\<lambda>ch. ch \<noteq> CHR '':'' \<and> not_nul ch) s = []" "dropWhile (\<lambda>ch. ch \<noteq> CHR '':'' \<and> not_nul ch) s = s"
    by (cases s; auto)+
  then show ?thesis using text_pieces_step [OF text_piece_plain [OF assms, of s]] by simp
qed

lemma text_pieces_append:
  "plain_text t \<Longrightarrow> text_piece u = None \<Longrightarrow> text_pieces (t @ u) = (t, u)"
proof (induction t rule: plain_text.induct)
  case 1
  then show ?case by (simp add: text_pieces_stop)
next
  case (2 c)
  then show ?case by (simp add: text_pieces_plain text_pieces_stop)
next
  case (3 c d cs)
  show ?case
  proof (cases "c = CHR '':''")
    case True
    with 3 show ?thesis using text_pieces_step [of "c # d # cs @ u" "[c, d]" "cs @ u"] by (simp add: text_piece_colon)
  next
    case False
    with 3 show ?thesis by (simp add: text_pieces_plain)
  qed
qed

lemma text_elements_step:
  "text_element s = Some (e, r) \<Longrightarrow> text_elements s = (e # fst (text_elements r), snd (text_elements r))"
  by (simp add: text_elements.simps [of s] case_prod_beta Let_def)

lemma text_elements_stop: "text_element s = None \<Longrightarrow> text_elements s = ([], s)"
  by (simp add: text_elements.simps [of s])

lemma parameter_name_colon:
  "not_nul (hd s) \<Longrightarrow> parameter_name (CHR '':'' # s) =
     (if takeWhile is_name_char s = [] then None else Some (takeWhile is_name_char s, dropWhile is_name_char s))"
  by (cases s) (simp_all add: parameter_name_def parse_lit_def Let_def)

lemma parameter_name_plain: "c \<noteq> CHR '':'' \<Longrightarrow> not_nul c \<Longrightarrow> parameter_name (c # s) = None"
  by (simp add: parameter_name_def parse_lit_def)

lemma parameter_name_Nil [simp]: "parameter_name [] = None"
  by (simp add: parameter_name_def parse_lit_def)

lemma plain_text_Cons: "c \<noteq> CHR '':'' \<Longrightarrow> plain_text (c # s) \<longleftrightarrow> not_nul c \<and> plain_text s"
  by (cases s) auto

lemma not_name_char_colon [simp]: "\<not> is_name_char CHR '':''" "\<not> is_name_char CHR ''=''"
  by (simp_all add: is_name_char_def)

lemma takeWhile_names:
  "list_all is_name_char n \<Longrightarrow> u = [] \<or> \<not> is_name_char (hd u) \<Longrightarrow>
     takeWhile is_name_char (n @ u) = n \<and> dropWhile is_name_char (n @ u) = u"
  by (induction n) (cases u; auto)+

lemma canonical_head:
  assumes "canonical es" "concat (map elem_text es) = u"
  shows "(case es of [] \<Rightarrow> u = []
          | Query_parameter_name n # _ \<Rightarrow> hd u = CHR '':'' \<and> text_piece u = None
          | Query_text_part t # _ \<Rightarrow> hd u = hd t)"
proof (cases es)
  case (Cons e es')
  show ?thesis
  proof (cases e)
    case (Query_parameter_name n)
    then have n: "is_name_char (hd n)" "n \<noteq> []" using assms Cons by (cases n; simp)+
    then obtain d m where "n = d # m" "is_name_char d" by (cases n) auto
    then show ?thesis
      using assms Cons Query_parameter_name is_name_char_nul [of d] by (auto simp: text_piece_colon)
  qed (use assms Cons in auto)
qed (use assms in simp)

lemma text_elements_canonical: "canonical es \<Longrightarrow> text_elements (concat (map elem_text es)) = (es, [])"
proof (induction es rule: canonical.induct)
  case 1
  then show ?case by (simp add: text_elements_stop text_element_def text_part_def)
next
  case (2 n es)
  let ?u = "concat (map elem_text es)"
  have n: "n \<noteq> []" "list_all is_name_char n" "canonical es" using 2 by auto
  have u: "?u = [] \<or> \<not> is_name_char (hd ?u)"
    using canonical_head [OF n(3) refl] 2(2) by (auto split: list.splits query_text_element.splits)
  have "not_nul (hd (n @ ?u))" using n is_name_char_nul by (cases n) auto
  then have "parameter_name (CHR '':'' # n @ ?u) = Some (n, ?u)"
    using takeWhile_names [OF n(2) u] n(1) by (simp add: parameter_name_colon)
  then have "text_element (CHR '':'' # n @ ?u) = Some (Query_parameter_name n, ?u)" by (simp add: text_element_def)
  from text_elements_step [OF this] show ?case using 2(1) n(3) by simp
next
  case (3 t es)
  let ?u = "concat (map elem_text es)"
  have t: "t \<noteq> []" "plain_text t" "canonical es" using 3 by auto
  have u: "text_piece ?u = None"
    using canonical_head [OF t(3) refl] 3(2) by (auto split: list.splits query_text_element.splits)
  have p: "parameter_name (t @ ?u) = None"
  proof (cases "hd t = CHR '':''")
    case True
    with t obtain d t' where "t = CHR '':'' # d # t'" "d = CHR '':'' \<or> d = CHR ''=''"
      by (cases t rule: plain_text.cases) (auto split: if_splits)
    then show ?thesis by (auto simp: parameter_name_colon)
  next
    case False
    with t show ?thesis by (cases t) (auto simp: plain_text_Cons parameter_name_plain)
  qed
  have "text_piece (t @ ?u) \<noteq> None"
    using text_pieces_append [OF t(2) u] text_pieces_stop [of "t @ ?u"] t(1) by fastforce
  then have "text_element (t @ ?u) = Some (Query_text_part t, ?u)"
    using p text_pieces_append [OF t(2) u] by (simp add: text_element_def text_part_def)
  from text_elements_step [OF this] show ?case using 3(1) t(3) by simp
qed

lemma plain_text_append: "list_all (\<lambda>ch. ch \<noteq> CHR '':'' \<and> not_nul ch) t \<Longrightarrow> plain_text u \<Longrightarrow> plain_text (t @ u)"
  by (induction t) (auto simp: plain_text_Cons)

lemma plain_text_piece:
  assumes "text_piece s = Some (t, r)" "plain_text u"
  shows "plain_text (t @ u)"
proof -
  let ?run = "takeWhile (\<lambda>ch. ch \<noteq> CHR '':'' \<and> not_nul ch) (skip_nul s)"
  have "list_all (\<lambda>ch. ch \<noteq> CHR '':'' \<and> not_nul ch) ?run"
    using set_takeWhileD by (fastforce simp: list_all_iff)
  moreover have "t = ''::'' \<or> t = '':='' \<or> t = ?run"
    using assms(1) unfolding text_piece_def Let_def by (metis (no_types, lifting) Pair_inject option.distinct(1) option.inject)
  ultimately show ?thesis using assms(2) plain_text_append by (elim disjE) auto
qed

lemma skip_nul_id: "list_all not_nul s \<Longrightarrow> skip_nul s = s"
  by (cases s) simp_all

lemma list_all_not_nul_split: "s = t @ r \<Longrightarrow> list_all not_nul s \<Longrightarrow> list_all not_nul r"
  by simp

lemma text_pieces_split:
  "list_all not_nul s \<Longrightarrow> s = fst (text_pieces s) @ snd (text_pieces s) \<and> plain_text (fst (text_pieces s))"
proof (induction s rule: text_pieces.induct)
  case (1 s)
  show ?case
  proof (cases "text_piece s")
    case None
    then show ?thesis by (simp add: text_pieces_stop)
  next
    case (Some x)
    then obtain t r where x: "text_piece s = Some (t, r)" by (cases x) simp
    have s: "s = t @ r" using text_piece_split [OF x] skip_nul_id [OF 1(2)] by simp
    have "r = fst (text_pieces r) @ snd (text_pieces r) \<and> plain_text (fst (text_pieces r))"
      using 1(1) [OF x refl] list_all_not_nul_split [OF s 1(2)] by simp
    with s plain_text_piece [OF x] show ?thesis unfolding text_pieces_step [OF x] by simp
  qed
qed

text \<open>An element is as long as it can be.\<close>

fun element_ends :: "query_text_element \<Rightarrow> string \<Rightarrow> bool" where
  "element_ends (Query_parameter_name n) r \<longleftrightarrow> n \<noteq> [] \<and> list_all is_name_char n \<and> (r = [] \<or> \<not> is_name_char (hd r))"
| "element_ends (Query_text_part t) r \<longleftrightarrow> t \<noteq> [] \<and> plain_text t \<and> text_piece r = None"

lemma text_element_split:
  assumes "text_element s = Some (e, r)" "list_all not_nul s"
  shows "s = elem_text e @ r \<and> element_ends e r"
proof (cases "parameter_name s")
  case (Some x)
  then obtain u where u: "parse_lit '':'' s = Some u" "takeWhile is_name_char (skip_nul u) \<noteq> []"
      "e = Query_parameter_name (takeWhile is_name_char (skip_nul u))" "r = dropWhile is_name_char (skip_nul u)"
    using assms(1) by (auto simp: text_element_def parameter_name_def Let_def bind_eq_Some_conv split: if_splits)
  then have s: "s = CHR '':'' # u"
    using skip_nul_id [OF assms(2)] by (cases s) (auto simp: parse_lit_def Let_def split: if_splits)
  then have "skip_nul u = u" using assms(2) skip_nul_id by simp
  then show ?thesis
    using u s hd_dropWhile [of is_name_char "skip_nul u"] set_takeWhileD [of _ is_name_char "skip_nul u"]
    by (auto simp: list_all_iff)
next
  case None
  then have e: "text_piece s \<noteq> None" "e = Query_text_part (fst (text_pieces s))" "r = snd (text_pieces s)"
    using assms(1) by (auto simp: text_element_def text_part_def case_prod_beta split: if_splits)
  from e(1) obtain t v where x: "text_piece s = Some (t, v)" by auto
  then have "fst (text_pieces s) \<noteq> []" using text_piece_split [OF x] text_pieces_step [OF x] by simp
  then show ?thesis using e text_pieces_split [OF assms(2)] text_pieces_rest [of s] by simp
qed

lemma canonical_ends:
  assumes "element_ends e s" "canonical es" "s = concat (map elem_text es) @ r"
    "\<And>t es'. es = Query_text_part t # es' \<Longrightarrow> text_piece s \<noteq> None"
  shows "canonical (e # es)"
proof (cases e)
  case (Query_text_part t)
  then show ?thesis using assms by (auto split: list.splits query_text_element.splits)
next
  case (Query_parameter_name n)
  then show ?thesis using assms(1-3) by (auto split: list.splits query_text_element.splits)
qed

lemma text_elements_split:
  "list_all not_nul s \<Longrightarrow>
     s = concat (map elem_text (fst (text_elements s))) @ snd (text_elements s) \<and> canonical (fst (text_elements s))"
proof (induction s rule: text_elements.induct)
  case (1 s)
  show ?case
  proof (cases "text_element s")
    case None
    then show ?thesis by (simp add: text_elements_stop)
  next
    case (Some x)
    then obtain e r where x: "text_element s = Some (e, r)" by (cases x) simp
    note e = text_element_split [OF x 1(2)]
    then have r: "list_all not_nul r" using list_all_not_nul_split [of s _ r] 1(2) by blast
    note ih = 1(1) [OF x refl r]
    have "text_piece r \<noteq> None" if "fst (text_elements r) = Query_text_part t # es'" for t es'
    proof (cases "text_element r")
      case None
      with that show ?thesis by (simp add: text_elements_stop)
    next
      case (Some y)
      with that have "fst y = Query_text_part t" using text_elements_step [of r "fst y" "snd y"] by simp
      with Some show ?thesis by (auto simp: text_element_def text_part_def split: option.splits if_splits)
    qed
    then have "canonical (e # fst (text_elements r))"
      using canonical_ends [of e r "fst (text_elements r)" "snd (text_elements r)"] e ih by blast
    with e ih show ?thesis unfolding text_elements_step [OF x] by simp
  qed
qed

text \<open>C29: in a text without NUL characters the parser finds exactly the one way to read it as parameters and
  text parts that are as long as possible, where a text part has colons only in \<open>::\<close> and \<open>:=\<close>; the text of the
  elements put one after the other is the text of the line. It rejects the text with \<open>invalid_argument\<close> if and
  only if there is no such reading.\<close>

theorem parse_text_characterised:
  assumes "list_all not_nul s"
  shows "(parse_text s = Inr es \<longleftrightarrow> canonical es \<and> concat (map elem_text es) = s) \<and>
    (parse_text s = Inl Invalid_argument \<longleftrightarrow> \<not> (\<exists>es. canonical es \<and> concat (map elem_text es) = s))"
proof -
  have r: "list_all not_nul (snd (text_elements s))"
    using text_elements_split [OF assms] list_all_not_nul_split assms by blast
  have p: "parse_text s = (if snd (text_elements s) = [] then Inr (fst (text_elements s)) else Inl Invalid_argument)"
    using skip_nul_id [OF r] by (simp add: parse_text_def case_prod_beta Let_def)
  have "parse_text s = Inr es \<longleftrightarrow> canonical es \<and> concat (map elem_text es) = s" for es
    using text_elements_split [OF assms] text_elements_canonical [of es] p by auto
  then show ?thesis using p by (metis sum.distinct(1))
qed

theorem parse_text_characterised_witness:
  "parse_text ''SELECT :a::integer'' =
     Inr [Query_text_part ''SELECT '', Query_parameter_name ''a'', Query_text_part ''::integer''] \<and>
   list_all not_nul ''SELECT :a::integer''"
proof -
  have n: "list_all not_nul ''SELECT :a::integer''" by (simp add: not_nul_def)
  have "canonical [Query_text_part ''SELECT '', Query_parameter_name ''a'', Query_text_part ''::integer'']"
    by (simp add: not_nul_def is_name_char_def)
  with parse_text_characterised [OF n, of "[Query_text_part ''SELECT '', Query_parameter_name ''a'', Query_text_part ''::integer'']"] n
  show ?thesis by simp
qed

end
