(* ===== verification/Bozo_Query_Repository.thy ===== *)
theory Bozo_Query_Repository
  imports Bozo_Query_Conf
begin

text \<open>
  The second half of \<open>query_conf.h\<close>: the queries of a configuration are collected from its lines, matched with
  the queries the program declares, and their parameters are numbered. \<open>query_repository\<close> then gives the text of a
  declared query.
\<close>

section \<open>Queries of a configuration\<close>

record parsed_query =
  pq_name :: string
  pq_text :: "query_text_element list"

datatype state_type = initial | header_parsed

record line_visitor =
  lv_state :: state_type
  lv_queries :: "parsed_query list"

definition visit_comment :: "string \<Rightarrow> line_visitor \<Rightarrow> line_visitor" where
  "visit_comment c v =
     (case parse_header c of
        Some name \<Rightarrow> v\<lparr>lv_state := header_parsed, lv_queries := lv_queries v @ [\<lparr>pq_name = name, pq_text = []\<rparr>]\<rparr>
      | None \<Rightarrow> v)"

text \<open>\<open>queries.back().text.insert(...)\<close>.\<close>

definition append_back :: "query_text_element list \<Rightarrow> parsed_query list \<Rightarrow> parsed_query list" where
  "append_back es qs = butlast qs @ [(last qs)\<lparr>pq_text := pq_text (last qs) @ es\<rparr>]"

definition visit_text :: "string \<Rightarrow> line_visitor \<Rightarrow> exn + line_visitor" where
  "visit_text t v =
     (case lv_state v of
        initial \<Rightarrow> Inl Invalid_argument
      | header_parsed \<Rightarrow> sbind (parse_text t) (\<lambda>es. Inr (v\<lparr>lv_queries := append_back es (lv_queries v)\<rparr>)))"

fun visit_line :: "query_line \<Rightarrow> line_visitor \<Rightarrow> exn + line_visitor" where
  "visit_line (Query_line_comment c) v = Inr (visit_comment c v)"
| "visit_line (Query_line_text t) v = visit_text t v"

fun visit_lines :: "query_line list \<Rightarrow> line_visitor \<Rightarrow> exn + line_visitor" where
  "visit_lines [] v = Inr v"
| "visit_lines (l # ls) v = sbind (visit_line l v) (visit_lines ls)"

definition parse_query_conf_elements :: "query_line list \<Rightarrow> exn + parsed_query list" where
  "parse_query_conf_elements ls =
     sbind (visit_lines ls \<lparr>lv_state = initial, lv_queries = []\<rparr>) (\<lambda>v. Inr (lv_queries v))"

definition parse_query_conf :: "string \<Rightarrow> exn + parsed_query list" where
  "parse_query_conf s = sbind (parse_query_conf_lines s) parse_query_conf_elements"

text \<open>A declared query: its name and the type of its parameters, a structure with named members or a tuple.\<close>

datatype parameters_type = Members "string list" | Tuple nat

record query_decl =
  qd_name :: string
  qd_params :: parameters_type

fun check_for_duplicates :: "string list \<Rightarrow> string list \<Rightarrow> exn + string list" where
  "check_for_duplicates names [] = Inr names"
| "check_for_duplicates names (n # ns) =
     (if n \<in> set names then Inl Invalid_argument else check_for_duplicates (n # names) ns)"

fun check_for_undefined :: "query_decl list \<Rightarrow> string list \<Rightarrow> exn + unit" where
  "check_for_undefined [] definitions = Inr ()"
| "check_for_undefined (q # qs) definitions =
     (if qd_name q \<in> set definitions then check_for_undefined qs definitions else Inl Invalid_argument)"

text \<open>The number of a parameter. \<open>convert\<close> is \<open>boost::conversion::try_lexical_convert\<close> to \<open>std::size_t\<close>.\<close>

definition member_number :: "string list \<Rightarrow> string \<Rightarrow> bool \<times> nat" where
  "member_number keys v =
     foldl (\<lambda>(found, number) key. if key = v then (True, number) else (found, if \<not> found then number + 1 else number))
       (False, 0) keys"

fun parameter_number :: "(string \<Rightarrow> nat option) \<Rightarrow> parameters_type \<Rightarrow> string \<Rightarrow> exn + nat" where
  "parameter_number convert (Members keys) v =
     (let (found, number) = member_number keys v in if \<not> found then Inl Invalid_argument else Inr number)"
| "parameter_number convert (Tuple n) v =
     (case convert v of None \<Rightarrow> Inl Invalid_argument
      | Some number \<Rightarrow> if n \<le> number then Inl Out_of_range else Inr number)"

text \<open>\<open>query_part_visitor\<close>; \<open>std::to_string\<close> prints the same numeral as the query builder.\<close>

fun visit_part :: "(string \<Rightarrow> nat option) \<Rightarrow> query_decl \<Rightarrow> query_text_element \<Rightarrow> string \<Rightarrow> exn + string" where
  "visit_part convert q (Query_text_part t) sql = Inr (sql @ t)"
| "visit_part convert q (Query_parameter_name n) sql =
     sbind (parameter_number convert (qd_params q) n) (\<lambda>number. Inr (sql @ ''$'' @ nat_to_string (number + 1)))"

fun visit_parts :: "(string \<Rightarrow> nat option) \<Rightarrow> query_decl \<Rightarrow> query_text_element list \<Rightarrow> string \<Rightarrow> exn + string" where
  "visit_parts convert q [] sql = Inr sql"
| "visit_parts convert q (e # es) sql = sbind (visit_part convert q e sql) (visit_parts convert q es)"

definition trim_spaces :: "string \<Rightarrow> string" where
  "trim_spaces s = rev (dropWhile is_space (rev (dropWhile is_space s)))"

record query_description =
  qdn_name :: string
  qdn_text :: string

definition make_query_description :: "(string \<Rightarrow> nat option) \<Rightarrow> query_decl \<Rightarrow> parsed_query \<Rightarrow> exn + query_description" where
  "make_query_description convert q p =
     sbind (visit_parts convert q (pq_text p) []) (\<lambda>sql. Inr \<lparr>qdn_name = pq_name p, qdn_text = trim_spaces sql\<rparr>)"

text \<open>The loop over the declarations keeps the description of the last one that has the name.\<close>

fun describe_declared ::
  "(string \<Rightarrow> nat option) \<Rightarrow> query_decl list \<Rightarrow> parsed_query \<Rightarrow> query_description option \<Rightarrow> exn + query_description" where
  "describe_declared convert [] p d = (case d of None \<Rightarrow> Inl Invalid_argument | Some x \<Rightarrow> Inr x)"
| "describe_declared convert (q # qs) p d =
     (if qd_name q = pq_name p then sbind (make_query_description convert q p) (\<lambda>x. describe_declared convert qs p (Some x))
      else describe_declared convert qs p d)"

fun make_query_descriptions ::
  "(string \<Rightarrow> nat option) \<Rightarrow> query_decl list \<Rightarrow> parsed_query list \<Rightarrow> exn + query_description list" where
  "make_query_descriptions convert qs [] = Inr []"
| "make_query_descriptions convert qs (p # ps) =
     sbind (describe_declared convert qs p None) (\<lambda>d.
     sbind (make_query_descriptions convert qs ps) (\<lambda>ds. Inr (d # ds)))"

record query_conf =
  qc_descriptions :: "query_description list"
  qc_queries :: "string \<rightharpoonup> string"

text \<open>Insertion into a \<open>std::unordered_map\<close> keeps the entry a key has already.\<close>

definition insert_query :: "(string \<rightharpoonup> string) \<Rightarrow> query_description \<Rightarrow> (string \<rightharpoonup> string)" where
  "insert_query m d = (if m (qdn_name d) = None then m(qdn_name d \<mapsto> qdn_text d) else m)"

definition make_query_conf :: "query_description list \<Rightarrow> query_conf" where
  "make_query_conf ds = \<lparr>qc_descriptions = ds, qc_queries = foldl insert_query Map.empty ds\<rparr>"

definition make_query_repository ::
  "(string \<Rightarrow> nat option) \<Rightarrow> string \<Rightarrow> query_decl list \<Rightarrow> exn + query_conf" where
  "make_query_repository convert conf queries =
     sbind (check_for_duplicates [] (map qd_name queries)) (\<lambda>_.
     sbind (parse_query_conf conf) (\<lambda>parsed.
     sbind (check_for_duplicates [] (map pq_name parsed)) (\<lambda>names.
     sbind (check_for_undefined queries names) (\<lambda>_.
     sbind (make_query_descriptions convert queries parsed) (\<lambda>ds. Inr (make_query_conf ds))))))"

definition get_description :: "query_conf \<Rightarrow> string \<Rightarrow> exn + string" where
  "get_description repo name = (case qc_queries repo name of None \<Rightarrow> Inl Out_of_range | Some sql \<Rightarrow> Inr sql)"

definition repository_make_query :: "query_conf \<Rightarrow> string \<Rightarrow> param list \<Rightarrow> exn + query_source" where
  "repository_make_query repo name params = sbind (get_description repo name) (\<lambda>sql. Inr (Query sql params))"

section \<open>Which repositories are made\<close>

lemma check_for_duplicates_eq:
  "check_for_duplicates names ns =
     (if distinct ns \<and> set ns \<inter> set names = {} then Inr (rev ns @ names) else Inl Invalid_argument)"
  by (induction names ns rule: check_for_duplicates.induct) auto

lemma check_for_undefined_eq:
  "check_for_undefined qs ds = (if qd_name ` set qs \<subseteq> set ds then Inr () else Inl Invalid_argument)"
  by (induction qs ds rule: check_for_undefined.induct) auto

lemma member_number_loop:
  "foldl (\<lambda>(found, number) key. if key = v then (True, number) else (found, if \<not> found then number + 1 else number)) (f, k) keys
     = (f \<or> v \<in> set keys, if f then k else k + length (takeWhile (\<lambda>x. x \<noteq> v) keys))"
  by (induction keys arbitrary: f k) auto

lemma member_number_eq: "member_number keys v = (v \<in> set keys, length (takeWhile (\<lambda>x. x \<noteq> v) keys))"
  by (simp add: member_number_def member_number_loop)

text \<open>What number a parameter has: the position of the first member of its name, or the number it is named by.\<close>

fun denotes :: "(string \<Rightarrow> nat option) \<Rightarrow> parameters_type \<Rightarrow> string \<Rightarrow> nat \<Rightarrow> bool" where
  "denotes convert (Members keys) n k \<longleftrightarrow> k < length keys \<and> keys ! k = n \<and> n \<notin> set (take k keys)"
| "denotes convert (Tuple m) n k \<longleftrightarrow> convert n = Some k \<and> k < m"

lemma first_position:
  assumes "n \<in> set keys"
  shows "k < length keys \<and> keys ! k = n \<and> n \<notin> set (take k keys) \<longleftrightarrow> k = length (takeWhile (\<lambda>x. x \<noteq> n) keys)"
proof -
  obtain ys zs where k: "keys = ys @ n # zs" "n \<notin> set ys" using split_list_first [OF assms] by blast
  then have l: "length (takeWhile (\<lambda>x. x \<noteq> n) keys) = length ys" by (subst k(1), subst takeWhile_append2) auto
  show ?thesis
  proof
    assume a: "k < length keys \<and> keys ! k = n \<and> n \<notin> set (take k keys)"
    have "\<not> k < length ys" using a k by (metis nth_append nth_mem)
    moreover have "\<not> length ys < k" using a k by (auto simp: take_Cons')
    ultimately show "k = length (takeWhile (\<lambda>x. x \<noteq> n) keys)" using l by simp
  qed (use k l in simp)
qed

lemma parameter_number_denotes: "parameter_number convert ps n = Inr k \<longleftrightarrow> denotes convert ps n k"
proof (cases ps)
  case (Members keys)
  show ?thesis
  proof (cases "n \<in> set keys")
    case True
    then show ?thesis using first_position [OF True, of k] Members by (auto simp: member_number_eq)
  next
    case False
    then show ?thesis using Members nth_mem by (fastforce simp: member_number_eq)
  qed
qed (auto split: option.splits)

fun expand :: "(string \<Rightarrow> nat) \<Rightarrow> query_text_element \<Rightarrow> string" where
  "expand number (Query_text_part t) = t"
| "expand number (Query_parameter_name n) = ''$'' @ nat_to_string (number n + 1)"

definition numbers_parameters :: "(string \<Rightarrow> nat option) \<Rightarrow> parameters_type \<Rightarrow> query_text_element list \<Rightarrow> (string \<Rightarrow> nat) \<Rightarrow> bool" where
  "numbers_parameters convert ps es number \<longleftrightarrow>
     (\<forall>n. Query_parameter_name n \<in> set es \<longrightarrow> denotes convert ps n (number n))"

lemma visit_parts_numbered:
  "numbers_parameters convert (qd_params q) es number \<Longrightarrow>
     visit_parts convert q es sql = Inr (sql @ concat (map (expand number) es))"
proof (induction es arbitrary: sql)
  case (Cons e es)
  then have "numbers_parameters convert (qd_params q) es number" by (simp add: numbers_parameters_def)
  with Cons show ?case
    by (cases e) (auto simp: numbers_parameters_def parameter_number_denotes [THEN iffD2])
qed simp

lemma visit_parts_Inr:
  "visit_parts convert q es sql = Inr r \<Longrightarrow>
     numbers_parameters convert (qd_params q) es (\<lambda>n. projr (parameter_number convert (qd_params q) n))"
proof (induction es arbitrary: sql)
  case (Cons e es)
  then obtain x where x: "visit_part convert q e sql = Inr x" "visit_parts convert q es x = Inr r" by auto
  with Cons.IH [OF x(2)] show ?case
    by (cases e) (auto simp: numbers_parameters_def parameter_number_denotes [symmetric])
qed (simp add: numbers_parameters_def)

text \<open>With different names the loop finds the one declaration.\<close>

lemma describe_declared_absent:
  "pq_name p \<notin> qd_name ` set qs \<Longrightarrow>
     describe_declared convert qs p d = (case d of None \<Rightarrow> Inl Invalid_argument | Some x \<Rightarrow> Inr x)"
  by (induction qs) auto

lemma describe_declared_found:
  assumes "distinct (map qd_name qs)" "q \<in> set qs" "qd_name q = pq_name p"
  shows "describe_declared convert qs p d = make_query_description convert q p"
  using assms
proof (induction qs)
  case (Cons x qs)
  show ?case
  proof (cases "x = q")
    case True
    then have "pq_name p \<notin> qd_name ` set qs" using Cons.prems by auto
    then show ?thesis using True Cons.prems
      by (cases "make_query_description convert q p") (simp_all add: describe_declared_absent)
  next
    case False
    then have "q \<in> set qs" "qd_name x \<noteq> pq_name p" using Cons.prems by (auto simp: rev_image_eqI)
    then show ?thesis using Cons by simp
  qed
qed simp

lemma map_add_upd_swap: "r k = None \<Longrightarrow> m(k \<mapsto> v) ++ r = m ++ (r(k \<mapsto> v))"
  by (rule ext) (auto simp: map_add_def split: option.splits)

lemma insert_queries:
  "distinct (map qdn_name ds) \<Longrightarrow> (\<forall>d \<in> set ds. m (qdn_name d) = None) \<Longrightarrow>
     foldl insert_query m ds = m ++ map_of (map (\<lambda>d. (qdn_name d, qdn_text d)) ds)"
proof (induction ds arbitrary: m)
  case (Cons d ds)
  then have "foldl insert_query (m(qdn_name d \<mapsto> qdn_text d)) ds
      = m(qdn_name d \<mapsto> qdn_text d) ++ map_of (map (\<lambda>d. (qdn_name d, qdn_text d)) ds)"
    by (intro Cons.IH) (auto simp: rev_image_eqI)
  moreover have "map_of (map (\<lambda>d. (qdn_name d, qdn_text d)) ds) (qdn_name d) = None"
    using Cons.prems(1) by (simp add: map_of_eq_None_iff image_image)
  moreover have "insert_query m d = m(qdn_name d \<mapsto> qdn_text d)" using Cons.prems(2) by (simp add: insert_query_def)
  ultimately show ?case unfolding foldl.simps list.map map_of.simps prod.sel by (metis map_add_upd_swap)
qed simp

text \<open>The description of one query of the configuration.\<close>

definition describes :: "(string \<Rightarrow> nat option) \<Rightarrow> query_decl list \<Rightarrow> parsed_query \<Rightarrow> query_description \<Rightarrow> bool" where
  "describes convert qs p d \<longleftrightarrow>
     qdn_name d = pq_name p \<and>
     (\<exists>q \<in> set qs. qd_name q = pq_name p \<and>
        (\<exists>number. numbers_parameters convert (qd_params q) (pq_text p) number \<and>
           qdn_text d = trim_spaces (concat (map (expand number) (pq_text p)))))"

lemma describe_declared_iff:
  assumes "distinct (map qd_name qs)"
  shows "describe_declared convert qs p None = Inr d \<longleftrightarrow> describes convert qs p d"
proof (cases "pq_name p \<in> qd_name ` set qs")
  case True
  then obtain q where q: "q \<in> set qs" "qd_name q = pq_name p" by auto
  have u: "q' = q" if "q' \<in> set qs" "qd_name q' = pq_name p" for q'
    using assms q that by (auto simp: distinct_map inj_on_def)
  have d: "describes convert qs p d \<longleftrightarrow> qdn_name d = pq_name p \<and>
      (\<exists>number. numbers_parameters convert (qd_params q) (pq_text p) number \<and>
         qdn_text d = trim_spaces (concat (map (expand number) (pq_text p))))"
    unfolding describes_def using q u by blast
  have m: "make_query_description convert q p = Inr d \<longleftrightarrow> qdn_name d = pq_name p \<and>
      (\<exists>sql. visit_parts convert q (pq_text p) [] = Inr sql \<and> qdn_text d = trim_spaces sql)"
    unfolding make_query_description_def by (cases d) (auto simp del: sbind_simps)
  have v: "visit_parts convert q (pq_text p) [] = Inr sql \<longleftrightarrow>
      (\<exists>number. numbers_parameters convert (qd_params q) (pq_text p) number \<and>
         sql = concat (map (expand number) (pq_text p)))" for sql
  proof
    assume a: "visit_parts convert q (pq_text p) [] = Inr sql"
    note n = visit_parts_Inr [OF a]
    from a visit_parts_numbered [OF n, of "[]"] n
    show "\<exists>number. numbers_parameters convert (qd_params q) (pq_text p) number \<and>
        sql = concat (map (expand number) (pq_text p))" by auto
  qed (auto simp: visit_parts_numbered)
  show ?thesis unfolding describe_declared_found [OF assms q] d m v by auto
next
  case False
  then show ?thesis by (auto simp: describe_declared_absent describes_def rev_image_eqI)
qed

lemma make_query_descriptions_iff:
  assumes "distinct (map qd_name qs)"
  shows "make_query_descriptions convert qs ps = Inr ds \<longleftrightarrow> list_all2 (describes convert qs) ps ds"
  by (induction ps arbitrary: ds) (auto simp: describe_declared_iff [OF assms] list_all2_Cons1)

text \<open>What the program asks of a configuration.\<close>

definition conf_matches :: "(string \<Rightarrow> nat option) \<Rightarrow> query_decl list \<Rightarrow> parsed_query list \<Rightarrow> bool" where
  "conf_matches convert queries parsed \<longleftrightarrow>
     distinct (map qd_name queries) \<and> distinct (map pq_name parsed) \<and>
     qd_name ` set queries = pq_name ` set parsed \<and>
     (\<forall>p \<in> set parsed. \<forall>q \<in> set queries. qd_name q = pq_name p \<longrightarrow>
        (\<exists>number. numbers_parameters convert (qd_params q) (pq_text p) number))"

lemma describes_exists:
  "conf_matches convert queries parsed \<Longrightarrow> p \<in> set parsed \<Longrightarrow> \<exists>d. describes convert queries p d"
proof -
  assume c: "conf_matches convert queries parsed" and p: "p \<in> set parsed"
  then have "pq_name p \<in> qd_name ` set queries" by (auto simp: conf_matches_def)
  then obtain q number where q: "q \<in> set queries" "qd_name q = pq_name p"
      "numbers_parameters convert (qd_params q) (pq_text p) number"
    using c p by (force simp: conf_matches_def)
  then have "describes convert queries p
      \<lparr>qdn_name = pq_name p, qdn_text = trim_spaces (concat (map (expand number) (pq_text p)))\<rparr>"
    unfolding describes_def by auto
  then show ?thesis ..
qed

lemma describes_names: "list_all2 (describes convert qs) ps ds \<Longrightarrow> map qdn_name ds = map pq_name ps"
  by (induction rule: list_all2_induct) (auto simp: describes_def)

lemma make_query_repository_iff:
  "make_query_repository convert conf queries = Inr repo \<longleftrightarrow>
     (\<exists>parsed ds. parse_query_conf conf = Inr parsed \<and> conf_matches convert queries parsed \<and>
        list_all2 (describes convert queries) parsed ds \<and> repo = make_query_conf ds)" (is "?l \<longleftrightarrow> ?r")
proof
  assume ?l
  then obtain parsed ds where d: "distinct (map qd_name queries)" "parse_query_conf conf = Inr parsed"
      "distinct (map pq_name parsed)" "qd_name ` set queries \<subseteq> pq_name ` set parsed"
      "make_query_descriptions convert queries parsed = Inr ds" "repo = make_query_conf ds"
    by (auto simp: make_query_repository_def check_for_duplicates_eq check_for_undefined_eq split: if_splits)
  then have l: "list_all2 (describes convert queries) parsed ds" by (simp add: make_query_descriptions_iff)
  have ex: "\<exists>d. describes convert queries p d" if "p \<in> set parsed" for p
    using l that by (auto simp: list_all2_conv_all_nth in_set_conv_nth)
  have "pq_name p \<in> qd_name ` set queries" if "p \<in> set parsed" for p
    using ex [OF that] unfolding describes_def by (metis image_eqI)
  moreover have "\<exists>number. numbers_parameters convert (qd_params q) (pq_text p) number"
    if "p \<in> set parsed" "q \<in> set queries" "qd_name q = pq_name p" for p q
    using ex [OF that(1)] that d(1) by (fastforce simp: describes_def distinct_map inj_on_def)
  ultimately have "conf_matches convert queries parsed" using d by (auto simp: conf_matches_def)
  with d l show ?r by blast
next
  assume ?r
  then show ?l
    by (auto simp: make_query_repository_def check_for_duplicates_eq check_for_undefined_eq conf_matches_def
        make_query_descriptions_iff)
qed

lemma list_all2_exists: "(\<And>x. x \<in> set xs \<Longrightarrow> \<exists>y. P x y) \<Longrightarrow> \<exists>ys. list_all2 P xs ys"
  by (induction xs) (auto simp: list_all2_Cons1)

text \<open>The text of a query in the repository.\<close>

lemma get_description_make:
  assumes "list_all2 (describes convert queries) parsed ds" "conf_matches convert queries parsed"
    "q \<in> set queries" "p \<in> set parsed" "qd_name q = pq_name p"
  shows "\<exists>number. numbers_parameters convert (qd_params q) (pq_text p) number \<and>
     get_description (make_query_conf ds) (qd_name q) = Inr (trim_spaces (concat (map (expand number) (pq_text p))))"
proof -
  have n: "distinct (map qdn_name ds)" using describes_names [OF assms(1)] assms(2) by (simp add: conf_matches_def)
  obtain d where d: "d \<in> set ds" "describes convert queries p d"
    using assms(1,4) by (metis in_set_conv_nth list_all2_conv_all_nth)
  then obtain q' number where q': "q' \<in> set queries" "qd_name q' = pq_name p" "qdn_name d = pq_name p"
      "numbers_parameters convert (qd_params q') (pq_text p) number"
      "qdn_text d = trim_spaces (concat (map (expand number) (pq_text p)))"
    unfolding describes_def by blast
  then have "q' = q" using assms(2,3,5) by (auto simp: conf_matches_def distinct_map inj_on_def)
  moreover have "map_of (map (\<lambda>d. (qdn_name d, qdn_text d)) ds) (qdn_name d) = Some (qdn_text d)"
    using n d(1) by (intro map_of_is_SomeI) (auto simp: comp_def)
  ultimately show ?thesis
    using q' assms(5) insert_queries [OF n, of Map.empty]
    by (auto simp: get_description_def make_query_conf_def)
qed

text \<open>C9: a repository is made if and only if the configuration can be parsed, no query is declared or defined
  twice, the declared queries are exactly the defined ones and every parameter of a definition is a member of the
  declared parameters (or a number below their count). The repository then has for every declared query the text
  of its section, in which each parameter is replaced by \<open>$\<close> and its position counted from one, without blanks at
  the ends; a query that is not declared is \<open>out_of_range\<close>.\<close>

theorem query_repository_correct:
  "((\<exists>repo. make_query_repository convert conf queries = Inr repo) \<longleftrightarrow>
      (\<exists>parsed. parse_query_conf conf = Inr parsed \<and> conf_matches convert queries parsed)) \<and>
   (\<forall>repo parsed. make_query_repository convert conf queries = Inr repo \<and> parse_query_conf conf = Inr parsed \<longrightarrow>
      (\<forall>q \<in> set queries. \<forall>p \<in> set parsed. qd_name q = pq_name p \<longrightarrow>
         (\<exists>number. numbers_parameters convert (qd_params q) (pq_text p) number \<and>
            get_description repo (qd_name q) = Inr (trim_spaces (concat (map (expand number) (pq_text p)))))) \<and>
      (\<forall>name. name \<notin> qd_name ` set queries \<longrightarrow> get_description repo name = Inl Out_of_range))"
proof (intro conjI allI impI)
  show "(\<exists>repo. make_query_repository convert conf queries = Inr repo) \<longleftrightarrow>
      (\<exists>parsed. parse_query_conf conf = Inr parsed \<and> conf_matches convert queries parsed)"
    using list_all2_exists [of _ "describes convert queries"] describes_exists
    by (simp add: make_query_repository_iff) metis
next
  fix repo parsed
  assume "make_query_repository convert conf queries = Inr repo \<and> parse_query_conf conf = Inr parsed"
  then show "\<forall>q \<in> set queries. \<forall>p \<in> set parsed. qd_name q = pq_name p \<longrightarrow>
         (\<exists>number. numbers_parameters convert (qd_params q) (pq_text p) number \<and>
            get_description repo (qd_name q) = Inr (trim_spaces (concat (map (expand number) (pq_text p)))))"
    using get_description_make by (fastforce simp: make_query_repository_iff)
next
  fix repo parsed name
  assume r: "make_query_repository convert conf queries = Inr repo \<and> parse_query_conf conf = Inr parsed"
    and n: "name \<notin> qd_name ` set queries"
  then obtain ds where d: "conf_matches convert queries parsed" "list_all2 (describes convert queries) parsed ds"
      "repo = make_query_conf ds" by (auto simp: make_query_repository_iff)
  have "qdn_name ` set ds = qd_name ` set queries"
    using arg_cong [OF describes_names [OF d(2)], of set] d(1) by (simp add: conf_matches_def)
  moreover have "distinct (map qdn_name ds)"
    using describes_names [OF d(2)] d(1) by (simp add: conf_matches_def)
  ultimately show "get_description repo name = Inl Out_of_range"
    using n insert_queries [of ds Map.empty] d(3)
    by (auto simp: get_description_def make_query_conf_def map_of_eq_None_iff image_image split: option.splits dest!: map_of_SomeD)
qed

text \<open>A configuration with two queries.\<close>

definition sample_conf :: string where
  "sample_conf = ''-- name: q'' @ [CHR 0x0A] @ ''SELECT :b'' @ [CHR 0x0A] @ ''-- name: r'' @ [CHR 0x0A] @ ''SELECT 1''"

definition sample_queries :: "query_decl list" where
  "sample_queries = [\<lparr>qd_name = ''r'', qd_params = Tuple 0\<rparr>, \<lparr>qd_name = ''q'', qd_params = Members [''a'', ''b'']\<rparr>]"

definition sample_parsed :: "parsed_query list" where
  "sample_parsed =
     [\<lparr>pq_name = ''q'', pq_text = [Query_text_part ''SELECT '', Query_parameter_name ''b'', Query_text_part [CHR 0x0A]]\<rparr>,
      \<lparr>pq_name = ''r'', pq_text = [Query_text_part ''SELECT 1'']\<rparr>]"

lemma sample_conf_parsed: "parse_query_conf sample_conf = Inr sample_parsed"
  by code_simp

lemma sample_matches: "conf_matches (\<lambda>_. None) sample_queries sample_parsed"
proof -
  have "numbers_parameters (\<lambda>_. None) (Members [''a'', ''b'']) (pq_text (hd sample_parsed)) (\<lambda>_. 1)"
    by (simp add: numbers_parameters_def sample_parsed_def)
  then show ?thesis
    by (auto simp: conf_matches_def sample_queries_def sample_parsed_def numbers_parameters_def)
qed

theorem query_repository_correct_witness:
  "\<exists>repo. make_query_repository (\<lambda>_. None) sample_conf sample_queries = Inr repo \<and>
     get_description repo ''q'' = Inr ''SELECT $2'' \<and> get_description repo ''s'' = Inl Out_of_range"
proof -
  note c = query_repository_correct [of "\<lambda>_. None" sample_conf sample_queries]
  from c sample_conf_parsed sample_matches obtain repo
    where r: "make_query_repository (\<lambda>_. None) sample_conf sample_queries = Inr repo" by blast
  let ?q = "\<lparr>qd_name = ''q'', qd_params = Members [''a'', ''b'']\<rparr>" and ?p = "hd sample_parsed"
  have m: "?q \<in> set sample_queries" "?p \<in> set sample_parsed" "qd_name ?q = pq_name ?p"
    by (simp_all add: sample_queries_def sample_parsed_def)
  obtain number where n: "numbers_parameters (\<lambda>_. None) (qd_params ?q) (pq_text ?p) number"
      "get_description repo (qd_name ?q) = Inr (trim_spaces (concat (map (expand number) (pq_text ?p))))"
    using c r sample_conf_parsed m by blast
  from n(1) have "denotes (\<lambda>_. None) (Members [''a'', ''b'']) ''b'' (number ''b'')"
    by (simp add: numbers_parameters_def sample_parsed_def)
  then have k: "number ''b'' = 1" by (auto simp: less_Suc_eq)
  have "nat_to_string 2 = ''2''" by (subst nat_to_string_unfold) (simp add: digit_to_string_def, code_simp)
  then have "trim_spaces (concat (map (expand number) (pq_text ?p))) = ''SELECT $2''"
    using k by (simp add: sample_parsed_def trim_spaces_def is_space_def numeral_2_eq_2)
  moreover have "''s'' \<notin> qd_name ` set sample_queries" by (simp add: sample_queries_def)
  ultimately show ?thesis using c r sample_conf_parsed n(2) by auto
qed

end
