(* ===== verification/Bozo_System.thy ===== *)
theory Bozo_System
  imports Bozo_Wire_Safety Bozo_Query_Repository Bozo_Failover Bozo_Result
begin

text \<open>
  Properties that follow a datum through several components: the parameters of a query from the query repository
  to the bytes libpq sends, and the SQL state of a failed result to the decision of a failover strategy.
\<close>

section \<open>Errors of the server and failover\<close>

lemma sqlstate_no_library_error:
  "ec_category ec = Sqlstate_category \<Longrightarrow> sys_errors_ok sys \<Longrightarrow>
     ec \<noteq> asio_code sys a \<and> \<not> matches_io_error sys ec \<and> ec \<noteq> make_error_code e"
  by (auto simp: sys_errors_ok_def make_error_code_def) (metis category.distinct error_code.select_convs(2))+

lemma b36_digit_inject: "d < 36 \<Longrightarrow> e < 36 \<Longrightarrow> b36_digit d = b36_digit e \<longleftrightarrow> d = e"
  by (metis b36_value_digit option.inject)

lemma result_error_sqlstate:
  assumes "t = map b36_digit [d1, d2, d3, d4, d5]" "d1 < 36" "d2 < 36" "d3 < 36" "d4 < 36" "d5 < 36"
  shows "result_error (Some t) =
     sqlstate_make_error_code ((int d1 * 36 + int d2) * 46656 + ((int d3 * 36 + int d4) * 36 + int d5))"
proof -
  have "strtol36 t = ((((int d1 * 36 + int d2) * 36 + int d3) * 36 + int d4) * 36 + int d5)"
    using b36tol_five(1) [OF assms(2-)] assms(1) by simp
  moreover have "((((int d1 * 36 + int d2) * 36 + int d3) * 36 + int d4) * 36 + int d5)
      = (int d1 * 36 + int d2) * 46656 + ((int d3 * 36 + int d4) * 36 + int d5)" (is "?v = ?w") by simp
  moreover have "0 \<le> ?w" "?w < 2 ^ 31" using assms(2-) by simp_all
  ultimately show ?thesis by (simp only: result_error_def option.case to_int32_id)
qed

lemma connection_class: "eq_sqlstate_condition (sqlstate_make_error_code v) 373248 \<longleftrightarrow> v div 46656 = 8" if "0 \<le> v"
  using eq_sqlstate_class [of 373248 v] that by (simp add: sqlstate_class_conditions_def)

lemma readonly_state: "eq_sqlstate_condition (sqlstate_make_error_code v) 3592518 \<longleftrightarrow> v = 3592518"
  by (auto simp: eq_sqlstate_condition_def sqlstate_equivalent_def sqlstate_make_error_code_def sqlstate_class_conditions_def)

lemma can_recover_sqlstate:
  assumes "sys_errors_ok sys" "0 \<le> v"
  shows "can_recover sys replica (sqlstate_make_error_code v) \<longleftrightarrow> v div 46656 = 8"
    "can_recover sys master (sqlstate_make_error_code v) \<longleftrightarrow> v div 46656 = 8 \<or> v = 3592518"
proof -
  let ?ec = "sqlstate_make_error_code v"
  have c: "ec_category ?ec = Sqlstate_category" by (simp add: sqlstate_make_error_code_def)
  note no = sqlstate_no_library_error [OF c assms(1)]
  have "eq_condition sys ?ec connection_error \<longleftrightarrow> v div 46656 = 8"
    using no c connection_class [OF assms(2)] by (simp add: eq_condition_def match_code_items_def)
  moreover have "\<not> eq_condition sys ?ec type_mismatch" "\<not> eq_condition sys ?ec protocol_error"
    using no c by (simp_all add: eq_condition_def match_code_items_def)
  moreover have "eq_condition sys ?ec database_readonly \<longleftrightarrow> v = 3592518"
    using c readonly_state [of v] by (simp add: eq_condition_def match_code_items_def)
  ultimately show "can_recover sys replica ?ec \<longleftrightarrow> v div 46656 = 8"
    "can_recover sys master ?ec \<longleftrightarrow> v div 46656 = 8 \<or> v = 3592518"
    by (auto simp: can_recover_def match_code_def)
qed

lemma next_role:
  assumes "role_first_try (role_based [r, r']) tm now = Some t"
  shows "fst (role_next_try sys t ec conn) \<noteq> None \<longleftrightarrow> can_recover sys r' ec"
proof -
  have t: "roles_seq t = [r, r']" "rb_idx t = 0"
    using assms by (auto simp: role_first_try_def role_based_def get_option_map_of roles_seq_def)
  then have "fst (role_next_try sys (t\<lparr>rb_idx := Suc 0\<rparr>) ec conn) = None"
    by (subst role_next_try.simps) (simp add: tries_left_def)
  then show ?thesis
    using t by (subst role_next_try.simps) (simp add: tries_left_def try_role_def Let_def)
qed

lemma state_block:
  assumes "0 \<le> r" "r < 46656"
  shows "h * 46656 + r = 3592518 \<longleftrightarrow> h = 77 \<and> r = (6 :: int)"
proof
  assume e: "h * 46656 + r = 3592518"
  have "(h * 46656 + r) div 46656 = h" using assms by simp
  with e show "h = 77 \<and> r = 6" by simp
qed simp

text \<open>C23: an error of the server leads to another try of the role based strategy by its SQL state alone: a replica is
  tried after the states of class 08 (connection exceptions), the master also after 25006 (a transaction that may only
  read); after any other state the error is given to the caller.\<close>

theorem server_error_recovery:
  assumes "sys_errors_ok sys" and "t = map b36_digit ds" and "length ds = 5" and "\<forall>d \<in> set ds. d < 36"
    and "role_first_try (role_based [master, replica]) tm now = Some t1"
    and "role_first_try (role_based [replica, master]) tm now = Some t2"
  shows "(fst (role_next_try sys t1 (result_error (Some t)) conn) \<noteq> None \<longleftrightarrow> take 2 t = ''08'') \<and>
    (fst (role_next_try sys t2 (result_error (Some t)) conn) \<noteq> None \<longleftrightarrow> take 2 t = ''08'' \<or> t = ''25006'')"
proof -
  obtain d1 d2 d3 d4 d5 where ds: "ds = [d1, d2, d3, d4, d5]"
    using assms(3) by (auto simp: length_Suc_conv numeral_eq_Suc)
  with assms(4) have d: "d1 < 36" "d2 < 36" "d3 < 36" "d4 < 36" "d5 < 36" by auto
  let ?h = "int d1 * 36 + int d2" and ?r = "(int d3 * 36 + int d4) * 36 + int d5"
  have r: "0 \<le> ?r" "?r < 46656" "0 \<le> ?h" using d by simp_all
  have e: "result_error (Some t) = sqlstate_make_error_code (?h * 46656 + ?r)"
    by (rule result_error_sqlstate [OF _ d]) (simp add: assms(2) ds)
  have "(?h * 46656 + ?r) div 46656 = ?h" using r by simp
  moreover have "?h = 8 \<longleftrightarrow> d1 = 0 \<and> d2 = 8" using d by presburger
  moreover have "take 2 t = ''08'' \<longleftrightarrow> d1 = 0 \<and> d2 = 8"
    using b36_digit_inject [OF d(1), of 0] b36_digit_inject [OF d(2), of 8] by (simp add: assms(2) ds)
  moreover have "?h * 46656 + ?r = 3592518 \<longleftrightarrow> d1 = 2 \<and> d2 = 5 \<and> d3 = 0 \<and> d4 = 0 \<and> d5 = 6"
  proof -
    have "?h = 77 \<longleftrightarrow> d1 = 2 \<and> d2 = 5" using d by presburger
    moreover have "?r = 6 \<longleftrightarrow> d3 = 0 \<and> d4 = 0 \<and> d5 = 6" by (cases d3; cases d4) auto
    ultimately show ?thesis using state_block [OF r(1,2), of ?h] by blast
  qed
  moreover have "t = ''25006'' \<longleftrightarrow> d1 = 2 \<and> d2 = 5 \<and> d3 = 0 \<and> d4 = 0 \<and> d5 = 6"
    using b36_digit_inject [OF d(1), of 2] b36_digit_inject [OF d(2), of 5] b36_digit_inject [OF d(3), of 0]
      b36_digit_inject [OF d(4), of 0] b36_digit_inject [OF d(5), of 6] by (simp add: assms(2) ds)
  ultimately show ?thesis
    using can_recover_sqlstate [OF assms(1), of "?h * 46656 + ?r"] r e
    unfolding next_role [OF assms(5)] next_role [OF assms(6)] by simp
qed

definition two_roles :: "role list \<Rightarrow> role_try" where
  "two_roles rs = \<lparr>rb_options = [(opt_roles, Roles rs)], rb_idx = 0, rb_time = No_time, rb_events = []\<rparr>"

theorem server_error_recovery_witness:
  "\<forall>conn. fst (role_next_try sample_sys (two_roles [master, replica]) (result_error (Some ''08006'')) conn) \<noteq> None \<and>
     fst (role_next_try sample_sys (two_roles [master, replica]) (result_error (Some ''25006'')) conn) = None"
proof
  fix conn
  have t: "''08006'' = map b36_digit [0, 8, 0, 0, 6]" "''25006'' = map b36_digit [2, 5, 0, 0, 6]" by simp_all
  have r: "role_first_try (role_based [r, r']) No_time 0 = Some (two_roles [r, r'])" for r r'
    by (simp add: role_first_try_def role_based_def get_option_map_of deadline_of_def two_roles_def)
  show "fst (role_next_try sample_sys (two_roles [master, replica]) (result_error (Some ''08006'')) conn) \<noteq> None \<and>
     fst (role_next_try sample_sys (two_roles [master, replica]) (result_error (Some ''25006'')) conn) = None"
    using server_error_recovery [OF sample_sys_ok t(1) _ _ r r, of conn]
      server_error_recovery [OF sample_sys_ok t(2) _ _ r r, of conn] by simp
qed

section \<open>Parameters of a named query\<close>



end
