(* ===== verification/Bozo_Cancel.thy ===== *)
theory Bozo_Cancel
  imports Bozo_Provider
begin

text \<open>
  \<open>cancel.h\<close> and \<open>impl/cancel.h\<close>: the cancellation of a query. The handle of a cancellation is taken from the connection and owned by the
  operation, which runs on an executor of its own because \<open>PQcancel\<close> blocks, and races with a timer when there is a time constraint. \<open>PQgetCancel\<close> and
  \<open>PQcancel\<close> are arguments; the libpq objects freed by \<open>PQfreeCancel\<close> are recorded.
\<close>

section \<open>The handle and its use\<close>

text \<open>The \<open>unique_ptr\<close> of a \<open>cancel_handle\<close>; a null one frees nothing.\<close>

record cancel_handle =
  ch_native :: "nat option"

definition destroy_cancel_handle :: "cancel_handle \<Rightarrow> nat list" where
  "destroy_cancel_handle h = (case ch_native h of None \<Rightarrow> [] | Some x \<Rightarrow> [x])"

definition get_cancel_handle :: "(nat option \<Rightarrow> nat option) \<Rightarrow> conn_ref \<Rightarrow> cancel_handle option" where
  "get_cancel_handle PQgetCancel conn = map_option (\<lambda>native. \<lparr>ch_native = PQgetCancel native\<rparr>) (get_native_handle conn)"

text \<open>\<open>PQcancel\<close> gets the handle and the buffer, and gives whether it succeeded and the buffer it left.\<close>

type_synonym pq_cancel_fun = "nat option \<Rightarrow> string \<Rightarrow> bool \<times> string"

text \<open>\<open>pq_cancel\<close> takes the handle by value: it is freed when the function returns.\<close>

definition pq_cancel :: "pq_cancel_fun \<Rightarrow> cancel_handle \<Rightarrow> string \<Rightarrow> (bool \<times> string) \<times> nat list" where
  "pq_cancel PQcancel h err = (PQcancel (ch_native h) err, destroy_cancel_handle h)"

definition msg_size :: nat where
  "msg_size = 255"

text \<open>The message is cut after the last character that is not a null.\<close>

definition trim_nulls :: "string \<Rightarrow> string" where
  "trim_nulls msg = rev (dropWhile (\<lambda>ch. ch = CHR 0x00) (rev msg))"

definition dispatch_cancel :: "pq_cancel_fun \<Rightarrow> cancel_handle \<Rightarrow> (error_code \<times> string) \<times> nat list" where
  "dispatch_cancel PQcancel h =
     (let ((ok, msg), freed) = pq_cancel PQcancel h (replicate msg_size (CHR 0x00))
      in (if \<not> ok then (make_error_code pq_cancel_failed, trim_nulls msg) else (no_error, []), freed))"

section \<open>The race with the timer\<close>

text \<open>The shared context of \<open>deadline_cancel_handler\<close>: the counter, whether the wait of the timer is still to complete, and the calls of the
  user's handler.\<close>

record cancel_context =
  cancel_state :: int
  cancel_timer_pending :: bool
  cancel_timer_cancelled :: bool
  cancel_handler_calls :: "(error_code \<times> string) list"

definition deadline_cancel_handler :: cancel_context where
  "deadline_cancel_handler =
     \<lparr>cancel_state = 2, cancel_timer_pending = True, cancel_timer_cancelled = False, cancel_handler_calls = []\<rparr>"

definition on_cancel_done :: "error_code \<times> string \<Rightarrow> cancel_context \<Rightarrow> cancel_context" where
  "on_cancel_done res c0 =
     (let c = c0\<lparr>cancel_state := cancel_state c0 - 1\<rparr>
      in if cancel_state c \<noteq> 0
         then c\<lparr>cancel_timer_cancelled := True, cancel_handler_calls := cancel_handler_calls c @ [res]\<rparr> else c)"

definition on_timer_expired :: "sys_errors \<Rightarrow> cancel_context \<Rightarrow> cancel_context" where
  "on_timer_expired sys c0 =
     (let c = c0\<lparr>cancel_timer_pending := False, cancel_state := cancel_state c0 - 1\<rparr>
      in if cancel_state c \<noteq> 0
         then c\<lparr>cancel_handler_calls := cancel_handler_calls c @
                [(asio_code sys timed_out, ''cancel() operation waiting aborted by time-out'')]\<rparr>
         else c)"

text \<open>The posted operation: as long as it has not run it owns the handle.\<close>

record 'h cancel_run =
  cr_posted :: "cancel_handle option"
  cr_handler :: 'h
  cr_freed :: "nat list"

text \<open>\<open>cancel_op::operator()\<close>, for any handler.\<close>

definition cancel_op ::
  "pq_cancel_fun \<Rightarrow> (error_code \<times> string \<Rightarrow> 'h \<Rightarrow> 'h) \<Rightarrow> cancel_handle \<Rightarrow> 'h cancel_run \<Rightarrow> 'h cancel_run" where
  "cancel_op PQcancel call h r =
     (let (res, freed) = dispatch_cancel PQcancel h
      in \<lparr>cr_posted = None, cr_handler = call res (cr_handler r), cr_freed = cr_freed r @ freed\<rparr>)"

text \<open>\<open>initiate_async_cancel\<close>, with a time point and without; the handler without one is called with the outcome.\<close>

definition initiate_async_cancel_within :: "cancel_handle \<Rightarrow> cancel_context cancel_run" where
  "initiate_async_cancel_within h = \<lparr>cr_posted = Some h, cr_handler = deadline_cancel_handler, cr_freed = []\<rparr>"

definition initiate_async_cancel :: "cancel_handle \<Rightarrow> (error_code \<times> string) list cancel_run" where
  "initiate_async_cancel h = \<lparr>cr_posted = Some h, cr_handler = [], cr_freed = []\<rparr>"

inductive cancel_step :: "sys_errors \<Rightarrow> pq_cancel_fun \<Rightarrow> cancel_context cancel_run \<Rightarrow> cancel_context cancel_run \<Rightarrow> bool"
  for sys PQcancel where
  cancelled: "cr_posted r = Some h \<Longrightarrow> cancel_step sys PQcancel r (cancel_op PQcancel on_cancel_done h r)"
| timer: "cancel_timer_pending (cr_handler r) \<Longrightarrow>
     cancel_step sys PQcancel r (r\<lparr>cr_handler := on_timer_expired sys (cr_handler r)\<rparr>)"

inductive_cases cancel_stepE: "cancel_step sys PQcancel r r'"

section \<open>Correctness\<close>

definition timed_out_call :: "sys_errors \<Rightarrow> error_code \<times> string" where
  "timed_out_call sys = (asio_code sys timed_out, ''cancel() operation waiting aborted by time-out'')"

definition cancel_inv :: "sys_errors \<Rightarrow> pq_cancel_fun \<Rightarrow> cancel_handle \<Rightarrow> cancel_context cancel_run \<Rightarrow> bool" where
  "cancel_inv sys PQcancel h r \<longleftrightarrow>
     (case cr_posted r of
        Some h' \<Rightarrow> h' = h \<and> cr_freed r = [] \<and> \<not> cancel_timer_cancelled (cr_handler r) \<and>
          (if cancel_timer_pending (cr_handler r) then cancel_state (cr_handler r) = 2 \<and> cancel_handler_calls (cr_handler r) = []
           else cancel_state (cr_handler r) = 1 \<and> cancel_handler_calls (cr_handler r) = [timed_out_call sys])
      | None \<Rightarrow> cr_freed r = destroy_cancel_handle h \<and>
          cancel_state (cr_handler r) = (if cancel_timer_pending (cr_handler r) then 1 else 0) \<and>
          (cancel_timer_pending (cr_handler r) \<longrightarrow> cancel_timer_cancelled (cr_handler r)) \<and>
          cancel_handler_calls (cr_handler r) =
            [if cancel_timer_cancelled (cr_handler r) then fst (dispatch_cancel PQcancel h) else timed_out_call sys])"

lemma dispatch_frees [simp]: "snd (dispatch_cancel PQcancel h) = destroy_cancel_handle h"
  by (simp add: dispatch_cancel_def pq_cancel_def split: prod.splits)

lemma cancel_op_simps [simp]:
  "cr_posted (cancel_op PQcancel call h r) = None"
  "cr_handler (cancel_op PQcancel call h r) = call (fst (dispatch_cancel PQcancel h)) (cr_handler r)"
  "cr_freed (cancel_op PQcancel call h r) = cr_freed r @ destroy_cancel_handle h"
  by (simp_all add: cancel_op_def case_prod_beta)

lemma cancel_inv_step:
  assumes "cancel_step sys PQcancel r r'" "cancel_inv sys PQcancel h r"
  shows "cancel_inv sys PQcancel h r'"
  using assms(1)
proof cases
  case (cancelled h')
  then show ?thesis using assms(2) by (simp add: cancel_inv_def on_cancel_done_def split: if_splits)
next
  case timer
  then show ?thesis using assms(2)
    by (cases "cr_posted r") (simp_all add: cancel_inv_def on_timer_expired_def timed_out_call_def)
qed

lemma cancel_inv_reach:
  "(cancel_step sys PQcancel)\<^sup>*\<^sup>* (initiate_async_cancel_within h) r \<Longrightarrow> cancel_inv sys PQcancel h r"
proof (induction rule: rtranclp_induct)
  case base
  show ?case by (simp add: cancel_inv_def initiate_async_cancel_within_def deadline_cancel_handler_def)
qed (rule cancel_inv_step)

lemma trim_nulls_no_trailing: "trim_nulls msg = [] \<or> last (trim_nulls msg) \<noteq> CHR 0x00"
  using hd_dropWhile [of "\<lambda>ch. ch = CHR 0x00" "rev msg"]
  by (auto simp: trim_nulls_def last_rev)

lemma trim_nulls_length: "length (trim_nulls msg) \<le> length msg"
  by (simp add: trim_nulls_def length_dropWhile_le [THEN order_trans])

text \<open>What \<open>PQcancel\<close> owes the caller: it writes within the buffer.\<close>

definition keeps_buffer :: "pq_cancel_fun \<Rightarrow> bool" where
  "keeps_buffer PQcancel \<longleftrightarrow> (\<forall>h err. length (snd (PQcancel h err)) = length err)"

lemma dispatch_cancel_result:
  assumes "keeps_buffer PQcancel"
  shows "fst (dispatch_cancel PQcancel h) = (no_error, []) \<or>
     (\<exists>msg. fst (dispatch_cancel PQcancel h) = (make_error_code pq_cancel_failed, msg) \<and> length msg \<le> msg_size \<and>
        (msg = [] \<or> last msg \<noteq> CHR 0x00))"
proof -
  let ?buf = "replicate msg_size (CHR 0x00)"
  obtain ok msg where r: "PQcancel (ch_native h) ?buf = (ok, msg)" by fastforce
  then have "length msg = msg_size" using assms by (metis keeps_buffer_def length_replicate snd_conv)
  then show ?thesis
    using r trim_nulls_no_trailing [of msg] trim_nulls_length [of msg] by (auto simp: dispatch_cancel_def pq_cancel_def)
qed

text \<open>C37: cancelling under a time limit calls the handler exactly once, as soon as the first of the two completions arrives: with the outcome
  of \<open>PQcancel\<close>, whose error message fits the buffer, carries no trailing nulls and is empty on success, or with \<open>timed_out\<close> if the timer was
  first. The handle is freed once, when \<open>PQcancel\<close> has returned and not before, also when nobody waits for the outcome any more; and as
  long as it is not freed the cancellation can go on.\<close>

theorem cancel_handler_once:
  assumes "(cancel_step sys PQcancel)\<^sup>*\<^sup>* (initiate_async_cancel_within h) r" and "keeps_buffer PQcancel"
  shows "(cancel_handler_calls (cr_handler r) = [] \<longleftrightarrow> cr_posted r \<noteq> None \<and> cancel_timer_pending (cr_handler r)) \<and>
     (cancel_handler_calls (cr_handler r) \<noteq> [] \<longrightarrow>
        (\<exists>ec msg. cancel_handler_calls (cr_handler r) = [(ec, msg)] \<and>
           (if cancel_timer_cancelled (cr_handler r)
            then (ec = no_error \<and> msg = []) \<or>
              (ec = make_error_code pq_cancel_failed \<and> length msg \<le> msg_size \<and> (msg = [] \<or> last msg \<noteq> CHR 0x00))
            else ec = asio_code sys timed_out))) \<and>
     cr_freed r = (if cr_posted r = None then destroy_cancel_handle h else []) \<and>
     (cr_posted r \<noteq> None \<longrightarrow> (\<exists>r'. cancel_step sys PQcancel r r' \<and> cr_posted r' = None))"
proof -
  have inv: "cancel_inv sys PQcancel h r" by (rule cancel_inv_reach [OF assms(1)])
  have "\<exists>r'. cancel_step sys PQcancel r r' \<and> cr_posted r' = None" if "cr_posted r \<noteq> None"
    using that cancel_step.cancelled [of r] by fastforce
  with inv dispatch_cancel_result [OF assms(2), of h] show ?thesis
    by (cases "cr_posted r") (auto simp: cancel_inv_def timed_out_call_def split: if_splits)
qed

theorem cancel_handler_once_witness:
  "cr_freed (initiate_async_cancel_within \<lparr>ch_native = Some 3\<rparr>\<lparr>cr_handler := on_timer_expired sample_sys deadline_cancel_handler\<rparr>) = [] \<and>
   (\<exists>msg. cancel_handler_calls (on_timer_expired sample_sys deadline_cancel_handler) = [(asio_code sample_sys timed_out, msg)])"
proof -
  let ?PQcancel = "\<lambda>_ s. (True, s) :: bool \<times> string" and ?start = "initiate_async_cancel_within \<lparr>ch_native = Some 3\<rparr>"
  let ?r = "?start\<lparr>cr_handler := on_timer_expired sample_sys deadline_cancel_handler\<rparr>"
  have "cancel_step sample_sys ?PQcancel ?start (?start\<lparr>cr_handler := on_timer_expired sample_sys (cr_handler ?start)\<rparr>)"
    by (rule cancel_step.timer) (simp add: initiate_async_cancel_within_def deadline_cancel_handler_def)
  then have "(cancel_step sample_sys ?PQcancel)\<^sup>*\<^sup>* ?start ?r" by (auto simp: initiate_async_cancel_within_def)
  moreover have "keeps_buffer ?PQcancel" by (simp add: keeps_buffer_def)
  ultimately show ?thesis
    using cancel_handler_once [of sample_sys ?PQcancel "\<lparr>ch_native = Some 3\<rparr>" ?r]
    by (auto simp: initiate_async_cancel_within_def on_timer_expired_def deadline_cancel_handler_def)
qed

text \<open>Without a time constraint the handler gets the outcome, once, when the operation has run.\<close>

lemma cancel_without_limit:
  "cancel_op PQcancel (\<lambda>res calls. calls @ [res]) h (initiate_async_cancel h) =
     \<lparr>cr_posted = None, cr_handler = [fst (dispatch_cancel PQcancel h)], cr_freed = destroy_cancel_handle h\<rparr>"
  by (simp add: cancel_op_def initiate_async_cancel_def case_prod_beta)

end
