(* ===== verification/Bozo_Pool_Source.thy ===== *)
theory Bozo_Pool_Source
  imports Bozo_Pool
begin

text \<open>
  \<open>connection_pool\<close> of \<open>connection_pool.h\<close> as a source of connections: a request waits in the queue of the resource pool and then, when there
  is no usable connection, for the source of the pool. Both waits are limited by the same time constraint. The resource pool and the
  source are arguments: what they complete with and when.
\<close>

section \<open>The pool\<close>

text \<open>Durations are in nanoseconds, the ticks of the steady clock.\<close>

record connection_pool_config =
  capacity :: nat
  queue_capacity :: nat
  idle_timeout :: int
  lifespan :: int

definition default_pool_config :: connection_pool_config where
  "default_pool_config =
     \<lparr>capacity = 10, queue_capacity = 128, idle_timeout = 60 * 1000000000, lifespan = 24 * 3600 * 1000000000\<rparr>"

record connection_pool_timeouts =
  pt_connect :: int
  pt_queue :: int

record 'src connection_pool =
  cp_config :: connection_pool_config
  cp_source :: 'src

definition make_connection_pool :: "'src \<Rightarrow> connection_pool_config \<Rightarrow> 'src connection_pool" where
  "make_connection_pool source config = \<lparr>cp_config = config, cp_source = source\<rparr>"

text \<open>What the event loop brings: \<open>get_auto_recycle\<close> of the resource pool for a limit on the wait, and the source of the pool; each with the time of
  its completion.\<close>

record 'src pool_env =
  pe_recycle :: "connection_pool_config \<Rightarrow> int \<Rightarrow> int \<Rightarrow> error_code \<times> pool_handle \<times> int"
  pe_source :: "'src \<Rightarrow> time_constraint \<Rightarrow> int \<Rightarrow> (error_code \<times> connection option) \<times> int"
  pe_socket :: "nat \<Rightarrow> int"
  pe_bad :: "nat \<Rightarrow> bool"

text \<open>\<open>connection_pool::operator()\<close>, up to the call of the user's handler.\<close>

definition connection_pool_call ::
  "'src pool_env \<Rightarrow> 'src connection_pool \<Rightarrow> time_constraint \<Rightarrow> int \<Rightarrow> ((error_code \<times> pooled_connection option) \<times> int) option" where
  "connection_pool_call env pool t now =
     Option.bind (queue_timeout t now) (\<lambda>limit.
       let (ec, h, at) = pe_recycle env (cp_config pool) limit now
       in case pooled_connection_wrapper (pe_socket env) (pe_bad env) ec h of
            Handler ec' c \<Rightarrow> Some ((ec', c), at)
          | Ask_source h' \<Rightarrow>
              (let ((ec', conn), at') = pe_source env (cp_source pool) t at
               in Some (fst (source_wrapper (pe_socket env) h' ec' conn), at')))"

text \<open>\<open>make_connector\<close> of a pool, with and without timeouts; of those only \<open>connect\<close> is used.\<close>

definition pool_connector :: "'src connection_pool \<Rightarrow> connection_pool_timeouts option \<Rightarrow> 'src connection_pool provider" where
  "pool_connector pool timeouts = make_connector pool (map_option pt_connect timeouts)"

text \<open>Getting a connection from a provider over a pool.\<close>

definition pool_get_connection ::
  "'src pool_env \<Rightarrow> 'src connection_pool provider \<Rightarrow> time_constraint \<Rightarrow> int \<Rightarrow> ((error_code \<times> pooled_connection option) \<times> int) option" where
  "pool_get_connection env p t now =
     Option.bind (async_get_connection p t now) (\<lambda>a.
       case a of Call_source pool t' \<Rightarrow> connection_pool_call env pool t' now | Given ec r \<Rightarrow> None)"

section \<open>How long it takes\<close>

text \<open>What the resource pool and the source promise: they keep to the limit they are given.\<close>

definition by_constraint :: "time_constraint \<Rightarrow> int \<Rightarrow> int \<Rightarrow> bool" where
  "by_constraint t now at \<longleftrightarrow> now \<le> at \<and> (case t of No_time \<Rightarrow> True | Until tp \<Rightarrow> at \<le> max now tp | Within d \<Rightarrow> at \<le> now + max 0 d)"

definition env_ok :: "'src pool_env \<Rightarrow> bool" where
  "env_ok env \<longleftrightarrow>
     (\<forall>config limit now. by_constraint (Within limit) now (snd (snd (pe_recycle env config limit now)))) \<and>
     (\<forall>src t now. by_constraint t now (snd (pe_source env src t now)))"

lemma queue_timeout_left:
  assumes "0 \<le> now" "tp \<le> int64_max"
  shows "queue_timeout (Until tp) now = Some (max 0 (tp - now))"
  using assms by (auto simp: time_left_def checked64_def int64_min_def int64_max_def)

lemma pool_call_cases:
  assumes "queue_timeout t now = Some limit"
  obtains ec h at where "pe_recycle env (cp_config pool) limit now = (ec, h, at)"
    "(\<exists>ec' c. pooled_connection_wrapper (pe_socket env) (pe_bad env) ec h = Handler ec' c \<and>
        connection_pool_call env pool t now = Some ((ec', c), at)) \<or>
     (\<exists>h' ec' conn at'. pooled_connection_wrapper (pe_socket env) (pe_bad env) ec h = Ask_source h' \<and>
        pe_source env (cp_source pool) t at = ((ec', conn), at') \<and>
        connection_pool_call env pool t now = Some (fst (source_wrapper (pe_socket env) h' ec' conn), at'))"
proof -
  obtain ec h at where r: "pe_recycle env (cp_config pool) limit now = (ec, h, at)" by (metis prod_cases3)
  show thesis
    by (rule that [OF r], cases "pooled_connection_wrapper (pe_socket env) (pe_bad env) ec h")
      (auto simp: connection_pool_call_def assms r split: prod.splits)
qed

text \<open>C24: a pool that is asked with a deadline completes by the deadline, and within a duration after at most twice the duration, as long as the resource
  pool and the source keep to the limits they get: the wait in the queue and the connecting each take up to the whole of it. It completes in
  any case; an error of the queue comes without a connection.\<close>

theorem pool_time_bound:
  assumes "env_ok env" and "0 \<le> now" and "\<forall>tp. t = Until tp \<longrightarrow> tp \<le> int64_max"
  shows "\<exists>ec c at. connection_pool_call env pool t now = Some ((ec, c), at) \<and> now \<le> at \<and>
     (\<forall>tp. t = Until tp \<longrightarrow> at \<le> max now tp) \<and> (\<forall>d. t = Within d \<longrightarrow> at \<le> now + 2 * max 0 d) \<and>
     (\<forall>limit. queue_timeout t now = Some limit \<and> is_error (fst (pe_recycle env (cp_config pool) limit now)) \<longrightarrow>
        ec = fst (pe_recycle env (cp_config pool) limit now) \<and> c = None)"
proof -
  obtain limit where l: "queue_timeout t now = Some limit" "\<And>tp. t = Until tp \<Longrightarrow> limit = max 0 (tp - now)"
      "\<And>d. t = Within d \<Longrightarrow> limit = d" "t = No_time \<Longrightarrow> limit = 0"
    using assms(2,3) queue_timeout_left by (cases t) auto
  obtain ec h at where r: "pe_recycle env (cp_config pool) limit now = (ec, h, at)" and
    outcome: "(\<exists>ec' c. pooled_connection_wrapper (pe_socket env) (pe_bad env) ec h = Handler ec' c \<and>
        connection_pool_call env pool t now = Some ((ec', c), at)) \<or>
     (\<exists>h' ec' conn at'. pooled_connection_wrapper (pe_socket env) (pe_bad env) ec h = Ask_source h' \<and>
        pe_source env (cp_source pool) t at = ((ec', conn), at') \<and>
        connection_pool_call env pool t now = Some (fst (source_wrapper (pe_socket env) h' ec' conn), at'))"
    by (rule pool_call_cases [OF l(1)])
  have "by_constraint (Within limit) now at" using assms(1) r by (metis env_ok_def snd_conv)
  then have at: "now \<le> at" "at \<le> now + max 0 limit" by (simp_all add: by_constraint_def)
  have err: "is_error ec \<Longrightarrow> pooled_connection_wrapper (pe_socket env) (pe_bad env) ec h = Handler ec None"
    by (simp add: pooled_connection_wrapper_def)
  from outcome show ?thesis
  proof (elim disjE exE conjE)
    fix ec' c assume h: "pooled_connection_wrapper (pe_socket env) (pe_bad env) ec h = Handler ec' c"
      "connection_pool_call env pool t now = Some ((ec', c), at)"
    then show ?thesis using at l err r by (cases t) (auto simp: max_def split: if_splits)
  next
    fix h' ec' conn at' assume h: "pooled_connection_wrapper (pe_socket env) (pe_bad env) ec h = Ask_source h'"
      "pe_source env (cp_source pool) t at = ((ec', conn), at')"
      "connection_pool_call env pool t now = Some (fst (source_wrapper (pe_socket env) h' ec' conn), at')"
    have "by_constraint t at at'" using assms(1) h(2) by (metis env_ok_def snd_conv)
    moreover have "\<not> is_error ec" using err h(1) by auto
    moreover obtain ec2 c2 where "fst (source_wrapper (pe_socket env) h' ec' conn) = (ec2, c2)" by fastforce
    ultimately show ?thesis using at l h(3) r by (cases t) (auto simp: by_constraint_def max_def split: if_splits)
  qed
qed

text \<open>A queue and a source that use up what they are given.\<close>

definition slow_env :: "string pool_env" where
  "slow_env = \<lparr>pe_recycle = (\<lambda>config limit now. (no_error, empty_handle, now + max 0 limit)),
     pe_source = (\<lambda>src t now. ((no_error, Some sample_connection),
       (case t of No_time \<Rightarrow> now | Until tp \<Rightarrow> max now tp | Within d \<Rightarrow> now + max 0 d))),
     pe_socket = (\<lambda>_. 5), pe_bad = (\<lambda>_. False)\<rparr>"

lemma slow_env_ok: "env_ok slow_env"
  by (simp add: env_ok_def slow_env_def by_constraint_def split: time_constraint.splits)

lemma slow_env_call:
  "queue_timeout t now = Some limit \<Longrightarrow>
   connection_pool_call slow_env pool t now =
     Some (fst (source_wrapper (\<lambda>_. 5) empty_handle no_error (Some sample_connection)), snd (pe_source slow_env [] t (now + max 0 limit)))"
  by (simp add: connection_pool_call_def slow_env_def wrapper_empty)

theorem pool_time_bound_witness:
  "\<exists>ec c at. connection_pool_call slow_env (make_connection_pool ''db'' default_pool_config) (Until 900) 100 = Some ((ec, c), at) \<and> at \<le> 900"
  using pool_time_bound [OF slow_env_ok, of 100 "Until 900" "make_connection_pool ''db'' default_pool_config"]
  by (auto simp: int64_max_def)

text \<open>The factor of two is reached. Since \<open>bind_get_connection_timeout\<close> turns the deadline of a caller into a duration, a request through the connector of a pool
  can get its connection long after its deadline.\<close>

theorem pool_connector_overruns:
  "env_ok slow_env \<and>
   (\<exists>r. connection_pool_call slow_env pool (Within 500) 100 = Some (r, 100 + 2 * 500)) \<and>
   (\<exists>r. pool_get_connection slow_env (pool_connector pool (Some \<lparr>pt_connect = 10000, pt_queue = 10000\<rparr>)) (Until 900) 100 =
      Some (r, 100 + 2 * (900 - 100)))"
proof -
  have "time_left 900 100 = Some 800" by (simp add: time_left_def checked64_def int64_min_def int64_max_def)
  then show ?thesis
    by (simp add: slow_env_ok slow_env_call pool_get_connection_def pool_connector_def make_connector_def) (simp add: slow_env_def)
qed

end
