(* ===== verification/Bozo_Query_Text.thy ===== *)
theory Bozo_Query_Text
  imports Bozo_Query_Builder
begin

text \<open>
  \<open>query.h\<close> and \<open>impl/query.h\<close>: query objects and the text of a query. libpq reads the text as a C string from a pointer, so that what it
  reads depends on the memory behind the text object: a text is modelled together with that memory.
\<close>

section \<open>Texts\<close>

abbreviation (input) nul :: char where
  "nul \<equiv> CHR 0x00"

text \<open>A view has the memory it looks into, the offset and the length; a \<open>const char*\<close> has the memory from its address on.\<close>

datatype query_text = Hana_string string | Std_string string | String_view string nat nat | C_string string

text \<open>\<open>to_const_char\<close>: the memory from the returned pointer on. The characters of a \<open>hana::string\<close> and of a \<open>std::string\<close> are followed by a null; those of a
  view by whatever follows them in memory.\<close>

fun to_const_char :: "query_text \<Rightarrow> string" where
  "to_const_char (Hana_string s) = s @ [nul]"
| "to_const_char (Std_string s) = s @ [nul]"
| "to_const_char (String_view mem off len) = drop off mem"
| "to_const_char (C_string mem) = mem"

text \<open>Reading a C string, which is undefined when there is no null to end it.\<close>

definition read_c_string :: "string \<Rightarrow> string option" where
  "read_c_string mem = (if nul \<in> set mem then Some (takeWhile (\<lambda>ch. ch \<noteq> nul) mem) else None)"

text \<open>The characters a text object stands for; for a \<open>const char*\<close> these are the ones a C string has.\<close>

fun text_contents :: "query_text \<Rightarrow> string" where
  "text_contents (Hana_string s) = s"
| "text_contents (Std_string s) = s"
| "text_contents (String_view mem off len) = take len (drop off mem)"
| "text_contents (C_string mem) = takeWhile (\<lambda>ch. ch \<noteq> nul) mem"

section \<open>Queries\<close>

record query =
  query_text :: query_text
  query_params :: "param list"

definition get_query_text :: "query \<Rightarrow> query_text" where
  "get_query_text q = query_text q"

definition get_query_params :: "query \<Rightarrow> param list" where
  "get_query_params q = query_params q"

text \<open>\<open>make_query\<close>; the overload for \<open>const char*\<close> makes a view of the string, which ends where its null is.\<close>

definition make_query :: "query_text \<Rightarrow> param list \<Rightarrow> query option" where
  "make_query t params =
     (case t of
        C_string mem \<Rightarrow> map_option (\<lambda>s. \<lparr>query_text = String_view mem 0 (length s), query_params = params\<rparr>) (read_c_string mem)
      | _ \<Rightarrow> Some \<lparr>query_text = t, query_params = params\<rparr>)"

text \<open>The binary query libpq gets, with the text as libpq reads it.\<close>

definition query_to_binary :: "endian \<Rightarrow> query \<Rightarrow> oid_map \<Rightarrow> binary_query option" where
  "query_to_binary native q m =
     map_option (\<lambda>sql. to_binary_query native (Query sql (get_query_params q)) m) (read_c_string (to_const_char (get_query_text q)))"

section \<open>The text arrives\<close>

lemma takeWhile_ended: "nul \<notin> set s \<Longrightarrow> takeWhile (\<lambda>ch. ch \<noteq> nul) (s @ nul # rest) = s"
  by (induction s) auto

lemma takeWhile_nul: "nul \<in> set mem \<Longrightarrow> \<exists>rest. mem = takeWhile (\<lambda>ch. ch \<noteq> nul) mem @ nul # rest"
  by (induction mem) auto

lemma nul_takeWhile: "nul \<notin> set (takeWhile (\<lambda>ch. ch \<noteq> nul) mem)"
  by (induction mem) auto

lemma read_c_string_iff: "read_c_string mem = Some s \<longleftrightarrow> nul \<notin> set s \<and> (\<exists>rest. mem = s @ nul # rest)"
proof
  assume "read_c_string mem = Some s"
  then have "nul \<in> set mem" "s = takeWhile (\<lambda>ch. ch \<noteq> nul) mem" by (auto simp: read_c_string_def split: if_splits)
  then show "nul \<notin> set s \<and> (\<exists>rest. mem = s @ nul # rest)" using takeWhile_nul nul_takeWhile by blast
next
  assume "nul \<notin> set s \<and> (\<exists>rest. mem = s @ nul # rest)"
  then show "read_c_string mem = Some s" using takeWhile_ended by (auto simp: read_c_string_def)
qed

text \<open>When the memory ends a text where the text ends.\<close>

fun text_ended :: "query_text \<Rightarrow> bool" where
  "text_ended (String_view mem off len) \<longleftrightarrow> off + len < length mem \<and> mem ! (off + len) = nul"
| "text_ended (C_string mem) \<longleftrightarrow> nul \<in> set mem"
| "text_ended _ \<longleftrightarrow> True"

fun in_memory :: "query_text \<Rightarrow> bool" where
  "in_memory (String_view mem off len) \<longleftrightarrow> off + len \<le> length mem"
| "in_memory _ \<longleftrightarrow> True"

lemma view_split:
  assumes "off + len \<le> length mem"
  shows "(\<exists>rest. drop off mem = take len (drop off mem) @ nul # rest) \<longleftrightarrow> off + len < length mem \<and> mem ! (off + len) = nul"
proof
  assume "\<exists>rest. drop off mem = take len (drop off mem) @ nul # rest"
  then obtain rest where r: "drop off mem = take len (drop off mem) @ nul # rest" by blast
  have len: "length (take len (drop off mem)) = len" using assms by simp
  have "length (drop off mem) = len + Suc (length rest)" by (subst r) (simp only: length_append len list.size)
  moreover have "drop off mem ! len = nul" using r len by (metis nth_append_length)
  ultimately show "off + len < length mem \<and> mem ! (off + len) = nul" using assms by (simp add: add.commute)
next
  assume a: "off + len < length mem \<and> mem ! (off + len) = nul"
  then have "drop (off + len) mem = nul # drop (Suc (off + len)) mem" by (metis Cons_nth_drop_Suc)
  then have "drop len (drop off mem) = nul # drop (Suc (off + len)) mem" by (simp add: add.commute)
  then show "\<exists>rest. drop off mem = take len (drop off mem) @ nul # rest" by (metis append_take_drop_id)
qed

lemma text_read_iff:
  assumes "in_memory t"
  shows "read_c_string (to_const_char t) = Some (text_contents t) \<longleftrightarrow> text_ended t \<and> nul \<notin> set (text_contents t)"
proof (cases t)
  case (String_view mem off len)
  then show ?thesis using assms view_split [of off len mem] by (auto simp: read_c_string_iff)
next
  case (C_string mem)
  then show ?thesis using nul_takeWhile [of mem] by (auto simp: read_c_string_def)
qed (auto simp: read_c_string_iff)

text \<open>C25: libpq reads the text of a query as it is exactly if the text has no null in it and the memory has one behind it. That is so for the texts of
  builders and of literals and for \<open>std::string\<close>, and for a query made from a \<open>const char*\<close>, as long as they have no null inside; a \<open>string_view\<close> depends on what
  follows it. The parameters are the ones given in every case.\<close>

theorem query_text_arrives:
  assumes "make_query t params = Some q" and "in_memory t"
  shows "((\<exists>b. query_to_binary native q m = Some b \<and> q_text b = text_contents t) \<longleftrightarrow> text_ended t \<and> nul \<notin> set (text_contents t)) \<and>
     (\<forall>b. query_to_binary native q m = Some b \<longrightarrow> b = to_binary_query native (Query (q_text b) params) m)"
proof -
  have bin: "query_to_binary native q m = map_option (\<lambda>sql. make_binary_query native sql params m) (read_c_string (to_const_char (query_text q)))"
    using assms(1) by (auto simp: make_query_def query_to_binary_def get_query_text_def get_query_params_def split: query_text.splits)
  have same: "to_const_char (query_text q) = to_const_char t"
    using assms(1) by (auto simp: make_query_def split: query_text.splits)
  have sql: "q_text (make_binary_query native sql params m) = sql" for sql by (simp add: make_binary_query_def Let_def)
  show ?thesis
    using text_read_iff [OF assms(2)] by (auto simp: bin same sql)
qed

theorem query_text_arrives_witness:
  "(\<exists>b. query_to_binary little \<lparr>query_text = String_view (''SELECT 1'' @ [CHR 0x00]) 0 8, query_params = []\<rparr> [] = Some b \<and> q_text b = ''SELECT 1'')"
proof -
  have "make_query (C_string (''SELECT 1'' @ [CHR 0x00])) [] =
      Some \<lparr>query_text = String_view (''SELECT 1'' @ [CHR 0x00]) 0 8, query_params = []\<rparr>"
    by (simp add: make_query_def read_c_string_def)
  from query_text_arrives [OF this, of little "[]"] show ?thesis by simp
qed

text \<open>A view of the first word of a text is sent with all the words behind it, and a text with a null in it is cut.\<close>

lemma string_view_overread:
  "\<exists>b. query_to_binary native \<lparr>query_text = String_view (''COMMIT AND CHAIN'' @ [CHR 0x00]) 0 6, query_params = []\<rparr> m = Some b \<and>
     text_contents (String_view (''COMMIT AND CHAIN'' @ [CHR 0x00]) 0 6) = ''COMMIT'' \<and> q_text b = ''COMMIT AND CHAIN''"
  by (simp add: query_to_binary_def get_query_text_def read_c_string_def make_binary_query_def Let_def)

text \<open>The query of a builder.\<close>

definition builder_query :: "query_builder \<Rightarrow> query" where
  "builder_query es = \<lparr>query_text = Hana_string (builder_text es), query_params = builder_params es\<rparr>"

lemma builder_query_arrives:
  assumes "nul \<notin> set (builder_text es)"
  shows "query_to_binary native (builder_query es) m = Some (to_binary_query native (builder_build es) m)"
proof -
  have "read_c_string (builder_text es @ [nul]) = Some (builder_text es)" using assms by (auto simp: read_c_string_iff)
  then show ?thesis by (simp add: builder_query_def query_to_binary_def get_query_text_def get_query_params_def builder_build_def)
qed

end
