(* ===== verification/Spec2Isabelle.thy ===== *)
theory Spec2Isabelle
  imports Bozo_Sqlstate Bozo_Base36 Bozo_Definitions Bozo_Connect Bozo_Transaction Bozo_Pool Bozo_Provider Bozo_Options Bozo_Timestamp
    Bozo_Timed_Request Bozo_Timed_Connect Bozo_Delivery Bozo_Failover_Execute Bozo_System Bozo_Cancel Bozo_Pool_Source Bozo_Query_Text
begin

text \<open>
  \<^bold>\<open>A verification of bozo, an asynchronous PostgreSQL client library for C++ (\<open>src/include/bozo\<close>)\<close>

  \<^bold>\<open>The program and its parts.\<close> A query is text with typed parameters. It is built from SQL literals and values
  (\<open>query_builder.h\<close>) or taken from a configuration text (\<open>query_conf.h\<close>), converted to the binary format of the
  protocol (\<open>io/binary_query.h\<close>, \<open>io/send.h\<close>, \<open>io/size_of.h\<close>, \<open>io/array.h\<close>, \<open>io/composite.h\<close>), and sent over a connection
  by an asynchronous operation (\<open>impl/async_request.h\<close>) that collects the result, whose rows are decoded into C++
  objects (\<open>result.h\<close>, \<open>io/recv.h\<close>). Connections are established and told the oids of the user's types
  (\<open>impl/async_connect.h\<close>, \<open>impl/request_oid_map.h\<close>), kept in a pool (\<open>impl/connection_pool.h\<close>), grouped into
  transactions (\<open>transaction.h\<close>), limited in time (\<open>deadline.h\<close>, \<open>detail/deadline.h\<close>), cancelled (\<open>cancel.h\<close>) and tried again when
  they fail (\<open>failover\<close>). Errors of the library, of the system and of the server are error codes that match error conditions
  (\<open>error.h\<close>).

  \<^bold>\<open>Theories, in the order of their imports.\<close>

  \<^item> \<open>Bozo_Prelude\<close>: bytes, oids, \<open>size_type\<close>; results with exceptions as \<open>'e + 'a\<close> and their sequencing \<open>sbind\<close>.

  \<^item> \<open>Bozo_Base36\<close> (\<open>detail/base36.h\<close>), \<open>Bozo_Error\<close> (\<open>error.h\<close>, \<open>result_error\<close> of \<open>impl/io.h\<close>), \<open>Bozo_Sqlstate\<close> (the enumeration
  of SQL states and their messages): base-36 numerals are read back as they were written; the error code made from
  a SQL state matches the class conditions by its first two characters; every error of the library falls under
  at most one condition; the enumerated values are the numerals of their five-character states.

  \<^item> \<open>Bozo_Streams\<close> (\<open>io/istream.h\<close>, \<open>io/ostream.h\<close>, \<open>detail/endian.h\<close>, \<open>detail/typed_buffer.h\<close>): a stream is the bytes it has left
  and its error flag. The locale \<open>fixed_codec\<close> states what a reader and a writer of one width owe each other (what is
  written is read, a short stream is an error); it is interpreted for the integers, the character and the boolean of the
  library. \<open>Bozo_Interval\<close> (\<open>ext/std/duration.h\<close>, \<open>ext/std/time_point.h\<close>): conversion of intervals and time points with
  the 64-bit overflow written out; \<open>Bozo_Timestamp\<close>: the round trip of time points, which are a type of the wire like the others.

  \<^item> \<open>Bozo_Types\<close> (\<open>type_traits.h\<close>, \<open>core/nullable.h\<close>, \<open>core/unwrap.h\<close>): the C++ types of the library as a datatype, their values,
  the traits the templates dispatch on, and the oid map of a connection. \<open>Bozo_Definitions\<close> (\<open>pg/definitions.h\<close>): the whole table
  of built-in types with the library's own entry for nulls; an oid identifies its type.

  \<^item> \<open>Bozo_Binary_IO\<close>: \<open>size_of\<close>, \<open>send\<close> and \<open>recv\<close> for every type, mutually recursive as the templates are.
  \<open>Bozo_Wire\<close>: round trip of values and frames between hosts of any byte order (a time point comes back without its part below a
  microsecond), and the announced sizes.
  \<open>Bozo_Wire_Safety\<close>: arbitrary input gives an exception, a value of the type or, for durations and time points only, a signed overflow; and
  a representation that was cut off is always refused. \<open>Bozo_Pg_Format\<close>: PostgreSQL's binary format as an inductive relation \<open>pg_repr\<close> between values and
  bytes, independent of the code: what represents a value is received as it, and what is sent represents it. The statements about
  the parameters of queries and the cells of results are in terms of this relation.

  \<^item> \<open>Bozo_Binary_Query\<close>, \<open>Bozo_Query_Builder\<close>: what libpq is handed for a query, and the numbering of placeholders.
  \<open>Bozo_Query_Text\<close> (\<open>query.h\<close>, \<open>impl/query.h\<close>): query objects and the memory libpq reads their text from; the text arrives as written if and only if a null
  ends it there.
  \<open>Bozo_Query_Conf\<close>: the grammars of a query configuration; \<open>Bozo_Query_Repository\<close>: which configurations are accepted for the
  declared queries and the text each query gets.

  \<^item> \<open>Bozo_Request\<close>: sending, waiting, reading and draining results as a step relation over the shared context of the two
  concurrent operations. \<open>Bozo_Connect\<close>: the connection object with ownership of libpq handles, connecting, requesting oids; the relation
  \<open>connect_step\<close> has a flag for the runs in which the request of the oids calls back again.
  \<open>Bozo_Deadline\<close>: saturating deadlines, the race of an operation with its timer.
  \<open>Bozo_Cancel\<close> (\<open>cancel.h\<close>, \<open>impl/cancel.h\<close>): cancelling a query, from the handle taken from the connection to the one call of the handler; the handle is freed
  once.
  \<open>Bozo_Timed_Operation\<close>: an operation composed with the deadline handler; the locale \<open>called_once\<close> states what the composition relies on (the
  operation calls its handler at most once), \<open>called_once_live\<close> adds that it can always go on, \<open>called_once_settled\<close> that what it delivers stays as it is. \<open>Bozo_Timed_Request\<close> (\<open>async_request\<close>, \<open>async_execute\<close>)
  and \<open>Bozo_Timed_Connect\<close> (\<open>async_connect\<close> with a time constraint, \<open>connection_info.h\<close>) interpret them: the user's handler is called once and the
  operation never gets stuck. \<open>Bozo_Transaction\<close>: the options of a transaction, the \<open>BEGIN\<close> statement, and the life of a transaction from
  the provider of its connection to commit and rollback. \<open>Bozo_Pool\<close>: connections taken from the resource
  pool, given back to it or closed by its timeouts (\<open>pool_event\<close>, where what libpq reports of a connection may be different at each step),
  and the life of a libpq handle as the abstract events \<open>owner_event\<close> that the pool refines.
  \<open>Bozo_Pool_Source\<close>: the pool as a source of connections, and how long getting a connection from it may take: to the deadline, and
  twice a duration.
  \<open>Bozo_Provider\<close> (\<open>connection.h\<close>, \<open>core/unwrap.h\<close>, \<open>core/recursive.h\<close>): a connection inside of pointers, references and
  transactions, and the functions that reach it: which of them are good, and that the guard around a try closes exactly
  the handle that was open; providers of connections with nested limits on the time (\<open>connector.h\<close>). \<open>Bozo_Options\<close> (\<open>core/options.h\<close>): the options of strategies and transactions refine a map where setting them is defined; what the
  strategies rely on is the locale \<open>option_store\<close>.
  \<open>Bozo_Failover\<close>: the loop of tries; the locale \<open>failover_strategy\<close> states that a strategy's next tries decrease a measure,
  from which follow that the loop returns and what the sequence of tries looks like; both strategies of the library, which carry
  their option maps from try to try and close the connections of failed tries, are interpretations of it. \<open>Bozo_Failover_Time\<close>: the locale
  \<open>timed_strategy\<close> extends it by the division of the time; the tries together keep to the deadline and none gets less than an equal share.
  \<open>Bozo_Failover_Execute\<close>: the execution of a statement as the operation that is tried, from the strategy down to the source of connections; the locale
  \<open>executed_strategy\<close> extends \<open>timed_strategy\<close> by the contexts of the tries and is interpreted for both strategies.

  \<^item> \<open>Bozo_Result\<close>: rows and values of a result, and how rows are received into scalars, tuples and structures.
  \<open>Bozo_Delivery\<close>: the output handler of a request, where the end of a request and the decoding of its rows meet.
  \<open>Bozo_System\<close>: a named parameter from the configuration to the value the server decodes, and the SQL state of a failed
  result to the decision of the role based strategy.

  \<^bold>\<open>Conventions.\<close> A C++ exception is \<open>Inl\<close> of an \<open>exn\<close>; behaviour the language leaves undefined (signed overflow) is
  \<open>None\<close> or \<open>Undefined_behaviour\<close>, so that no theorem can rest on it. \<open>size_type\<close> and other 32-bit quantities are
  integers with \<open>to_int32\<close> where the code converts; bit patterns are words. Templates over types are functions of
  \<open>cpp_type\<close>; what a \<open>static_assert\<close> rejects is excluded by \<open>wf_type\<close>. A handler that is called is an entry in a list of
  calls, a wait that is pending is a flag, and an asynchronous operation is a step relation whose rules are the
  completions the event loop may deliver in any order. Loops are structural or have a measure; the two that depend on
  their environment, \<open>drain\<close> and \<open>run_tries\<close>, are partial functions into \<open>option\<close>, and \<open>get_result_op_returns\<close>, \<open>retry_attempts\<close>
  and \<open>role_based_attempts\<close> prove that they return. No fuel is used.

  \<^bold>\<open>Code outside of the repository\<close> is an argument: libpq (\<open>libpq\<close>, \<open>pq_start\<close>, \<open>PQsocket\<close>, status functions), the resource pool (its waits, in
  \<open>Bozo_Pool_Source\<close>; its handles, their return and its timeouts are written out in \<open>Bozo_Pool\<close> as it documents them), Boost's error values (\<open>sys_errors\<close>, with \<open>sys_errors_ok\<close>), \<open>try_lexical_convert\<close>. Boost's Spirit and
  Hana are given their documented meaning where the sources are written in them.

  \<^bold>\<open>What the model shows of the code besides its correctness\<close> (lemmas outside of the list of properties): a request whose result
  arrives while its query is still being written may call its handler twice (\<open>request_handler_twice\<close>); an empty string is
  sent as NULL (\<open>empty_string_sent_as_null\<close>); the size announced for an array with some null elements is wrong
  (\<open>size_of_mixed_nulls\<close>); an empty array received into a container leaves its elements (\<open>recv_empty_array_keeps_elements\<close>); some
  intervals overflow instead of saturating (\<open>to_chrono_duration_overflows\<close>); one SQL state has no message
  (\<open>sqlstate_message_snapshot_too_old\<close>); a connection from a pool with a bound timeout may take longer than the deadline it was asked for
  (\<open>pool_connector_overruns\<close>); the socket of a connection that is being made is asked for only once (\<open>connect_socket_kept\<close>), and a request of the oids that calls
  back twice makes the connect do so (\<open>connect_handler_twice\<close>); setting an option again on a named factory is undefined (\<open>set_existing_on_lvalue\<close>); the
  timestamp \<open>infinity\<close> overflows (\<open>time_point_infinity_overflows\<close>); libpq reads on behind a \<open>string_view\<close> that is not followed by a null (\<open>string_view_overread\<close>).

  \<^bold>\<open>Not modelled:\<close> \<open>nullopt_t\<close>, \<open>nullptr_t\<close> (types that can only be sent, as null) and \<open>weak_ptr\<close> (another owner may reset it at any time); the
  Asio executors, strands and sockets (their effect is the interleaving of the step relations); the
  compile-time concept checks (\<open>core/concept.h\<close>, they have no run-time content); the completion token plumbing of the front
  ends (\<open>request.h\<close>, \<open>execute.h\<close>, \<open>asio.h\<close>, \<open>detail/bind.h\<close>, \<open>detail/make_copyable.h\<close>); statistics (\<open>none_t\<close> everywhere); the examples,
  tests and benchmarks.
\<close>

end
